theory Spec2Isabelle
  imports Complex_Main "HOL-Library.AList"
begin

section \<open>cygraph: the Graph base class and its two backends\<close>

text \<open>
  A shallow embedding of \<^verbatim>\<open>cygraph/graph.pyx\<close> and of the factory function of the
  package. Every method of a class is a function from the object's state to a result and
  the state the call leaves behind; an exception is a result \<open>Inl e\<close>, and the state paired
  with it is the state at the moment of the raise, so mutations done before a raise stay
  visible, as they do in Python.

  A vertex is a value of any type \<open>'v\<close> (in Python: a hashable object, compared with
  \<^verbatim>\<open>==\<close>). The \<^verbatim>\<open>set\<close> that \<^verbatim>\<open>get_children\<close> and \<^verbatim>\<open>get_parents\<close> return is a set; the \<^verbatim>\<open>set\<close>
  that \<^verbatim>\<open>edges\<close> returns is the list of its elements in the order they were added, without
  repetition, because the code also iterates over it. Constructors are called with keyword
  arguments, as the factory calls them.
\<close>

subsection \<open>Values\<close>

text \<open>
  A \<^verbatim>\<open>np.float64\<close> / C double. The code only stores weights, hands them back, and asks
  \<^verbatim>\<open>np.isnan\<close>; so a double is either the not-a-number \<open>NaN\<close> or a number. All NaNs are
  one value here.
\<close>

datatype weight = NaN | Num real

definition isnan :: "weight \<Rightarrow> bool" where
  "isnan w = (case w of NaN \<Rightarrow> True | Num _ \<Rightarrow> False)"

text \<open>
  An attribute dict (key to value), in insertion order. Keys and values are strings here;
  the code puts no restriction on values and wants keys hashable.
\<close>

type_synonym attrs = "(string \<times> string) list"

text \<open>
  The exceptions the code can raise. The four \<^verbatim>\<open>ValueError\<close>s raised by the module are
  told apart by their message; \<open>ValueError_dimensions\<close> is the one \<^verbatim>\<open>np.append\<close> raises on
  arrays whose shapes do not fit.
\<close>

datatype error =
    ValueError_vertex_not_in_graph
  | ValueError_edge_not_in_graph
  | ValueError_already_in_graph
  | ValueError_no_edge
  | ValueError_dimensions
  | IndexError
  | KeyError
  | AttributeError

subsection \<open>Calls as state transformers\<close>

type_synonym ('a, 's) action = "'s \<Rightarrow> (error + 'a) \<times> 's"

definition ret :: "'a \<Rightarrow> ('a, 's) action" where
  "ret a = (\<lambda>s. (Inr a, s))"

definition raise :: "error \<Rightarrow> ('a, 's) action" where
  "raise e = (\<lambda>s. (Inl e, s))"

definition seq :: "('a, 's) action \<Rightarrow> ('a \<Rightarrow> ('b, 's) action) \<Rightarrow> ('b, 's) action" where
  "seq m f = (\<lambda>s. case m s of (Inl e, s') \<Rightarrow> (Inl e, s') | (Inr a, s') \<Rightarrow> f a s')"

definition assign :: "('s \<Rightarrow> 's) \<Rightarrow> (unit, 's) action" where
  "assign f = (\<lambda>s. (Inr (), f s))"

definition inspect :: "('s \<Rightarrow> error + 'a) \<Rightarrow> ('a, 's) action" where
  "inspect f = (\<lambda>s. (f s, s))"

text \<open>A \<^verbatim>\<open>for\<close> loop over a list whose body may raise: the first raise ends the loop.\<close>

fun for_each :: "'a list \<Rightarrow> ('a \<Rightarrow> 'b \<Rightarrow> error + 'b) \<Rightarrow> 'b \<Rightarrow> error + 'b" where
  "for_each [] body acc = Inr acc"
| "for_each (x # xs) body acc =
     (case body x acc of Inl e \<Rightarrow> Inl e | Inr acc' \<Rightarrow> for_each xs body acc')"

subsection \<open>Lists and nested lists as Python and numpy index them\<close>

text \<open>\<^verbatim>\<open>list.index(x)\<close>: the first position of \<open>x\<close>, or no position (Python raises).\<close>

fun list_index :: "'a list \<Rightarrow> 'a \<Rightarrow> nat option" where
  "list_index [] x = None"
| "list_index (y # ys) x = (if y = x then Some 0 else map_option Suc (list_index ys x))"

text \<open>\<^verbatim>\<open>m[u][v]\<close> and \<^verbatim>\<open>m[u][v] = x\<close>; both raise \<^verbatim>\<open>IndexError\<close> out of range.\<close>

definition getitem2 :: "'a list list \<Rightarrow> nat \<Rightarrow> nat \<Rightarrow> error + 'a" where
  "getitem2 m u v =
     (if u < length m \<and> v < length (m ! u) then Inr (m ! u ! v) else Inl IndexError)"

definition setitem2 :: "'a list list \<Rightarrow> nat \<Rightarrow> nat \<Rightarrow> 'a \<Rightarrow> error + 'a list list" where
  "setitem2 m u v x =
     (if u < length m \<and> v < length (m ! u) then Inr (m[u := (m ! u)[v := x]])
      else Inl IndexError)"

text \<open>\<^verbatim>\<open>xs.pop(u)\<close> for an index in range: the list without position \<open>u\<close>.\<close>

definition delete_at :: "nat \<Rightarrow> 'a list \<Rightarrow> 'a list" where
  "delete_at u xs = take u xs @ drop (Suc u) xs"

text \<open>
  \<^verbatim>\<open>for row in matrix: row.pop(u)\<close>. A row too short raises \<^verbatim>\<open>IndexError\<close>; the rows
  before it have lost their cell by then.
\<close>

fun pop_each :: "nat \<Rightarrow> 'a list list \<Rightarrow> (error + unit) \<times> 'a list list" where
  "pop_each u [] = (Inr (), [])"
| "pop_each u (row # rows) =
     (if u < length row
      then (case pop_each u rows of (r, rows') \<Rightarrow> (r, delete_at u row # rows'))
      else (Inl IndexError, row # rows))"

subsection \<open>The base class Graph\<close>

record 'v Graph =
  vertex_attributes :: "'v \<rightharpoonup> attrs"
  edge_attributes :: "('v \<times> 'v) \<rightharpoonup> attrs"
  directed :: bool
  vertices :: "'v list"

definition get_vertex_int :: "'v \<Rightarrow> (nat, ('v, 'z) Graph_scheme) action" where
  "get_vertex_int vertex =
     inspect (\<lambda>self. case list_index (vertices self) vertex of
                    None \<Rightarrow> Inl ValueError_vertex_not_in_graph
                  | Some i \<Rightarrow> Inr i)"

definition set_vertex_attribute ::
  "'v \<Rightarrow> string \<Rightarrow> string \<Rightarrow> (unit, ('v, 'z) Graph_scheme) action" where
  "set_vertex_attribute vertex key val = (\<lambda>self.
     case vertex_attributes self vertex of
       None \<Rightarrow> (Inl ValueError_vertex_not_in_graph, self)
     | Some d \<Rightarrow>
         (Inr (), self\<lparr>vertex_attributes :=
                         (vertex_attributes self)(vertex \<mapsto> AList.update key val d)\<rparr>))"

definition get_vertex_attribute ::
  "'v \<Rightarrow> string \<Rightarrow> (string, ('v, 'z) Graph_scheme) action" where
  "get_vertex_attribute vertex key =
     inspect (\<lambda>self. case vertex_attributes self vertex of
                    None \<Rightarrow> Inl ValueError_vertex_not_in_graph
                  | Some d \<Rightarrow> (case map_of d key of None \<Rightarrow> Inl KeyError | Some x \<Rightarrow> Inr x))"

definition has_vertex :: "'v \<Rightarrow> (bool, ('v, 'z) Graph_scheme) action" where
  "has_vertex vertex = inspect (\<lambda>self. Inr (vertex \<in> set (vertices self)))"

text \<open>An edge is given as the pair \<open>(v1, v2)\<close>; undirected graphs try the reversed pair too.\<close>

definition set_edge_attribute ::
  "'v \<times> 'v \<Rightarrow> string \<Rightarrow> string \<Rightarrow> (unit, ('v, 'z) Graph_scheme) action" where
  "set_edge_attribute edge key val = (\<lambda>self.
     case edge_attributes self edge of
       Some d \<Rightarrow>
         (Inr (), self\<lparr>edge_attributes :=
                         (edge_attributes self)(edge \<mapsto> AList.update key val d)\<rparr>)
     | None \<Rightarrow>
         if directed self then (Inl ValueError_edge_not_in_graph, self)
         else (case edge_attributes self (snd edge, fst edge) of
                 Some d \<Rightarrow>
                   (Inr (), self\<lparr>edge_attributes :=
                      (edge_attributes self)((snd edge, fst edge) \<mapsto> AList.update key val d)\<rparr>)
               | None \<Rightarrow> (Inl ValueError_edge_not_in_graph, self)))"

definition get_edge_attribute ::
  "'v \<times> 'v \<Rightarrow> string \<Rightarrow> (string, ('v, 'z) Graph_scheme) action" where
  "get_edge_attribute edge key =
     seq (inspect (\<lambda>self.
            case edge_attributes self edge of
              Some d \<Rightarrow> Inr d
            | None \<Rightarrow>
                if directed self then Inl ValueError_edge_not_in_graph
                else (case edge_attributes self (snd edge, fst edge) of
                        Some d \<Rightarrow> Inr d
                      | None \<Rightarrow> Inl ValueError_edge_not_in_graph)))
         (\<lambda>d. case map_of d key of None \<Rightarrow> raise KeyError | Some x \<Rightarrow> ret x)"

text \<open>
  The test of the undirected branch of \<^verbatim>\<open>edges\<close>: is some edge already in the set the
  reverse of the new one? The result set is kept as a list without repetitions.
\<close>

definition edge_found :: "('v \<times> 'v \<times> 'w) list \<Rightarrow> 'v \<times> 'v \<times> 'w \<Rightarrow> bool" where
  "edge_found edges new_edge =
     list_ex (\<lambda>existing_edge. fst existing_edge = fst (snd new_edge)
                            \<and> fst (snd existing_edge) = fst new_edge) edges"

subsection \<open>DynamicGraph: a list of rows of optional weights\<close>

text \<open>
  The field \<open>adjacency_list\<close> is \<^verbatim>\<open>_adjacency_matrix\<close> of the class: a Python list of rows,
  each a list of cells, a cell \<^verbatim>\<open>None\<close> or a float. (StaticGraph has a field of the same name
  and another type.)
\<close>

record 'v DynamicGraph = "'v Graph" +
  adjacency_list :: "weight option list list"

text \<open>The constructor without a source graph.\<close>

definition DynamicGraph_init :: "bool \<Rightarrow> 'v list \<Rightarrow> 'v DynamicGraph" where
  "DynamicGraph_init directed' vertices' =
     \<lparr>vertex_attributes = fold (\<lambda>v va. va(v \<mapsto> [])) vertices' Map.empty,
      edge_attributes = Map.empty,
      directed = directed',
      vertices = vertices',
      adjacency_list = replicate (length vertices') (replicate (length vertices') None)\<rparr>"

definition d_setitem :: "nat \<Rightarrow> nat \<Rightarrow> weight option \<Rightarrow> (unit, 'v DynamicGraph) action" where
  "d_setitem u v x = (\<lambda>self.
     case setitem2 (adjacency_list self) u v x of
       Inl e \<Rightarrow> (Inl e, self)
     | Inr m \<Rightarrow> (Inr (), self\<lparr>adjacency_list := m\<rparr>))"

definition d_getitem :: "nat \<Rightarrow> nat \<Rightarrow> (weight option, 'v DynamicGraph) action" where
  "d_getitem u v = inspect (\<lambda>self. getitem2 (adjacency_list self) u v)"

definition DynamicGraph_add_edge ::
  "'v \<Rightarrow> 'v \<Rightarrow> weight \<Rightarrow> (unit, 'v DynamicGraph) action" where
  "DynamicGraph_add_edge v1 v2 w =
     seq (get_vertex_int v1) (\<lambda>u.
     seq (get_vertex_int v2) (\<lambda>v.
     seq (assign (\<lambda>self. self\<lparr>edge_attributes := (edge_attributes self)((v1, v2) \<mapsto> [])\<rparr>)) (\<lambda>_.
     seq (d_setitem u v (Some w)) (\<lambda>_.
     (\<lambda>self. if \<not> directed self then d_setitem v u (Some w) self else ret () self)))))"

text \<open>The result of \<^verbatim>\<open>remove_edge\<close> is the list of warnings it emitted.\<close>

definition DynamicGraph_remove_edge ::
  "'v \<Rightarrow> 'v \<Rightarrow> (string list, 'v DynamicGraph) action" where
  "DynamicGraph_remove_edge v1 v2 =
     seq (get_vertex_int v1) (\<lambda>u.
     seq (get_vertex_int v2) (\<lambda>v.
     seq (d_getitem u v) (\<lambda>cell.
     if cell = None then ret [''Attempting to remove edge that doesn't exist.'']
     else
       seq (d_setitem u v None) (\<lambda>_.
       seq (\<lambda>self. if \<not> directed self then d_setitem v u None self else ret () self) (\<lambda>_.
       ret [])))))"

definition DynamicGraph_has_edge :: "'v \<Rightarrow> 'v \<Rightarrow> (bool, 'v DynamicGraph) action" where
  "DynamicGraph_has_edge v1 v2 = (\<lambda>self.
     case list_index (vertices self) v1 of
       None \<Rightarrow> (Inr False, self)
     | Some u \<Rightarrow>
         (case list_index (vertices self) v2 of
            None \<Rightarrow> (Inr False, self)
          | Some v \<Rightarrow> seq (d_getitem u v) (\<lambda>cell. ret (cell \<noteq> None)) self))"

definition DynamicGraph_get_edge_weight ::
  "'v \<Rightarrow> 'v \<Rightarrow> (weight, 'v DynamicGraph) action" where
  "DynamicGraph_get_edge_weight v1 v2 =
     seq (get_vertex_int v1) (\<lambda>u.
     seq (get_vertex_int v2) (\<lambda>v.
     seq (d_getitem u v) (\<lambda>cell.
     case cell of Some w \<Rightarrow> ret w | None \<Rightarrow> raise ValueError_no_edge)))"

definition DynamicGraph_add_vertex :: "'v \<Rightarrow> (unit, 'v DynamicGraph) action" where
  "DynamicGraph_add_vertex v =
     seq (assign (\<lambda>self. self\<lparr>vertex_attributes := (vertex_attributes self)(v \<mapsto> [])\<rparr>)) (\<lambda>_.
     (\<lambda>self.
       if v \<in> set (vertices self) then raise ValueError_already_in_graph self
       else
         (let vertex_number = length (vertices self);
              new_row = replicate (vertex_number + 1) None;
              m = adjacency_list self @ [new_row]
          in (Inr (),
              self\<lparr>vertices := vertices self @ [v],
                   adjacency_list :=
                     map (\<lambda>row. row @ [None]) (take (length m - 1) m)
                     @ drop (length m - 1) m\<rparr>))))"

definition DynamicGraph_remove_vertex :: "'v \<Rightarrow> (unit, 'v DynamicGraph) action" where
  "DynamicGraph_remove_vertex v =
     seq (get_vertex_int v) (\<lambda>u.
     seq (assign (\<lambda>self. self\<lparr>vertices := remove1 v (vertices self)\<rparr>)) (\<lambda>_.
     seq (\<lambda>self. if u < length (adjacency_list self)
                 then (Inr (), self\<lparr>adjacency_list := delete_at u (adjacency_list self)\<rparr>)
                 else (Inl IndexError, self)) (\<lambda>_.
     (\<lambda>self. case pop_each u (adjacency_list self) of
                (r, rows) \<Rightarrow> (r, self\<lparr>adjacency_list := rows\<rparr>)))))"

definition DynamicGraph_get_children :: "'v \<Rightarrow> ('v set, 'v DynamicGraph) action" where
  "DynamicGraph_get_children v =
     seq (get_vertex_int v) (\<lambda>w.
     inspect (\<lambda>self.
       for_each [0..<length (vertices self)]
         (\<lambda>u children.
            case getitem2 (adjacency_list self) w u of
              Inl e \<Rightarrow> Inl e
            | Inr None \<Rightarrow> Inr children
            | Inr (Some _) \<Rightarrow> Inr (insert (vertices self ! u) children))
         {}))"

definition DynamicGraph_get_parents :: "'v \<Rightarrow> ('v set, 'v DynamicGraph) action" where
  "DynamicGraph_get_parents v =
     seq (get_vertex_int v) (\<lambda>w.
     inspect (\<lambda>self.
       for_each [0..<length (vertices self)]
         (\<lambda>u parents.
            case getitem2 (adjacency_list self) u w of
              Inl e \<Rightarrow> Inl e
            | Inr None \<Rightarrow> Inr parents
            | Inr (Some _) \<Rightarrow> Inr (insert (vertices self ! u) parents))
         {}))"

definition DynamicGraph_edges :: "'v DynamicGraph \<Rightarrow> error + ('v \<times> 'v \<times> weight) list" where
  "DynamicGraph_edges self =
     (let n_vertices = length (vertices self) in
      if directed self then
        for_each [0..<n_vertices] (\<lambda>u.
          for_each [0..<n_vertices] (\<lambda>v edges.
            case getitem2 (adjacency_list self) u v of
              Inl e \<Rightarrow> Inl e
            | Inr None \<Rightarrow> Inr edges
            | Inr (Some edge_weight) \<Rightarrow>
                Inr (List.insert (vertices self ! u, vertices self ! v, edge_weight) edges)))
          []
      else
        for_each [0..<n_vertices] (\<lambda>u.
          for_each [0..<n_vertices] (\<lambda>v edges.
            case getitem2 (adjacency_list self) u v of
              Inl e \<Rightarrow> Inl e
            | Inr None \<Rightarrow> Inr edges
            | Inr (Some edge_weight) \<Rightarrow>
                (let new_edge = (vertices self ! u, vertices self ! v, edge_weight) in
                 if edge_found edges new_edge then Inr edges
                 else Inr (List.insert new_edge edges))))
          [])"

subsection \<open>StaticGraph: a numpy matrix with NaN for "no edge"\<close>

text \<open>
  \<^verbatim>\<open>_adjacency_matrix\<close> names a numpy array and \<^verbatim>\<open>_adjacency_matrix_view\<close> is a view of
  the buffer of the array it was assigned from. The numpy functions used here return new
  arrays, so the two fields can come to name different arrays. The arrays live in a
  store, by identity; the two fields hold identities.
\<close>

record 'v StaticGraph = "'v Graph" +
  ndarrays :: "nat \<Rightarrow> weight list list"
  next_ndarray :: nat
  adjacency_matrix :: nat
  adjacency_matrix_view :: nat

definition np_full :: "nat \<Rightarrow> nat \<Rightarrow> weight list list" where
  "np_full rows cols = replicate rows (replicate cols NaN)"

definition ncols :: "'a list list \<Rightarrow> nat" where
  "ncols a = (case a of [] \<Rightarrow> 0 | row # _ \<Rightarrow> length row)"

text \<open>\<^verbatim>\<open>np.append(a, b, axis=0)\<close> and \<^verbatim>\<open>np.append(a, b, axis=1)\<close>: new arrays.\<close>

definition np_append_axis0 :: "'a list list \<Rightarrow> 'a list list \<Rightarrow> error + 'a list list" where
  "np_append_axis0 a b = (if ncols a = ncols b then Inr (a @ b) else Inl ValueError_dimensions)"

definition np_append_axis1 :: "'a list list \<Rightarrow> 'a list list \<Rightarrow> error + 'a list list" where
  "np_append_axis1 a b =
     (if length a = length b then Inr (map (\<lambda>(r, c). r @ c) (zip a b))
      else Inl ValueError_dimensions)"

text \<open>\<^verbatim>\<open>np.delete(a, u, axis=1)\<close> and \<^verbatim>\<open>np.delete(a, u, axis=0)\<close>: new arrays.\<close>

definition np_delete_axis1 :: "'a list list \<Rightarrow> nat \<Rightarrow> error + 'a list list" where
  "np_delete_axis1 a u = (if u < ncols a then Inr (map (delete_at u) a) else Inl IndexError)"

definition np_delete_axis0 :: "'a list list \<Rightarrow> nat \<Rightarrow> error + 'a list list" where
  "np_delete_axis0 a u = (if u < length a then Inr (delete_at u a) else Inl IndexError)"

text \<open>\<^verbatim>\<open>self._adjacency_matrix = a\<close> for a freshly made array \<open>a\<close>.\<close>

definition set_adjacency_matrix :: "weight list list \<Rightarrow> (unit, 'v StaticGraph) action" where
  "set_adjacency_matrix a =
     assign (\<lambda>self. self\<lparr>ndarrays := (ndarrays self)(next_ndarray self := a),
                         adjacency_matrix := next_ndarray self,
                         next_ndarray := Suc (next_ndarray self)\<rparr>)"

definition the_matrix :: "'v StaticGraph \<Rightarrow> weight list list" where
  "the_matrix self = ndarrays self (adjacency_matrix self)"

definition the_view :: "'v StaticGraph \<Rightarrow> weight list list" where
  "the_view self = ndarrays self (adjacency_matrix_view self)"

text \<open>The constructor without a source graph.\<close>

definition StaticGraph_init :: "bool \<Rightarrow> 'v list \<Rightarrow> 'v StaticGraph" where
  "StaticGraph_init directed' vertices' =
     \<lparr>vertex_attributes = fold (\<lambda>v va. va(v \<mapsto> [])) vertices' Map.empty,
      edge_attributes = Map.empty,
      directed = directed',
      vertices = vertices',
      ndarrays = (\<lambda>_. [])(0 := np_full (length vertices') (length vertices')),
      next_ndarray = 1,
      adjacency_matrix = 0,
      adjacency_matrix_view = 0\<rparr>"

text \<open>
  Reads and writes go through the view. An index out of the bounds of the view raises
  \<^verbatim>\<open>IndexError\<close> (Cython checks the bounds unless told otherwise, and the module does not
  tell it otherwise).
\<close>

definition s_setitem :: "nat \<Rightarrow> nat \<Rightarrow> weight \<Rightarrow> (unit, 'v StaticGraph) action" where
  "s_setitem u v x = (\<lambda>self.
     case setitem2 (the_view self) u v x of
       Inl e \<Rightarrow> (Inl e, self)
     | Inr m \<Rightarrow> (Inr (), self\<lparr>ndarrays := (ndarrays self)(adjacency_matrix_view self := m)\<rparr>))"

definition s_getitem :: "nat \<Rightarrow> nat \<Rightarrow> (weight, 'v StaticGraph) action" where
  "s_getitem u v = inspect (\<lambda>self. getitem2 (the_view self) u v)"

definition StaticGraph_add_edge ::
  "'v \<Rightarrow> 'v \<Rightarrow> weight \<Rightarrow> (unit, 'v StaticGraph) action" where
  "StaticGraph_add_edge v1 v2 w =
     seq (get_vertex_int v1) (\<lambda>u.
     seq (get_vertex_int v2) (\<lambda>v.
     seq (assign (\<lambda>self. self\<lparr>edge_attributes := (edge_attributes self)((v1, v2) \<mapsto> [])\<rparr>)) (\<lambda>_.
     seq (s_setitem u v w) (\<lambda>_.
     (\<lambda>self. if \<not> directed self then s_setitem v u w self else ret () self)))))"

definition StaticGraph_remove_edge ::
  "'v \<Rightarrow> 'v \<Rightarrow> (string list, 'v StaticGraph) action" where
  "StaticGraph_remove_edge v1 v2 =
     seq (get_vertex_int v1) (\<lambda>u.
     seq (get_vertex_int v2) (\<lambda>v.
     seq (s_getitem u v) (\<lambda>cell.
     if isnan cell then ret [''Attempting to remove edge that doesn't exist.'']
     else
       seq (s_setitem u v NaN) (\<lambda>_.
       seq (\<lambda>self. if \<not> directed self then s_setitem v u NaN self else ret () self) (\<lambda>_.
       ret [])))))"

definition StaticGraph_has_edge :: "'v \<Rightarrow> 'v \<Rightarrow> (bool, 'v StaticGraph) action" where
  "StaticGraph_has_edge v1 v2 = (\<lambda>self.
     case list_index (vertices self) v1 of
       None \<Rightarrow> (Inr False, self)
     | Some u \<Rightarrow>
         (case list_index (vertices self) v2 of
            None \<Rightarrow> (Inr False, self)
          | Some v \<Rightarrow> seq (s_getitem u v) (\<lambda>cell. ret (\<not> isnan cell)) self))"

definition StaticGraph_get_edge_weight ::
  "'v \<Rightarrow> 'v \<Rightarrow> (weight, 'v StaticGraph) action" where
  "StaticGraph_get_edge_weight v1 v2 =
     seq (get_vertex_int v1) (\<lambda>u.
     seq (get_vertex_int v2) (\<lambda>v.
     seq (s_getitem u v) (\<lambda>w.
     if \<not> isnan w then ret w else raise ValueError_no_edge)))"

definition StaticGraph_add_vertex :: "'v \<Rightarrow> (unit, 'v StaticGraph) action" where
  "StaticGraph_add_vertex v = (\<lambda>self0.
     let vertex_number = length (vertices self0) in
     seq (assign (\<lambda>self. self\<lparr>vertex_attributes := (vertex_attributes self)(v \<mapsto> [])\<rparr>)) (\<lambda>_.
     (\<lambda>self.
       if v \<in> set (vertices self) then raise ValueError_already_in_graph self
       else
         seq (assign (\<lambda>self. self\<lparr>vertices := vertices self @ [v]\<rparr>)) (\<lambda>_.
         if vertex_number = 0 then set_adjacency_matrix (np_full 1 1)
         else
           seq (inspect (\<lambda>self. np_append_axis0 (the_matrix self) (np_full 1 vertex_number))) (\<lambda>a.
           seq (set_adjacency_matrix a) (\<lambda>_.
           seq (inspect (\<lambda>self.
                  np_append_axis1 (the_matrix self) (np_full (vertex_number + 1) 1))) (\<lambda>a.
           set_adjacency_matrix a)))) self)) self0)"

text \<open>Both \<^verbatim>\<open>np.delete\<close> calls are made and their results are dropped.\<close>

definition StaticGraph_remove_vertex :: "'v \<Rightarrow> (unit, 'v StaticGraph) action" where
  "StaticGraph_remove_vertex v =
     seq (get_vertex_int v) (\<lambda>u.
     seq (assign (\<lambda>self. self\<lparr>vertices := remove1 v (vertices self)\<rparr>)) (\<lambda>_.
     seq (inspect (\<lambda>self. np_delete_axis1 (the_matrix self) u)) (\<lambda>_.
     seq (inspect (\<lambda>self. np_delete_axis0 (the_matrix self) u)) (\<lambda>_.
     ret ()))))"

definition StaticGraph_get_children :: "'v \<Rightarrow> ('v set, 'v StaticGraph) action" where
  "StaticGraph_get_children v =
     seq (get_vertex_int v) (\<lambda>w.
     inspect (\<lambda>self.
       for_each [0..<length (vertices self)]
         (\<lambda>u children.
            case getitem2 (the_view self) w u of
              Inl e \<Rightarrow> Inl e
            | Inr x \<Rightarrow> if \<not> isnan x then Inr (insert (vertices self ! u) children)
                       else Inr children)
         {}))"

definition StaticGraph_get_parents :: "'v \<Rightarrow> ('v set, 'v StaticGraph) action" where
  "StaticGraph_get_parents v =
     seq (get_vertex_int v) (\<lambda>w.
     inspect (\<lambda>self.
       for_each [0..<length (vertices self)]
         (\<lambda>u parents.
            case getitem2 (the_view self) u w of
              Inl e \<Rightarrow> Inl e
            | Inr x \<Rightarrow> if \<not> isnan x then Inr (insert (vertices self ! u) parents)
                       else Inr parents)
         {}))"

definition StaticGraph_edges :: "'v StaticGraph \<Rightarrow> error + ('v \<times> 'v \<times> weight) list" where
  "StaticGraph_edges self =
     (let n_vertices = length (vertices self) in
      if directed self then
        for_each [0..<n_vertices] (\<lambda>u.
          for_each [0..<n_vertices] (\<lambda>v edges.
            case getitem2 (the_view self) u v of
              Inl e \<Rightarrow> Inl e
            | Inr edge_weight \<Rightarrow>
                if \<not> isnan edge_weight
                then Inr (List.insert (vertices self ! u, vertices self ! v, edge_weight) edges)
                else Inr edges))
          []
      else
        for_each [0..<n_vertices] (\<lambda>u.
          for_each [0..<n_vertices] (\<lambda>v edges.
            case getitem2 (the_view self) u v of
              Inl e \<Rightarrow> Inl e
            | Inr edge_weight \<Rightarrow>
                if \<not> isnan edge_weight
                then (let new_edge = (vertices self ! u, vertices self ! v, edge_weight) in
                      if edge_found edges new_edge then Inr edges
                      else Inr (List.insert new_edge edges))
                else Inr edges))
          [])"

subsection \<open>Either backend; construction from a source graph; copying\<close>

datatype 'v graph = Static "'v StaticGraph" | Dynamic "'v DynamicGraph"

definition base :: "'v graph \<Rightarrow> 'v Graph" where
  "base g = (case g of Static s \<Rightarrow> Graph.truncate s | Dynamic d \<Rightarrow> Graph.truncate d)"

definition edges :: "'v graph \<Rightarrow> error + ('v \<times> 'v \<times> weight) list" where
  "edges g = (case g of Static s \<Rightarrow> StaticGraph_edges s | Dynamic d \<Rightarrow> DynamicGraph_edges d)"

text \<open>
  The constructors with a source graph. \<^verbatim>\<open>Graph.__cinit__\<close> runs first and copies the two
  attribute stores (deeply), \<^verbatim>\<open>directed\<close> and the vertex list. The backend's
  \<^verbatim>\<open>__cinit__\<close> then makes an empty matrix of the source's size and calls
  \<^verbatim>\<open>self.add_edge(edge[0], edge[1])\<close> for each edge of the source, so with the default
  weight 1.0. A raise leaves no object. The source's edge set is walked in the order of
  the list that stands for it.
\<close>

definition StaticGraph_from :: "'v graph \<Rightarrow> error + 'v StaticGraph" where
  "StaticGraph_from src =
     (let size = length (vertices (base src));
          self = \<lparr>vertex_attributes = vertex_attributes (base src),
                  edge_attributes = edge_attributes (base src),
                  directed = directed (base src),
                  vertices = vertices (base src),
                  ndarrays = (\<lambda>_. [])(0 := np_full size size),
                  next_ndarray = 1,
                  adjacency_matrix = 0,
                  adjacency_matrix_view = 0\<rparr>
      in case edges src of
           Inl e \<Rightarrow> Inl e
         | Inr es \<Rightarrow>
             for_each es
               (\<lambda>edge self. case StaticGraph_add_edge (fst edge) (fst (snd edge)) (Num 1) self of
                               (Inl e, _) \<Rightarrow> Inl e
                             | (Inr _, self') \<Rightarrow> Inr self')
               self)"

definition DynamicGraph_from :: "'v graph \<Rightarrow> error + 'v DynamicGraph" where
  "DynamicGraph_from src =
     (let size = length (vertices (base src));
          self = \<lparr>vertex_attributes = vertex_attributes (base src),
                  edge_attributes = edge_attributes (base src),
                  directed = directed (base src),
                  vertices = vertices (base src),
                  adjacency_list = replicate size (replicate size None)\<rparr>
      in case edges src of
           Inl e \<Rightarrow> Inl e
         | Inr es \<Rightarrow>
             for_each es
               (\<lambda>edge self. case DynamicGraph_add_edge (fst edge) (fst (snd edge)) (Num 1) self of
                               (Inl e, _) \<Rightarrow> Inl e
                             | (Inr _, self') \<Rightarrow> Inr self')
               self)"

text \<open>The factory function \<^verbatim>\<open>graph\<close> of the package.\<close>

definition graph :: "bool \<Rightarrow> 'v graph option \<Rightarrow> bool \<Rightarrow> 'v list \<Rightarrow> error + 'v graph" where
  "graph static graph' directed' vertices' =
     (if static
      then (case graph' of
              None \<Rightarrow> Inr (Static (StaticGraph_init directed' vertices'))
            | Some src \<Rightarrow> map_sum id Static (StaticGraph_from src))
      else (case graph' of
              None \<Rightarrow> Inr (Dynamic (DynamicGraph_init directed' vertices'))
            | Some src \<Rightarrow> map_sum id Dynamic (DynamicGraph_from src)))"

text \<open>
  \<^verbatim>\<open>__copy__\<close>. Each edge of \<^verbatim>\<open>self.edges\<close> is a triple \<open>(v1, v2, weight)\<close>; after
  \<^verbatim>\<open>new_graph.add_edge(*edge)\<close> the code looks the triple up in \<^verbatim>\<open>_edge_attributes\<close>,
  whose keys are pairs, which raises \<^verbatim>\<open>KeyError\<close>. For each key of each vertex's
  attributes it calls \<^verbatim>\<open>new_graph.set_vertex_attribtue\<close>, a method that does not exist,
  which raises \<^verbatim>\<open>AttributeError\<close>.
\<close>

definition StaticGraph_copy :: "'v StaticGraph \<Rightarrow> error + 'v StaticGraph" where
  "StaticGraph_copy self =
     (let new_graph = StaticGraph_init (directed self) (vertices self) in
      case StaticGraph_edges self of
        Inl e \<Rightarrow> Inl e
      | Inr es \<Rightarrow>
          (case for_each es
                  (\<lambda>edge new_graph.
                     case StaticGraph_add_edge (fst edge) (fst (snd edge)) (snd (snd edge))
                            new_graph of
                       (Inl e, _) \<Rightarrow> Inl e
                     | (Inr _, _) \<Rightarrow> Inl KeyError)
                  new_graph of
             Inl e \<Rightarrow> Inl e
           | Inr new_graph \<Rightarrow>
               for_each (vertices self)
                 (\<lambda>vertex new_graph.
                    case vertex_attributes self vertex of
                      None \<Rightarrow> Inl KeyError
                    | Some d \<Rightarrow> for_each (map fst d) (\<lambda>key _. Inl AttributeError) new_graph)
                 new_graph))"

definition DynamicGraph_copy :: "'v DynamicGraph \<Rightarrow> error + 'v DynamicGraph" where
  "DynamicGraph_copy self =
     (let new_graph = DynamicGraph_init (directed self) (vertices self) in
      case DynamicGraph_edges self of
        Inl e \<Rightarrow> Inl e
      | Inr es \<Rightarrow>
          (case for_each es
                  (\<lambda>edge new_graph.
                     case DynamicGraph_add_edge (fst edge) (fst (snd edge)) (snd (snd edge))
                            new_graph of
                       (Inl e, _) \<Rightarrow> Inl e
                     | (Inr _, _) \<Rightarrow> Inl KeyError)
                  new_graph of
             Inl e \<Rightarrow> Inl e
           | Inr new_graph \<Rightarrow>
               for_each (vertices self)
                 (\<lambda>vertex new_graph.
                    case vertex_attributes self vertex of
                      None \<Rightarrow> Inl KeyError
                    | Some d \<Rightarrow> for_each (map fst d) (\<lambda>key _. Inl AttributeError) new_graph)
                 new_graph))"

definition copy :: "'v graph \<Rightarrow> error + 'v graph" where
  "copy g = (case g of Static s \<Rightarrow> map_sum id Static (StaticGraph_copy s)
                     | Dynamic d \<Rightarrow> map_sum id Dynamic (DynamicGraph_copy d))"

subsection \<open>The public operations of the contract, on either backend\<close>

datatype 'v operation =
    Add_vertex 'v
  | Remove_vertex 'v
  | Add_edge 'v 'v weight
  | Remove_edge 'v 'v
  | Set_vertex_attribute 'v string string
  | Set_edge_attribute "'v \<times> 'v" string string
  | Has_vertex 'v
  | Has_edge 'v 'v
  | Get_edge_weight 'v 'v
  | Get_children 'v
  | Get_parents 'v
  | Get_vertex_attribute 'v string
  | Get_edge_attribute "'v \<times> 'v" string
  | Get_edges

datatype 'v answer =
    No_value
  | Warnings "string list"
  | Truth bool
  | Weight weight
  | Vertex_set "'v set"
  | Edge_set "('v \<times> 'v \<times> weight) set"
  | Attribute string

definition answered ::
  "('a \<Rightarrow> 'v answer) \<Rightarrow> ('s \<Rightarrow> 'v graph) \<Rightarrow> (error + 'a) \<times> 's \<Rightarrow> (error + 'v answer) \<times> 'v graph"
  where
  "answered f C out = (map_sum id f (fst out), C (snd out))"

fun StaticGraph_run ::
  "'v operation \<Rightarrow> 'v StaticGraph \<Rightarrow> (error + 'v answer) \<times> 'v graph" where
  "StaticGraph_run (Add_vertex v) s = answered (\<lambda>_. No_value) Static (StaticGraph_add_vertex v s)"
| "StaticGraph_run (Remove_vertex v) s =
     answered (\<lambda>_. No_value) Static (StaticGraph_remove_vertex v s)"
| "StaticGraph_run (Add_edge v1 v2 w) s =
     answered (\<lambda>_. No_value) Static (StaticGraph_add_edge v1 v2 w s)"
| "StaticGraph_run (Remove_edge v1 v2) s = answered Warnings Static (StaticGraph_remove_edge v1 v2 s)"
| "StaticGraph_run (Set_vertex_attribute v k x) s =
     answered (\<lambda>_. No_value) Static (set_vertex_attribute v k x s)"
| "StaticGraph_run (Set_edge_attribute e k x) s =
     answered (\<lambda>_. No_value) Static (set_edge_attribute e k x s)"
| "StaticGraph_run (Has_vertex v) s = answered Truth Static (has_vertex v s)"
| "StaticGraph_run (Has_edge v1 v2) s = answered Truth Static (StaticGraph_has_edge v1 v2 s)"
| "StaticGraph_run (Get_edge_weight v1 v2) s =
     answered Weight Static (StaticGraph_get_edge_weight v1 v2 s)"
| "StaticGraph_run (Get_children v) s = answered Vertex_set Static (StaticGraph_get_children v s)"
| "StaticGraph_run (Get_parents v) s = answered Vertex_set Static (StaticGraph_get_parents v s)"
| "StaticGraph_run (Get_vertex_attribute v k) s =
     answered Attribute Static (get_vertex_attribute v k s)"
| "StaticGraph_run (Get_edge_attribute e k) s =
     answered Attribute Static (get_edge_attribute e k s)"
| "StaticGraph_run Get_edges s = answered (\<lambda>es. Edge_set (set es)) Static (StaticGraph_edges s, s)"

fun DynamicGraph_run ::
  "'v operation \<Rightarrow> 'v DynamicGraph \<Rightarrow> (error + 'v answer) \<times> 'v graph" where
  "DynamicGraph_run (Add_vertex v) d =
     answered (\<lambda>_. No_value) Dynamic (DynamicGraph_add_vertex v d)"
| "DynamicGraph_run (Remove_vertex v) d =
     answered (\<lambda>_. No_value) Dynamic (DynamicGraph_remove_vertex v d)"
| "DynamicGraph_run (Add_edge v1 v2 w) d =
     answered (\<lambda>_. No_value) Dynamic (DynamicGraph_add_edge v1 v2 w d)"
| "DynamicGraph_run (Remove_edge v1 v2) d =
     answered Warnings Dynamic (DynamicGraph_remove_edge v1 v2 d)"
| "DynamicGraph_run (Set_vertex_attribute v k x) d =
     answered (\<lambda>_. No_value) Dynamic (set_vertex_attribute v k x d)"
| "DynamicGraph_run (Set_edge_attribute e k x) d =
     answered (\<lambda>_. No_value) Dynamic (set_edge_attribute e k x d)"
| "DynamicGraph_run (Has_vertex v) d = answered Truth Dynamic (has_vertex v d)"
| "DynamicGraph_run (Has_edge v1 v2) d = answered Truth Dynamic (DynamicGraph_has_edge v1 v2 d)"
| "DynamicGraph_run (Get_edge_weight v1 v2) d =
     answered Weight Dynamic (DynamicGraph_get_edge_weight v1 v2 d)"
| "DynamicGraph_run (Get_children v) d =
     answered Vertex_set Dynamic (DynamicGraph_get_children v d)"
| "DynamicGraph_run (Get_parents v) d = answered Vertex_set Dynamic (DynamicGraph_get_parents v d)"
| "DynamicGraph_run (Get_vertex_attribute v k) d =
     answered Attribute Dynamic (get_vertex_attribute v k d)"
| "DynamicGraph_run (Get_edge_attribute e k) d =
     answered Attribute Dynamic (get_edge_attribute e k d)"
| "DynamicGraph_run Get_edges d =
     answered (\<lambda>es. Edge_set (set es)) Dynamic (DynamicGraph_edges d, d)"

definition run :: "'v operation \<Rightarrow> 'v graph \<Rightarrow> (error + 'v answer) \<times> 'v graph" where
  "run op g = (case g of Static s \<Rightarrow> StaticGraph_run op s | Dynamic d \<Rightarrow> DynamicGraph_run op d)"

text \<open>The answers of a sequence of operations, each applied to the state the last one left.\<close>

fun run_all :: "'v operation list \<Rightarrow> 'v graph \<Rightarrow> (error + 'v answer) list \<times> 'v graph" where
  "run_all [] g = ([], g)"
| "run_all (op # ops) g =
     (case run op g of (r, g') \<Rightarrow> (case run_all ops g' of (rs, g'') \<Rightarrow> (r # rs, g'')))"

text \<open>
  The graphs a caller can have reached through the constructors and the methods: made by a
  constructor (with or without a source graph), by \<^verbatim>\<open>__copy__\<close>, and whatever a public
  operation leaves behind, whether it returned or raised.
\<close>

inductive reachable :: "'v graph \<Rightarrow> bool" where
  init_static: "reachable (Static (StaticGraph_init directed' vertices'))"
| init_dynamic: "reachable (Dynamic (DynamicGraph_init directed' vertices'))"
| from_static: "reachable src \<Longrightarrow> StaticGraph_from src = Inr s \<Longrightarrow> reachable (Static s)"
| from_dynamic: "reachable src \<Longrightarrow> DynamicGraph_from src = Inr d \<Longrightarrow> reachable (Dynamic d)"
| copied: "reachable g \<Longrightarrow> copy g = Inr g' \<Longrightarrow> reachable g'"
| step: "reachable g \<Longrightarrow> reachable (snd (run op g))"

subsection \<open>Notions the properties are stated and proved with\<close>

text \<open>A nested list of \<open>n\<close> rows of \<open>n\<close> cells each.\<close>

definition square :: "nat \<Rightarrow> 'a list list \<Rightarrow> bool" where
  "square n m = (length m = n \<and> (\<forall>row \<in> set m. length row = n))"

text \<open>
  Reading \<open>(u, v)\<close> and reading \<open>(v, u)\<close> give the same result, be it a cell or an
  \<^verbatim>\<open>IndexError\<close>.
\<close>

definition symmetric :: "'a list list \<Rightarrow> bool" where
  "symmetric m = (\<forall>u v. getitem2 m u v = getitem2 m v u)"

text \<open>
  What holds of every DynamicGraph a caller can have reached: the rows form a square as
  long as the vertex list, symmetric if the graph is undirected.
\<close>

definition dynamic_inv :: "'v DynamicGraph \<Rightarrow> bool" where
  "dynamic_inv d =
     (square (length (vertices d)) (adjacency_list d)
      \<and> (\<not> directed d \<longrightarrow> symmetric (adjacency_list d)))"

text \<open>The rows without row \<open>u\<close> and without cell \<open>u\<close> of every other row.\<close>

definition shrunk :: "nat \<Rightarrow> 'a list list \<Rightarrow> 'a list list" where
  "shrunk u m = map (delete_at u) (delete_at u m)"

text \<open>The rows with one more empty cell each and one more empty row.\<close>

definition grown :: "'a option list list \<Rightarrow> 'a option list list" where
  "grown m = map (\<lambda>row. row @ [None]) m @ [replicate (length m + 1) None]"

text \<open>
  What holds of the view of every StaticGraph a caller can have reached: it is an array
  that exists, symmetric if the graph is undirected.
\<close>

definition static_inv :: "'v StaticGraph \<Rightarrow> bool" where
  "static_inv s =
     (adjacency_matrix_view s < next_ndarray s
      \<and> (\<not> directed s \<longrightarrow> symmetric (the_view s)))"

text \<open>
  What holds of \<^verbatim>\<open>_adjacency_matrix\<close> of every StaticGraph a caller can have reached: it
  is a square array with at least as many rows as there are vertices.
\<close>

definition matrix_inv :: "'v StaticGraph \<Rightarrow> bool" where
  "matrix_inv s =
     (adjacency_matrix s < next_ndarray s
      \<and> (\<exists>k. square k (the_matrix s) \<and> length (vertices s) \<le> k))"

text \<open>The invariant of a graph of either backend.\<close>

definition graph_inv :: "'v graph \<Rightarrow> bool" where
  "graph_inv g =
     ((case g of Static s \<Rightarrow> static_inv s \<and> matrix_inv s | Dynamic d \<Rightarrow> dynamic_inv d)
      \<and> set (vertices (base g)) \<subseteq> dom (vertex_attributes (base g)))"

text \<open>
  The undirected branch of \<^verbatim>\<open>edges\<close> seen apart from the backend: \<open>rd u v\<close> is the weight
  of cell \<open>(u, v)\<close> if it holds an edge. \<open>scan_step\<close> is the body of the inner loop and
  \<open>scan\<close> the two loops.
\<close>

definition scan_step ::
  "'v list \<Rightarrow> (nat \<Rightarrow> nat \<Rightarrow> weight option) \<Rightarrow> nat \<Rightarrow> nat
   \<Rightarrow> ('v \<times> 'v \<times> weight) list \<Rightarrow> ('v \<times> 'v \<times> weight) list" where
  "scan_step vs rd u v acc =
     (case rd u v of
        None \<Rightarrow> acc
      | Some w \<Rightarrow> if edge_found acc (vs ! u, vs ! v, w) then acc
                  else List.insert (vs ! u, vs ! v, w) acc)"

definition scan :: "'v list \<Rightarrow> (nat \<Rightarrow> nat \<Rightarrow> weight option) \<Rightarrow> ('v \<times> 'v \<times> weight) list" where
  "scan vs rd =
     fold (\<lambda>u. fold (\<lambda>v. scan_step vs rd u v) [0..<length vs]) [0..<length vs] []"

text \<open>
  The triples of the cells on or above the diagonal that lie before cell \<open>(u, v)\<close> in the
  order of the loops.
\<close>

definition upper ::
  "'v list \<Rightarrow> (nat \<Rightarrow> nat \<Rightarrow> weight option) \<Rightarrow> nat \<Rightarrow> nat \<Rightarrow> ('v \<times> 'v \<times> weight) set" where
  "upper vs rd u v =
     {(vs ! i, vs ! j, w) | i j w.
        (i < u \<or> (i = u \<and> j < v)) \<and> i \<le> j \<and> j < length vs \<and> rd i j = Some w}"

text \<open>
  The cells that hold an edge are symmetric and sit at positions that are the first
  position of their vertex.
\<close>

definition labelled :: "'v list \<Rightarrow> (nat \<Rightarrow> nat \<Rightarrow> weight option) \<Rightarrow> bool" where
  "labelled vs rd =
     (\<forall>i j. rd i j \<noteq> None \<longrightarrow>
        rd j i = rd i j \<and> i < length vs \<and> j < length vs
        \<and> list_index vs (vs ! i) = Some i \<and> list_index vs (vs ! j) = Some j)"

text \<open>The edge weight a cell holds, if any, on either backend.\<close>

definition dynamic_cell :: "weight option list list \<Rightarrow> nat \<Rightarrow> nat \<Rightarrow> weight option" where
  "dynamic_cell m u v = (case getitem2 m u v of Inr (Some w) \<Rightarrow> Some w | _ \<Rightarrow> None)"

definition static_cell :: "weight list list \<Rightarrow> nat \<Rightarrow> nat \<Rightarrow> weight option" where
  "static_cell m u v =
     (case getitem2 m u v of Inr x \<Rightarrow> if isnan x then None else Some x | Inl _ \<Rightarrow> None)"

text \<open>The cells after an undirected edge between positions \<open>i\<close> and \<open>j\<close> is written.\<close>

definition put_edge ::
  "nat \<Rightarrow> nat \<Rightarrow> weight \<Rightarrow> (nat \<Rightarrow> nat \<Rightarrow> weight option) \<Rightarrow> nat \<Rightarrow> nat \<Rightarrow> weight option" where
  "put_edge i j w rd = (\<lambda>a b. if (a = i \<and> b = j) \<or> (a = j \<and> b = i) then Some w else rd a b)"

text \<open>A list of calls \<^verbatim>\<open>add_edge(a, b, w)\<close>, given as triples.\<close>

definition add_edge_calls :: "('v \<times> 'v \<times> weight) list \<Rightarrow> 'v operation list" where
  "add_edge_calls es = map (\<lambda>(a, b, w). Add_edge a b w) es"

text \<open>No vertex of one call is a vertex of another call.\<close>

fun disjoint_pairs :: "('v \<times> 'v \<times> 'w) list \<Rightarrow> bool" where
  "disjoint_pairs [] = True"
| "disjoint_pairs ((a, b, w) # es) =
     (list_all (\<lambda>(a', b', w'). a' \<noteq> a \<and> a' \<noteq> b \<and> b' \<noteq> a \<and> b' \<noteq> b) es \<and> disjoint_pairs es)"

text \<open>The cells after the calls, from the cells before them.\<close>

fun cells_after ::
  "'v list \<Rightarrow> ('v \<times> 'v \<times> weight) list \<Rightarrow> (nat \<Rightarrow> nat \<Rightarrow> weight option)
   \<Rightarrow> nat \<Rightarrow> nat \<Rightarrow> weight option" where
  "cells_after vs [] rd = rd"
| "cells_after vs ((a, b, w) # es) rd =
     cells_after vs es (put_edge (the (list_index vs a)) (the (list_index vs b)) w rd)"

text \<open>The triple that \<^verbatim>\<open>edges\<close> holds for a call: the one on or above the diagonal.\<close>

definition emitted :: "'v list \<Rightarrow> 'v \<times> 'v \<times> weight \<Rightarrow> 'v \<times> 'v \<times> weight" where
  "emitted vs e =
     (case e of (a, b, w) \<Rightarrow>
        if the (list_index vs a) \<le> the (list_index vs b) then (a, b, w) else (b, a, w))"

subsection \<open>Example graphs\<close>

text \<open>
  The undirected StaticGraph with the vertices 1, 2, 3 after \<^verbatim>\<open>add_vertex(4)\<close>.
\<close>

definition stale_static :: "nat graph" where
  "stale_static = snd (run (Add_vertex 4) (Static (StaticGraph_init False [1, 2, 3])))"

text \<open>An undirected DynamicGraph with the one edge \<open>(1, 2)\<close> of weight 5.\<close>

definition undirected_pair :: "nat graph" where
  "undirected_pair =
     snd (run (Add_edge 1 2 (Num 5)) (Dynamic (DynamicGraph_init False [1, 2])))"

text \<open>Two vertices and no edge, on either backend.\<close>

definition static_pair :: "nat graph" where
  "static_pair = Static (StaticGraph_init False [1, 2])"

definition dynamic_pair :: "nat graph" where
  "dynamic_pair = Dynamic (DynamicGraph_init False [1, 2])"

text \<open>
  Four vertices and the undirected edges \<open>(1, 2)\<close>, \<open>(2, 3)\<close>, \<open>(3, 1)\<close> of weight 1, on
  either backend.
\<close>

definition triangle_dynamic :: "nat graph" where
  "triangle_dynamic =
     snd (run_all [Add_edge 1 2 (Num 1), Add_edge 2 3 (Num 1), Add_edge 3 1 (Num 1)]
            (Dynamic (DynamicGraph_init False [1, 2, 3, 4])))"

definition triangle_static :: "nat graph" where
  "triangle_static =
     snd (run_all [Add_edge 1 2 (Num 1), Add_edge 2 3 (Num 1), Add_edge 3 1 (Num 1)]
            (Static (StaticGraph_init False [1, 2, 3, 4])))"

text \<open>Two calls on disjoint pairs.\<close>

definition two_calls :: "(nat \<times> nat \<times> weight) list" where
  "two_calls = [(1, 2, Num 1), (4, 3, Num 2)]"

section \<open>Properties\<close>

lemmas method_defs = ret_def raise_def seq_def assign_def inspect_def

subsection \<open>Positions in lists and cells of nested lists\<close>

lemma list_index_None: "list_index xs x = None \<longleftrightarrow> x \<notin> set xs"
  by (induction xs) auto

lemma list_index_Some: "list_index xs x = Some i \<Longrightarrow> i < length xs \<and> xs ! i = x"
  by (induction xs arbitrary: i) (auto split: if_splits)

lemma list_index_inj: "list_index xs x = Some i \<Longrightarrow> list_index xs y = Some i \<Longrightarrow> x = y"
  by (metis list_index_Some)

lemma list_index_mem: "x \<in> set xs \<Longrightarrow> \<exists>i. list_index xs x = Some i"
  using list_index_None [of xs x] by (cases "list_index xs x") auto

lemma list_index_append_new:
  "x \<notin> set xs \<Longrightarrow> list_index (xs @ [x]) y = (if y = x then Some (length xs) else list_index xs y)"
  by (induction xs) (auto simp: option.map_comp comp_def)

lemma list_index_append_old:
  "list_index xs y = Some i \<Longrightarrow> list_index (xs @ zs) y = Some i"
  by (induction xs arbitrary: i) (auto split: if_splits)

lemma square_getitem2:
  "square n m \<Longrightarrow> getitem2 m u v = (if u < n \<and> v < n then Inr (m ! u ! v) else Inl IndexError)"
  by (auto simp: square_def getitem2_def)

lemma square_setitem2:
  "square n m \<Longrightarrow>
   setitem2 m u v x = (if u < n \<and> v < n then Inr (m[u := (m ! u)[v := x]]) else Inl IndexError)"
  by (auto simp: square_def setitem2_def)

lemma setitem2_square: "setitem2 m u v x = Inr m' \<Longrightarrow> square n m \<Longrightarrow> square n m'"
  by (auto simp: square_def setitem2_def split: if_splits dest!: set_update_subset_insert [THEN subsetD])

lemma getitem2_setitem2:
  "setitem2 m u v x = Inr m' \<Longrightarrow>
   getitem2 m' a b = (if a = u \<and> b = v then Inr x else getitem2 m a b)"
  by (auto simp: setitem2_def getitem2_def nth_list_update split: if_splits)

subsection \<open>DynamicGraph: adding and removing edges keeps the rows square and symmetric\<close>

lemma symmetricD: "symmetric m \<Longrightarrow> getitem2 m u v = getitem2 m v u"
  unfolding symmetric_def by blast

lemma symmetric_setitem2_twice:
  assumes "symmetric m" "setitem2 m u v x = Inr m1" "setitem2 m1 v u x = Inr m2"
  shows "symmetric m2"
proof -
  have "getitem2 m2 a b = getitem2 m2 b a" for a b
    apply (subst getitem2_setitem2 [OF assms(3)])
    apply (subst getitem2_setitem2 [OF assms(3)])
    apply (subst getitem2_setitem2 [OF assms(2)])
    apply (subst getitem2_setitem2 [OF assms(2)])
    using symmetricD [OF assms(1), of a b]
    apply (cases "a = u"; cases "b = v"; cases "a = v"; cases "b = u"; simp)
    done
  then show ?thesis unfolding symmetric_def by blast
qed

lemma setitem2_in_range: "square n m \<Longrightarrow> u < n \<Longrightarrow> v < n \<Longrightarrow> \<exists>m'. setitem2 m u v x = Inr m'"
  by (simp add: square_setitem2)

lemma d_write_pair:
  assumes "dynamic_inv d" "u < length (vertices d)" "v < length (vertices d)"
  shows "\<exists>m1 m2. setitem2 (adjacency_list d) u v x = Inr m1 \<and> setitem2 m1 v u x = Inr m2
           \<and> square (length (vertices d)) m1 \<and> square (length (vertices d)) m2
           \<and> (symmetric (adjacency_list d) \<longrightarrow> symmetric m2)"
proof -
  let ?n = "length (vertices d)"
  have sq: "square ?n (adjacency_list d)" using assms(1) by (simp add: dynamic_inv_def)
  obtain m1 where m1: "setitem2 (adjacency_list d) u v x = Inr m1"
    using setitem2_in_range [OF sq assms(2,3)] by blast
  have sq1: "square ?n m1" by (rule setitem2_square [OF m1 sq])
  obtain m2 where m2: "setitem2 m1 v u x = Inr m2"
    using setitem2_in_range [OF sq1 assms(3,2)] by blast
  have sq2: "square ?n m2" by (rule setitem2_square [OF m2 sq1])
  show ?thesis using m1 m2 sq1 sq2 symmetric_setitem2_twice [OF _ m1 m2] by blast
qed

lemma DynamicGraph_add_edge_inv:
  assumes "dynamic_inv d"
  shows "dynamic_inv (snd (DynamicGraph_add_edge v1 v2 w d))"
proof (cases "list_index (vertices d) v1")
  case None
  then show ?thesis using assms
    by (simp add: DynamicGraph_add_edge_def get_vertex_int_def method_defs)
next
  case u: (Some u)
  show ?thesis
  proof (cases "list_index (vertices d) v2")
    case None
    then show ?thesis using assms u
      by (simp add: DynamicGraph_add_edge_def get_vertex_int_def method_defs)
  next
    case v: (Some v)
    obtain m1 m2 where w: "setitem2 (adjacency_list d) u v (Some w) = Inr m1"
        "setitem2 m1 v u (Some w) = Inr m2"
        "square (length (vertices d)) m1" "square (length (vertices d)) m2"
        "symmetric (adjacency_list d) \<longrightarrow> symmetric m2"
      using d_write_pair [OF assms, of u v "Some w"] list_index_Some [OF u] list_index_Some [OF v]
      by blast
    show ?thesis using assms u v w
      by (simp add: DynamicGraph_add_edge_def get_vertex_int_def method_defs d_setitem_def
            dynamic_inv_def)
  qed
qed

lemma DynamicGraph_remove_edge_inv:
  assumes "dynamic_inv d"
  shows "dynamic_inv (snd (DynamicGraph_remove_edge v1 v2 d))"
proof (cases "list_index (vertices d) v1")
  case None
  then show ?thesis using assms
    by (simp add: DynamicGraph_remove_edge_def get_vertex_int_def method_defs)
next
  case u: (Some u)
  show ?thesis
  proof (cases "list_index (vertices d) v2")
    case None
    then show ?thesis using assms u
      by (simp add: DynamicGraph_remove_edge_def get_vertex_int_def method_defs)
  next
    case v: (Some v)
    obtain m1 m2 where w: "setitem2 (adjacency_list d) u v None = Inr m1"
        "setitem2 m1 v u None = Inr m2"
        "square (length (vertices d)) m1" "square (length (vertices d)) m2"
        "symmetric (adjacency_list d) \<longrightarrow> symmetric m2"
      using d_write_pair [OF assms, of u v None] list_index_Some [OF u] list_index_Some [OF v]
      by blast
    show ?thesis using assms u v w
      by (auto simp add: DynamicGraph_remove_edge_def get_vertex_int_def method_defs d_setitem_def
            d_getitem_def dynamic_inv_def split: sum.splits)
  qed
qed

subsection \<open>DynamicGraph: adding and removing vertices\<close>

lemma length_delete_at: "u < length xs \<Longrightarrow> length (delete_at u xs) = length xs - 1"
  by (simp add: delete_at_def)

lemma nth_delete_at:
  "u < length xs \<Longrightarrow> i < length xs - 1 \<Longrightarrow>
   delete_at u xs ! i = xs ! (if i < u then i else Suc i)"
  by (auto simp: delete_at_def nth_append min_def)

lemma set_delete_at: "set (delete_at u xs) \<subseteq> set xs"
  by (auto simp: delete_at_def dest: in_set_takeD in_set_dropD)

lemma pop_each_ok:
  "\<forall>row \<in> set rows. u < length row \<Longrightarrow> pop_each u rows = (Inr (), map (delete_at u) rows)"
  by (induction rows) auto

lemma square_shrunk: "square n m \<Longrightarrow> u < n \<Longrightarrow> square (n - 1) (shrunk u m)"
  using set_delete_at [of u m]
  by (auto simp: square_def shrunk_def length_delete_at)

lemma getitem2_shrunk:
  assumes "square n m" "u < n"
  shows "getitem2 (shrunk u m) a b =
    (if a < n - 1 \<and> b < n - 1
     then getitem2 m (if a < u then a else Suc a) (if b < u then b else Suc b)
     else Inl IndexError)"
proof (cases "a < n - 1 \<and> b < n - 1")
  case False
  then show ?thesis using square_getitem2 [OF square_shrunk [OF assms]] by auto
next
  case True
  let ?a = "if a < u then a else Suc a" and ?b = "if b < u then b else Suc b"
  have len: "length m = n" and rows: "\<And>i. i < n \<Longrightarrow> length (m ! i) = n"
    using assms(1) by (auto simp: square_def)
  have a': "?a < n" and b': "?b < n" using True by auto
  have "shrunk u m ! a = delete_at u (m ! ?a)"
    using True assms(2) len by (simp add: shrunk_def length_delete_at nth_delete_at)
  moreover have "delete_at u (m ! ?a) ! b = m ! ?a ! ?b"
    using True assms(2) rows [OF a'] by (simp add: nth_delete_at)
  ultimately have "shrunk u m ! a ! b = m ! ?a ! ?b" by simp
  then show ?thesis
    using True a' b' square_getitem2 [OF square_shrunk [OF assms]] square_getitem2 [OF assms(1)]
    by simp
qed

lemma symmetric_shrunk:
  assumes "square n m" "u < n" "symmetric m"
  shows "symmetric (shrunk u m)"
  unfolding symmetric_def
  using symmetricD [OF assms(3)] by (auto simp: getitem2_shrunk [OF assms(1,2)])

lemma square_grown: "square n m \<Longrightarrow> square (Suc n) (grown m)"
  by (auto simp: square_def grown_def)

lemma getitem2_grown:
  assumes "square n m"
  shows "getitem2 (grown m) a b =
    (if a < n \<and> b < n then getitem2 m a b
     else if a \<le> n \<and> b \<le> n then Inr None else Inl IndexError)"
proof -
  have len: "length m = n" and rows: "\<And>i. i < n \<Longrightarrow> length (m ! i) = n"
    using assms(1) by (auto simp: square_def)
  have "a \<le> n \<Longrightarrow> b \<le> n \<Longrightarrow> grown m ! a ! b = (if a < n \<and> b < n then m ! a ! b else None)"
    using len rows by (auto simp: grown_def nth_append nth_Cons')
  then show ?thesis
    using square_getitem2 [OF square_grown [OF assms]] square_getitem2 [OF assms]
    by auto
qed

lemma symmetric_grown:
  assumes "square n m" "symmetric m"
  shows "symmetric (grown m)"
  unfolding symmetric_def
  using symmetricD [OF assms(2)] by (auto simp: getitem2_grown [OF assms(1)])

lemma DynamicGraph_add_vertex_unfold:
  "DynamicGraph_add_vertex v d =
     (if v \<in> set (vertices d)
      then (Inl ValueError_already_in_graph,
            d\<lparr>vertex_attributes := (vertex_attributes d)(v \<mapsto> [])\<rparr>)
      else (Inr (), d\<lparr>vertex_attributes := (vertex_attributes d)(v \<mapsto> []),
                      vertices := vertices d @ [v],
                      adjacency_list := grown (adjacency_list d)\<rparr>))"
  if "length (adjacency_list d) = length (vertices d)"
  using that by (simp add: DynamicGraph_add_vertex_def method_defs grown_def Let_def)

lemma DynamicGraph_add_vertex_inv:
  assumes "dynamic_inv d"
  shows "dynamic_inv (snd (DynamicGraph_add_vertex v d))"
proof -
  have sq: "square (length (vertices d)) (adjacency_list d)"
    using assms by (simp add: dynamic_inv_def)
  then have len: "length (adjacency_list d) = length (vertices d)" by (simp add: square_def)
  show ?thesis
    using assms square_grown [OF sq] symmetric_grown [OF sq]
    by (simp add: DynamicGraph_add_vertex_unfold [OF len] dynamic_inv_def)
qed

lemma DynamicGraph_remove_vertex_unfold:
  assumes "square (length (vertices d)) (adjacency_list d)"
  shows "DynamicGraph_remove_vertex v d =
     (case list_index (vertices d) v of
        None \<Rightarrow> (Inl ValueError_vertex_not_in_graph, d)
      | Some u \<Rightarrow> (Inr (), d\<lparr>vertices := remove1 v (vertices d),
                              adjacency_list := shrunk u (adjacency_list d)\<rparr>))"
proof (cases "list_index (vertices d) v")
  case None
  then show ?thesis
    by (simp add: DynamicGraph_remove_vertex_def get_vertex_int_def method_defs)
next
  case (Some u)
  have u: "u < length (vertices d)" using list_index_Some [OF Some] by simp
  have len: "length (adjacency_list d) = length (vertices d)"
    and rows: "\<forall>row \<in> set (adjacency_list d). length row = length (vertices d)"
    using assms by (auto simp: square_def)
  have "\<forall>row \<in> set (delete_at u (adjacency_list d)). u < length row"
    using rows u set_delete_at [of u "adjacency_list d"] by auto
  then show ?thesis using Some u len
    by (simp add: DynamicGraph_remove_vertex_def get_vertex_int_def method_defs pop_each_ok
          shrunk_def)
qed

lemma length_remove1_index:
  "list_index xs x = Some u \<Longrightarrow> length (remove1 x xs) = length xs - 1"
  using list_index_None [of xs x] by (simp add: length_remove1)

lemma DynamicGraph_remove_vertex_inv:
  assumes "dynamic_inv d"
  shows "dynamic_inv (snd (DynamicGraph_remove_vertex v d))"
proof -
  have sq: "square (length (vertices d)) (adjacency_list d)"
    using assms by (simp add: dynamic_inv_def)
  show ?thesis
  proof (cases "list_index (vertices d) v")
    case None
    then show ?thesis using assms by (simp add: DynamicGraph_remove_vertex_unfold [OF sq])
  next
    case (Some u)
    have u: "u < length (vertices d)" using list_index_Some [OF Some] by simp
    show ?thesis
      using assms Some square_shrunk [OF sq u] symmetric_shrunk [OF sq u]
      by (simp add: DynamicGraph_remove_vertex_unfold [OF sq] dynamic_inv_def
            length_remove1_index [OF Some])
  qed
qed

subsection \<open>StaticGraph: the view\<close>

lemma symmetric_setitem2_second:
  assumes s: "symmetric m" and w: "setitem2 m u v x = Inr m1"
  shows "\<exists>m2. setitem2 m1 v u x = Inr m2"
proof -
  have "getitem2 m u v \<noteq> Inl IndexError"
    using w by (auto simp: setitem2_def getitem2_def split: if_splits)
  then have "getitem2 m v u \<noteq> Inl IndexError" using symmetricD [OF s, of u v] by simp
  then have "getitem2 m1 v u \<noteq> Inl IndexError"
    by (simp add: getitem2_setitem2 [OF w])
  then show ?thesis by (auto simp: setitem2_def getitem2_def split: if_splits)
qed

lemma s_write_pair:
  assumes "symmetric m" "setitem2 m u v x = Inr m1"
  shows "\<exists>m2. setitem2 m1 v u x = Inr m2 \<and> symmetric m2"
  using symmetric_setitem2_second [OF assms] symmetric_setitem2_twice [OF assms] by blast

lemma StaticGraph_add_edge_inv:
  assumes "static_inv s"
  shows "static_inv (snd (StaticGraph_add_edge v1 v2 w s))"
proof (cases "list_index (vertices s) v1")
  case None
  then show ?thesis using assms
    by (simp add: StaticGraph_add_edge_def get_vertex_int_def method_defs)
next
  case u: (Some u)
  show ?thesis
  proof (cases "list_index (vertices s) v2")
    case None
    then show ?thesis using assms u
      by (simp add: StaticGraph_add_edge_def get_vertex_int_def method_defs)
  next
    case v: (Some v)
    show ?thesis
    proof (cases "setitem2 (the_view s) u v w")
      case (Inl e)
      then show ?thesis using assms u v
        by (simp add: StaticGraph_add_edge_def get_vertex_int_def method_defs s_setitem_def
              the_view_def static_inv_def)
    next
      case (Inr m1)
      show ?thesis
      proof (cases "directed s")
        case True
        then show ?thesis using assms u v Inr
          by (simp add: StaticGraph_add_edge_def get_vertex_int_def method_defs s_setitem_def
                the_view_def static_inv_def)
      next
        case False
        then obtain m2 where "setitem2 m1 v u w = Inr m2" "symmetric m2"
          using s_write_pair [OF _ Inr] assms by (auto simp: static_inv_def)
        then show ?thesis using assms u v Inr False
          by (simp add: StaticGraph_add_edge_def get_vertex_int_def method_defs s_setitem_def
                the_view_def static_inv_def)
      qed
    qed
  qed
qed

lemma setitem2_getitem2_defined:
  "getitem2 m u v = Inr y \<Longrightarrow> \<exists>m1. setitem2 m u v x = Inr m1"
  by (auto simp: setitem2_def getitem2_def split: if_splits)

lemma StaticGraph_remove_edge_inv:
  assumes "static_inv s"
  shows "static_inv (snd (StaticGraph_remove_edge v1 v2 s))"
proof (cases "list_index (vertices s) v1")
  case None
  then show ?thesis using assms
    by (simp add: StaticGraph_remove_edge_def get_vertex_int_def method_defs)
next
  case u: (Some u)
  show ?thesis
  proof (cases "list_index (vertices s) v2")
    case None
    then show ?thesis using assms u
      by (simp add: StaticGraph_remove_edge_def get_vertex_int_def method_defs)
  next
    case v: (Some v)
    show ?thesis
    proof (cases "getitem2 (the_view s) u v")
      case (Inl e)
      then show ?thesis using assms u v
        by (simp add: StaticGraph_remove_edge_def get_vertex_int_def method_defs s_getitem_def)
    next
      case (Inr cell)
      obtain m1 where m1: "setitem2 (the_view s) u v NaN = Inr m1"
        using setitem2_getitem2_defined [OF Inr] by blast
      show ?thesis
      proof (cases "directed s")
        case True
        then show ?thesis using assms u v Inr m1
          by (simp add: StaticGraph_remove_edge_def get_vertex_int_def method_defs s_setitem_def
                s_getitem_def the_view_def static_inv_def)
      next
        case False
        then obtain m2 where "setitem2 m1 v u NaN = Inr m2" "symmetric m2"
          using s_write_pair [OF _ m1] assms by (auto simp: static_inv_def)
        then show ?thesis using assms u v Inr m1 False
          by (simp add: StaticGraph_remove_edge_def get_vertex_int_def method_defs s_setitem_def
                s_getitem_def the_view_def static_inv_def)
      qed
    qed
  qed
qed

lemma StaticGraph_add_vertex_view:
  assumes "adjacency_matrix_view s < next_ndarray s"
  shows "the_view (snd (StaticGraph_add_vertex v s)) = the_view s
       \<and> adjacency_matrix_view (snd (StaticGraph_add_vertex v s)) = adjacency_matrix_view s
       \<and> next_ndarray s \<le> next_ndarray (snd (StaticGraph_add_vertex v s))
       \<and> directed (snd (StaticGraph_add_vertex v s)) = directed s
       \<and> edge_attributes (snd (StaticGraph_add_vertex v s)) = edge_attributes s"
  using assms
  by (auto simp: StaticGraph_add_vertex_def method_defs set_adjacency_matrix_def the_view_def
        the_matrix_def Let_def split: sum.splits)

lemma StaticGraph_add_vertex_inv:
  assumes "static_inv s"
  shows "static_inv (snd (StaticGraph_add_vertex v s))"
  using assms StaticGraph_add_vertex_view [of s v] by (auto simp: static_inv_def)

lemma StaticGraph_remove_vertex_unfold:
  "snd (StaticGraph_remove_vertex v s) =
     (case list_index (vertices s) v of None \<Rightarrow> s
      | Some u \<Rightarrow> s\<lparr>vertices := remove1 v (vertices s)\<rparr>)"
  by (auto simp: StaticGraph_remove_vertex_def get_vertex_int_def method_defs the_matrix_def
        split: option.splits sum.splits)

lemma StaticGraph_remove_vertex_inv:
  assumes "static_inv s"
  shows "static_inv (snd (StaticGraph_remove_vertex v s))"
  using assms
  by (auto simp: StaticGraph_remove_vertex_unfold static_inv_def the_view_def split: option.splits)

subsection \<open>What each call leaves unchanged\<close>

lemma base_simps:
  "vertices (base (Static s)) = vertices s"
  "vertices (base (Dynamic d)) = vertices d"
  "vertex_attributes (base (Static s)) = vertex_attributes s"
  "vertex_attributes (base (Dynamic d)) = vertex_attributes d"
  "edge_attributes (base (Static s)) = edge_attributes s"
  "edge_attributes (base (Dynamic d)) = edge_attributes d"
  "directed (base (Static s)) = directed s"
  "directed (base (Dynamic d)) = directed d"
  by (simp_all add: base_def Graph.truncate_def)

lemma answered_simps:
  "fst (answered f C out) = map_sum id f (fst out)"
  "snd (answered f C out) = C (snd out)"
  by (simp_all add: answered_def)

text \<open>What each method does to the fields of the base class.\<close>

lemma query_state:
  "snd (has_vertex v g) = g"
  "snd (get_vertex_attribute v k g) = g"
  "snd (get_edge_attribute e k g) = g"
  "snd (get_vertex_int v g) = g"
  by (auto simp: has_vertex_def get_vertex_attribute_def get_edge_attribute_def get_vertex_int_def
        method_defs split: option.splits sum.splits)

lemma StaticGraph_query_state:
  "snd (StaticGraph_has_edge v1 v2 s) = s"
  "snd (StaticGraph_get_edge_weight v1 v2 s) = s"
  "snd (StaticGraph_get_children v s) = s"
  "snd (StaticGraph_get_parents v s) = s"
  by (auto simp: StaticGraph_has_edge_def StaticGraph_get_edge_weight_def
        StaticGraph_get_children_def StaticGraph_get_parents_def get_vertex_int_def s_getitem_def
        method_defs split: option.splits sum.splits)

lemma DynamicGraph_query_state:
  "snd (DynamicGraph_has_edge v1 v2 d) = d"
  "snd (DynamicGraph_get_edge_weight v1 v2 d) = d"
  "snd (DynamicGraph_get_children v d) = d"
  "snd (DynamicGraph_get_parents v d) = d"
  by (auto simp: DynamicGraph_has_edge_def DynamicGraph_get_edge_weight_def
        DynamicGraph_get_children_def DynamicGraph_get_parents_def get_vertex_int_def d_getitem_def
        method_defs split: option.splits sum.splits)

lemma set_vertex_attribute_frame:
  "vertices (snd (set_vertex_attribute v k x g)) = vertices g"
  "dom (vertex_attributes (snd (set_vertex_attribute v k x g))) = dom (vertex_attributes g)"
  "edge_attributes (snd (set_vertex_attribute v k x g)) = edge_attributes g"
  "directed (snd (set_vertex_attribute v k x g)) = directed g"
  "Graph.more (snd (set_vertex_attribute v k x g)) = Graph.more g"
  by (auto simp: set_vertex_attribute_def split: option.splits)

lemma set_edge_attribute_frame:
  "vertices (snd (set_edge_attribute e k x g)) = vertices g"
  "vertex_attributes (snd (set_edge_attribute e k x g)) = vertex_attributes g"
  "dom (edge_attributes (snd (set_edge_attribute e k x g))) = dom (edge_attributes g)"
  "directed (snd (set_edge_attribute e k x g)) = directed g"
  "Graph.more (snd (set_edge_attribute e k x g)) = Graph.more g"
  by (auto simp: set_edge_attribute_def split: option.splits)

lemma StaticGraph_add_edge_frame:
  "vertices (snd (StaticGraph_add_edge v1 v2 w s)) = vertices s"
  "vertex_attributes (snd (StaticGraph_add_edge v1 v2 w s)) = vertex_attributes s"
  "directed (snd (StaticGraph_add_edge v1 v2 w s)) = directed s"
  by (auto simp: StaticGraph_add_edge_def get_vertex_int_def s_setitem_def method_defs
        split: option.splits sum.splits)

lemma DynamicGraph_add_edge_frame:
  "vertices (snd (DynamicGraph_add_edge v1 v2 w d)) = vertices d"
  "vertex_attributes (snd (DynamicGraph_add_edge v1 v2 w d)) = vertex_attributes d"
  "directed (snd (DynamicGraph_add_edge v1 v2 w d)) = directed d"
  by (auto simp: DynamicGraph_add_edge_def get_vertex_int_def d_setitem_def method_defs
        split: option.splits sum.splits)

lemma StaticGraph_remove_edge_frame:
  "Graph.truncate (snd (StaticGraph_remove_edge v1 v2 s)) = Graph.truncate s"
  by (auto simp: StaticGraph_remove_edge_def get_vertex_int_def s_setitem_def s_getitem_def
        method_defs Graph.truncate_def split: option.splits sum.splits)

lemma DynamicGraph_remove_edge_frame:
  "Graph.truncate (snd (DynamicGraph_remove_edge v1 v2 d)) = Graph.truncate d"
  by (auto simp: DynamicGraph_remove_edge_def get_vertex_int_def d_setitem_def d_getitem_def
        method_defs Graph.truncate_def split: option.splits sum.splits)

lemma StaticGraph_add_vertex_frame:
  "vertices (snd (StaticGraph_add_vertex v s)) =
     (if v \<in> set (vertices s) then vertices s else vertices s @ [v])"
  "vertex_attributes (snd (StaticGraph_add_vertex v s)) = (vertex_attributes s)(v \<mapsto> [])"
  "edge_attributes (snd (StaticGraph_add_vertex v s)) = edge_attributes s"
  "directed (snd (StaticGraph_add_vertex v s)) = directed s"
  by (auto simp: StaticGraph_add_vertex_def method_defs set_adjacency_matrix_def Let_def
        split: sum.splits)

lemma DynamicGraph_add_vertex_frame:
  "vertices (snd (DynamicGraph_add_vertex v d)) =
     (if v \<in> set (vertices d) then vertices d else vertices d @ [v])"
  "vertex_attributes (snd (DynamicGraph_add_vertex v d)) = (vertex_attributes d)(v \<mapsto> [])"
  "edge_attributes (snd (DynamicGraph_add_vertex v d)) = edge_attributes d"
  "directed (snd (DynamicGraph_add_vertex v d)) = directed d"
  by (auto simp: DynamicGraph_add_vertex_def method_defs Let_def)

lemma remove1_absent: "list_index xs x = None \<Longrightarrow> remove1 x xs = xs"
  by (simp add: list_index_None remove1_idem)

lemma StaticGraph_remove_vertex_frame:
  "vertices (snd (StaticGraph_remove_vertex v s)) = remove1 v (vertices s)"
  "vertex_attributes (snd (StaticGraph_remove_vertex v s)) = vertex_attributes s"
  "edge_attributes (snd (StaticGraph_remove_vertex v s)) = edge_attributes s"
  "directed (snd (StaticGraph_remove_vertex v s)) = directed s"
  by (auto simp: StaticGraph_remove_vertex_unfold remove1_absent split: option.splits)

lemma DynamicGraph_remove_vertex_frame:
  "vertices (snd (DynamicGraph_remove_vertex v d)) = remove1 v (vertices d)"
  "vertex_attributes (snd (DynamicGraph_remove_vertex v d)) = vertex_attributes d"
  "edge_attributes (snd (DynamicGraph_remove_vertex v d)) = edge_attributes d"
  "directed (snd (DynamicGraph_remove_vertex v d)) = directed d"
  by (auto simp: DynamicGraph_remove_vertex_def get_vertex_int_def method_defs remove1_absent
        split: option.splits sum.splits prod.splits)

subsection \<open>StaticGraph: the matrix\<close>

lemma seq_preserves:
  assumes "\<And>s. P s \<Longrightarrow> P (snd (m s))" "\<And>a s. P s \<Longrightarrow> P (snd (f a s))" "P s"
  shows "P (snd (seq m f s))"
  using assms by (auto simp: seq_def split: prod.splits sum.splits) (metis snd_conv)+

lemma s_setitem_matrix_inv: "matrix_inv s \<Longrightarrow> matrix_inv (snd (s_setitem u v x s))"
proof (cases "setitem2 (the_view s) u v x")
  case (Inl e)
  then show "matrix_inv s \<Longrightarrow> ?thesis" by (simp add: s_setitem_def)
next
  case (Inr m1)
  assume "matrix_inv s"
  then obtain k where k: "adjacency_matrix s < next_ndarray s" "square k (the_matrix s)"
      "length (vertices s) \<le> k"
    by (auto simp: matrix_inv_def)
  have "square k (the_matrix (snd (s_setitem u v x s)))"
  proof (cases "adjacency_matrix_view s = adjacency_matrix s")
    case True
    then have "square k m1" using setitem2_square [OF Inr] k(2) by (simp add: the_view_def the_matrix_def)
    then show ?thesis using Inr True by (simp add: s_setitem_def the_matrix_def)
  next
    case False
    then show ?thesis using Inr k(2) by (simp add: s_setitem_def the_matrix_def)
  qed
  then show ?thesis using k Inr by (auto simp: matrix_inv_def s_setitem_def)
qed

lemma StaticGraph_add_edge_matrix_inv:
  "matrix_inv s \<Longrightarrow> matrix_inv (snd (StaticGraph_add_edge v1 v2 w s))"
  unfolding StaticGraph_add_edge_def
  apply (intro seq_preserves [where P = matrix_inv])
       apply (simp_all add: get_vertex_int_def inspect_def ret_def s_setitem_matrix_inv)
  apply (simp add: assign_def matrix_inv_def the_matrix_def)
  done

lemma StaticGraph_remove_edge_matrix_inv:
  "matrix_inv s \<Longrightarrow> matrix_inv (snd (StaticGraph_remove_edge v1 v2 s))"
  unfolding StaticGraph_remove_edge_def
  apply (intro seq_preserves [where P = matrix_inv])
     apply (simp_all add: get_vertex_int_def inspect_def ret_def s_getitem_def)
  apply (auto simp: ret_def s_setitem_matrix_inv intro!: seq_preserves [where P = matrix_inv])
  done

lemma StaticGraph_remove_vertex_matrix_inv:
  "matrix_inv s \<Longrightarrow> matrix_inv (snd (StaticGraph_remove_vertex v s))"
  using length_remove1 [of v "vertices s"]
  by (auto simp: StaticGraph_remove_vertex_unfold matrix_inv_def the_matrix_def
        split: option.splits)

lemma ncols_square: "square k m \<Longrightarrow> ncols m = k"
  by (cases m) (auto simp: ncols_def square_def)

lemma ncols_np_full: "ncols (np_full (Suc r) n) = n"
  by (simp add: ncols_def np_full_def)

lemma zip_replicate_right: "length xs = n \<Longrightarrow> zip xs (replicate n c) = map (\<lambda>x. (x, c)) xs"
  by (induction xs arbitrary: n) auto

lemma square_append_row_column:
  assumes "square n m"
  shows "np_append_axis1 (m @ np_full 1 n) (np_full (n + 1) 1)
         = Inr (map (\<lambda>row. row @ [NaN]) (m @ [replicate n NaN]))"
    and "square (Suc n) (map (\<lambda>row. row @ [NaN]) (m @ [replicate n NaN]))"
proof -
  have len: "length m = n" using assms by (simp add: square_def)
  have "zip (m @ [replicate n NaN]) (replicate (Suc n) [NaN])
        = map (\<lambda>row. (row, [NaN])) (m @ [replicate n NaN])"
    using len by (intro zip_replicate_right) simp
  then show "np_append_axis1 (m @ np_full 1 n) (np_full (n + 1) 1)
         = Inr (map (\<lambda>row. row @ [NaN]) (m @ [replicate n NaN]))"
    using len by (simp add: np_append_axis1_def np_full_def)
  show "square (Suc n) (map (\<lambda>row. row @ [NaN]) (m @ [replicate n NaN]))"
    using assms by (auto simp: square_def)
qed

lemma StaticGraph_add_vertex_matrix_inv:
  assumes "matrix_inv s"
  shows "matrix_inv (snd (StaticGraph_add_vertex v s))"
proof -
  obtain k where k: "adjacency_matrix s < next_ndarray s" "square k (the_matrix s)"
      "length (vertices s) \<le> k"
    using assms by (auto simp: matrix_inv_def)
  show ?thesis
  proof (cases "v \<in> set (vertices s)")
    case True
    then show ?thesis using assms
      by (simp add: StaticGraph_add_vertex_def method_defs matrix_inv_def the_matrix_def)
  next
    case new: False
    show ?thesis
    proof (cases "length (vertices s) = 0")
      case True
      then show ?thesis using new
        by (simp add: StaticGraph_add_vertex_def method_defs matrix_inv_def the_matrix_def
              set_adjacency_matrix_def np_full_def square_def)
    next
      case pos: False
      show ?thesis
      proof (cases "k = length (vertices s)")
        case True
        have sq: "square (length (vertices s)) (ndarrays s (adjacency_matrix s))"
          using k(2) True by (simp add: the_matrix_def)
        show ?thesis using new pos
          by (simp add: StaticGraph_add_vertex_def method_defs matrix_inv_def the_matrix_def
                set_adjacency_matrix_def np_append_axis0_def ncols_square [OF sq]
                ncols_np_full [of 0, simplified] square_append_row_column [OF sq, simplified]
                Let_def)
             (use square_append_row_column(2) [OF sq] in auto)
      next
        case False
        have nc: "ncols (ndarrays s (adjacency_matrix s)) = k"
          using ncols_square [OF k(2)] by (simp add: the_matrix_def)
        show ?thesis using new pos False k
          by (auto simp: StaticGraph_add_vertex_def method_defs matrix_inv_def the_matrix_def
                np_append_axis0_def nc ncols_np_full [of 0, simplified])
      qed
    qed
  qed
qed

lemma StaticGraph_init_matrix_inv: "matrix_inv (StaticGraph_init dir vs)"
  by (auto simp: matrix_inv_def StaticGraph_init_def the_matrix_def np_full_def square_def)

lemma attr_setters_matrix_inv:
  "matrix_inv (snd (set_vertex_attribute v k x s)) = matrix_inv s"
  "matrix_inv (snd (set_edge_attribute e k x s)) = matrix_inv s"
  by (auto simp: set_vertex_attribute_def set_edge_attribute_def matrix_inv_def the_matrix_def
        split: option.splits)

subsection \<open>Every graph a caller can have reached satisfies the invariant\<close>

lemma for_each_inv:
  assumes "for_each xs body acc = Inr r" "P acc"
    and "\<And>x a a'. P a \<Longrightarrow> body x a = Inr a' \<Longrightarrow> P a'"
  shows "P r"
  using assms(1,2)
proof (induction xs arbitrary: acc)
  case Nil
  then show ?case by simp
next
  case (Cons x xs)
  then show ?case using assms(3) by (auto split: sum.splits)
qed

lemma for_each_never: "for_each xs (\<lambda>x _. Inl e) acc = Inr r \<Longrightarrow> r = acc"
  by (cases xs) auto

lemma dom_fold_empty_attrs:
  "dom (fold (\<lambda>v va. va(v \<mapsto> [])) vs m) = dom m \<union> set vs"
  by (induction vs arbitrary: m) auto

lemma getitem2_replicate:
  "getitem2 (replicate n (replicate k x)) u v =
     (if u < n \<and> v < k then Inr x else Inl IndexError)"
  by (auto simp: getitem2_def)

lemma symmetric_replicate: "symmetric (replicate n (replicate n x))"
  unfolding symmetric_def by (auto simp: getitem2_replicate)

lemma square_replicate: "square n (replicate n (replicate n x))"
  by (simp add: square_def)

lemma StaticGraph_init_inv: "graph_inv (Static (StaticGraph_init dir vs))"
  using StaticGraph_init_matrix_inv [of dir vs]
  by (simp add: graph_inv_def static_inv_def StaticGraph_init_def the_view_def np_full_def
        symmetric_replicate base_simps dom_fold_empty_attrs)

lemma DynamicGraph_init_inv: "graph_inv (Dynamic (DynamicGraph_init dir vs))"
  by (simp add: graph_inv_def dynamic_inv_def DynamicGraph_init_def
        symmetric_replicate square_replicate base_simps dom_fold_empty_attrs)

lemma StaticGraph_from_inv:
  assumes "StaticGraph_from src = Inr s"
    and "set (vertices (base src)) \<subseteq> dom (vertex_attributes (base src))"
  shows "graph_inv (Static s)"
proof -
  let ?P = "\<lambda>self. static_inv self \<and> matrix_inv self \<and> vertices self = vertices (base src)
                 \<and> vertex_attributes self = vertex_attributes (base src)"
  obtain es :: "('a \<times> 'a \<times> weight) list" and self0 where loop: "for_each es
        (\<lambda>edge self. case StaticGraph_add_edge (fst edge) (fst (snd edge)) (Num 1) self of
                        (Inl e, _) \<Rightarrow> Inl e | (Inr _, self') \<Rightarrow> Inr self') self0 = Inr s"
    and start: "?P self0"
  proof (cases "edges src")
    case (Inl e)
    then show ?thesis using assms(1) by (simp add: StaticGraph_from_def)
  next
    case (Inr es)
    show ?thesis
      by (rule that [of es])
         (use assms(1) Inr in \<open>simp add: StaticGraph_from_def Let_def\<close>,
          auto simp: static_inv_def matrix_inv_def the_view_def the_matrix_def np_full_def
            symmetric_replicate
            intro!: exI [of _ "length (vertices (base src))"] square_replicate)
  qed
  have "?P s"
  proof (rule for_each_inv [OF loop, where P = ?P])
    show "?P self0" by (rule start)
  next
    fix x a a'
    assume a: "?P a"
      and b: "(case StaticGraph_add_edge (fst x) (fst (snd x)) (Num 1) a of
                 (Inl e, _) \<Rightarrow> Inl e | (Inr _, self') \<Rightarrow> Inr self') = Inr a'"
    have "a' = snd (StaticGraph_add_edge (fst x) (fst (snd x)) (Num 1) a)"
      using b by (auto split: prod.splits sum.splits)
    then show "?P a'"
      using a StaticGraph_add_edge_inv [of a] StaticGraph_add_edge_matrix_inv [of a]
      by (simp add: StaticGraph_add_edge_frame)
  qed
  then show ?thesis using assms(2) by (simp add: graph_inv_def base_simps)
qed

lemma DynamicGraph_from_inv:
  assumes "DynamicGraph_from src = Inr d"
    and "set (vertices (base src)) \<subseteq> dom (vertex_attributes (base src))"
  shows "graph_inv (Dynamic d)"
proof -
  let ?P = "\<lambda>self. dynamic_inv self \<and> vertices self = vertices (base src)
                 \<and> vertex_attributes self = vertex_attributes (base src)"
  obtain es :: "('a \<times> 'a \<times> weight) list" and self0 where loop: "for_each es
        (\<lambda>edge self. case DynamicGraph_add_edge (fst edge) (fst (snd edge)) (Num 1) self of
                        (Inl e, _) \<Rightarrow> Inl e | (Inr _, self') \<Rightarrow> Inr self') self0 = Inr d"
    and start: "?P self0"
  proof (cases "edges src")
    case (Inl e)
    then show ?thesis using assms(1) by (simp add: DynamicGraph_from_def)
  next
    case (Inr es)
    show ?thesis
      by (rule that [of es])
         (use assms(1) Inr in \<open>simp add: DynamicGraph_from_def Let_def\<close>,
          simp add: dynamic_inv_def square_replicate symmetric_replicate)
  qed
  have "?P d"
  proof (rule for_each_inv [OF loop, where P = ?P])
    show "?P self0" by (rule start)
  next
    fix x a a'
    assume a: "?P a"
      and b: "(case DynamicGraph_add_edge (fst x) (fst (snd x)) (Num 1) a of
                 (Inl e, _) \<Rightarrow> Inl e | (Inr _, self') \<Rightarrow> Inr self') = Inr a'"
    have "a' = snd (DynamicGraph_add_edge (fst x) (fst (snd x)) (Num 1) a)"
      using b by (auto split: prod.splits sum.splits)
    then show "?P a'"
      using a DynamicGraph_add_edge_inv [of a] by (simp add: DynamicGraph_add_edge_frame)
  qed
  then show ?thesis using assms(2) by (simp add: graph_inv_def base_simps)
qed

text \<open>\<^verbatim>\<open>__copy__\<close> returns only when it has found no edge and no vertex attribute.\<close>

lemma StaticGraph_copy_result:
  "StaticGraph_copy s = Inr s' \<Longrightarrow> s' = StaticGraph_init (directed s) (vertices s)"
proof -
  assume c: "StaticGraph_copy s = Inr s'"
  let ?P = "\<lambda>g. g = StaticGraph_init (directed s) (vertices s)"
  obtain es g1 where
    l1: "for_each es
          (\<lambda>edge new_graph.
             case StaticGraph_add_edge (fst edge) (fst (snd edge)) (snd (snd edge)) new_graph of
               (Inl e, _) \<Rightarrow> Inl e | (Inr _, _) \<Rightarrow> Inl KeyError)
          (StaticGraph_init (directed s) (vertices s)) = Inr g1"
    and l2: "for_each (vertices s)
          (\<lambda>vertex new_graph.
             case vertex_attributes s vertex of
               None \<Rightarrow> Inl KeyError
             | Some d \<Rightarrow> for_each (map fst d) (\<lambda>key _. Inl AttributeError) new_graph) g1 = Inr s'"
    using c by (auto simp: StaticGraph_copy_def Let_def split: sum.splits)
  have "?P g1"
    by (rule for_each_inv [OF l1, where P = ?P]) (auto split: prod.splits sum.splits)
  then show "?P s'"
    by (rule for_each_inv [OF l2, where P = ?P])
       (auto split: option.splits dest: for_each_never)
qed

lemma DynamicGraph_copy_result:
  "DynamicGraph_copy s = Inr s' \<Longrightarrow> s' = DynamicGraph_init (directed s) (vertices s)"
proof -
  assume c: "DynamicGraph_copy s = Inr s'"
  let ?P = "\<lambda>g. g = DynamicGraph_init (directed s) (vertices s)"
  obtain es g1 where
    l1: "for_each es
          (\<lambda>edge new_graph.
             case DynamicGraph_add_edge (fst edge) (fst (snd edge)) (snd (snd edge)) new_graph of
               (Inl e, _) \<Rightarrow> Inl e | (Inr _, _) \<Rightarrow> Inl KeyError)
          (DynamicGraph_init (directed s) (vertices s)) = Inr g1"
    and l2: "for_each (vertices s)
          (\<lambda>vertex new_graph.
             case vertex_attributes s vertex of
               None \<Rightarrow> Inl KeyError
             | Some d \<Rightarrow> for_each (map fst d) (\<lambda>key _. Inl AttributeError) new_graph) g1 = Inr s'"
    using c by (auto simp: DynamicGraph_copy_def Let_def split: sum.splits)
  have "?P g1"
    by (rule for_each_inv [OF l1, where P = ?P]) (auto split: prod.splits sum.splits)
  then show "?P s'"
    by (rule for_each_inv [OF l2, where P = ?P])
       (auto split: option.splits dest: for_each_never)
qed

lemma copy_inv: "copy g = Inr g' \<Longrightarrow> graph_inv g'"
proof (cases g)
  case (Static s)
  assume "copy g = Inr g'"
  then obtain s' where "StaticGraph_copy s = Inr s'" "g' = Static s'"
    using Static by (cases "StaticGraph_copy s") (auto simp: copy_def)
  then show ?thesis using StaticGraph_copy_result [of s s'] by (simp add: StaticGraph_init_inv)
next
  case (Dynamic d)
  assume "copy g = Inr g'"
  then obtain d' where "DynamicGraph_copy d = Inr d'" "g' = Dynamic d'"
    using Dynamic by (cases "DynamicGraph_copy d") (auto simp: copy_def)
  then show ?thesis using DynamicGraph_copy_result [of d d'] by (simp add: DynamicGraph_init_inv)
qed

lemma attr_setters_static_inv:
  "static_inv (snd (set_vertex_attribute v k x s)) = static_inv s"
  "static_inv (snd (set_edge_attribute e k x s)) = static_inv s"
  by (auto simp: set_vertex_attribute_def set_edge_attribute_def static_inv_def the_view_def
        split: option.splits)

lemma attr_setters_dynamic_inv:
  "dynamic_inv (snd (set_vertex_attribute v k x d)) = dynamic_inv d"
  "dynamic_inv (snd (set_edge_attribute e k x d)) = dynamic_inv d"
  by (auto simp: set_vertex_attribute_def set_edge_attribute_def dynamic_inv_def
        split: option.splits)

lemma StaticGraph_run_inv:
  assumes "graph_inv (Static s)"
  shows "graph_inv (snd (StaticGraph_run op s))"
proof -
  have i: "static_inv s" and m: "matrix_inv s"
    and a: "set (vertices s) \<subseteq> dom (vertex_attributes s)"
    using assms by (auto simp: graph_inv_def base_simps)
  show ?thesis
  proof (cases op)
    case (Add_vertex v)
    then show ?thesis using a StaticGraph_add_vertex_inv [OF i, of v]
        StaticGraph_add_vertex_matrix_inv [OF m, of v]
      by (auto simp: graph_inv_def base_simps answered_simps StaticGraph_add_vertex_frame)
  next
    case (Remove_vertex v)
    then show ?thesis using a StaticGraph_remove_vertex_inv [OF i, of v]
        StaticGraph_remove_vertex_matrix_inv [OF m, of v]
      by (auto simp: graph_inv_def base_simps answered_simps StaticGraph_remove_vertex_frame
            dest: notin_set_remove1)
  next
    case (Add_edge v1 v2 w)
    then show ?thesis using a StaticGraph_add_edge_inv [OF i, of v1 v2 w]
        StaticGraph_add_edge_matrix_inv [OF m, of v1 v2 w]
      by (auto simp: graph_inv_def base_simps answered_simps StaticGraph_add_edge_frame)
  next
    case (Remove_edge v1 v2)
    have "vertices (Graph.truncate (snd (StaticGraph_remove_edge v1 v2 s))) = vertices s"
      "vertex_attributes (Graph.truncate (snd (StaticGraph_remove_edge v1 v2 s)))
         = vertex_attributes s"
      by (simp_all add: StaticGraph_remove_edge_frame) (simp_all add: Graph.truncate_def)
    then have "vertices (snd (StaticGraph_remove_edge v1 v2 s)) = vertices s"
      "vertex_attributes (snd (StaticGraph_remove_edge v1 v2 s)) = vertex_attributes s"
      by (simp_all add: Graph.truncate_def)
    then show ?thesis using Remove_edge a StaticGraph_remove_edge_inv [OF i, of v1 v2]
        StaticGraph_remove_edge_matrix_inv [OF m, of v1 v2]
      by (auto simp: graph_inv_def base_simps answered_simps)
  next
    case (Set_vertex_attribute v k x)
    then show ?thesis using a i m
      by (simp add: graph_inv_def base_simps answered_simps set_vertex_attribute_frame
            attr_setters_static_inv attr_setters_matrix_inv)
  next
    case (Set_edge_attribute e k x)
    then show ?thesis using a i m
      by (simp add: graph_inv_def base_simps answered_simps set_edge_attribute_frame
            attr_setters_static_inv attr_setters_matrix_inv)
  qed (use assms in \<open>simp_all add: answered_simps query_state StaticGraph_query_state\<close>)
qed

lemma DynamicGraph_run_inv:
  assumes "graph_inv (Dynamic d)"
  shows "graph_inv (snd (DynamicGraph_run op d))"
proof -
  have i: "dynamic_inv d" and a: "set (vertices d) \<subseteq> dom (vertex_attributes d)"
    using assms by (auto simp: graph_inv_def base_simps)
  show ?thesis
  proof (cases op)
    case (Add_vertex v)
    then show ?thesis using a DynamicGraph_add_vertex_inv [OF i, of v]
      by (auto simp: graph_inv_def base_simps answered_simps DynamicGraph_add_vertex_frame)
  next
    case (Remove_vertex v)
    then show ?thesis using a DynamicGraph_remove_vertex_inv [OF i, of v]
      by (auto simp: graph_inv_def base_simps answered_simps DynamicGraph_remove_vertex_frame
            dest: notin_set_remove1)
  next
    case (Add_edge v1 v2 w)
    then show ?thesis using a DynamicGraph_add_edge_inv [OF i, of v1 v2 w]
      by (auto simp: graph_inv_def base_simps answered_simps DynamicGraph_add_edge_frame)
  next
    case (Remove_edge v1 v2)
    have "vertices (Graph.truncate (snd (DynamicGraph_remove_edge v1 v2 d))) = vertices d"
      "vertex_attributes (Graph.truncate (snd (DynamicGraph_remove_edge v1 v2 d)))
         = vertex_attributes d"
      by (simp_all add: DynamicGraph_remove_edge_frame) (simp_all add: Graph.truncate_def)
    then have "vertices (snd (DynamicGraph_remove_edge v1 v2 d)) = vertices d"
      "vertex_attributes (snd (DynamicGraph_remove_edge v1 v2 d)) = vertex_attributes d"
      by (simp_all add: Graph.truncate_def)
    then show ?thesis using Remove_edge a DynamicGraph_remove_edge_inv [OF i, of v1 v2]
      by (auto simp: graph_inv_def base_simps answered_simps)
  next
    case (Set_vertex_attribute v k x)
    then show ?thesis using a i
      by (simp add: graph_inv_def base_simps answered_simps set_vertex_attribute_frame
            attr_setters_dynamic_inv)
  next
    case (Set_edge_attribute e k x)
    then show ?thesis using a i
      by (simp add: graph_inv_def base_simps answered_simps set_edge_attribute_frame
            attr_setters_dynamic_inv)
  qed (use assms in \<open>simp_all add: answered_simps query_state DynamicGraph_query_state\<close>)
qed

lemma run_inv: "graph_inv g \<Longrightarrow> graph_inv (snd (run op g))"
  by (cases g) (simp_all add: run_def StaticGraph_run_inv DynamicGraph_run_inv)

lemma reachable_inv: "reachable g \<Longrightarrow> graph_inv g"
proof (induction rule: reachable.induct)
  case (from_static src s)
  then show ?case using StaticGraph_from_inv [of src s] by (simp add: graph_inv_def)
next
  case (from_dynamic src d)
  then show ?case using DynamicGraph_from_inv [of src d] by (simp add: graph_inv_def)
qed (simp_all add: StaticGraph_init_inv DynamicGraph_init_inv copy_inv run_inv)

subsection \<open>Symmetry of undirected graphs\<close>

lemma DynamicGraph_has_edge_fst:
  "fst (DynamicGraph_has_edge v1 v2 d) =
    (case list_index (vertices d) v1 of None \<Rightarrow> Inr False
     | Some u \<Rightarrow> (case list_index (vertices d) v2 of None \<Rightarrow> Inr False
        | Some v \<Rightarrow> map_sum id (\<lambda>cell. cell \<noteq> None) (getitem2 (adjacency_list d) u v)))"
  by (auto simp: DynamicGraph_has_edge_def d_getitem_def method_defs
        split: option.splits sum.splits)

lemma StaticGraph_has_edge_fst:
  "fst (StaticGraph_has_edge v1 v2 s) =
    (case list_index (vertices s) v1 of None \<Rightarrow> Inr False
     | Some u \<Rightarrow> (case list_index (vertices s) v2 of None \<Rightarrow> Inr False
        | Some v \<Rightarrow> map_sum id (\<lambda>cell. \<not> isnan cell) (getitem2 (the_view s) u v)))"
  by (auto simp: StaticGraph_has_edge_def s_getitem_def method_defs
        split: option.splits sum.splits)

lemma DynamicGraph_get_edge_weight_fst:
  "fst (DynamicGraph_get_edge_weight v1 v2 d) =
    (case list_index (vertices d) v1 of None \<Rightarrow> Inl ValueError_vertex_not_in_graph
     | Some u \<Rightarrow> (case list_index (vertices d) v2 of None \<Rightarrow> Inl ValueError_vertex_not_in_graph
        | Some v \<Rightarrow> (case getitem2 (adjacency_list d) u v of
             Inl e \<Rightarrow> Inl e
           | Inr None \<Rightarrow> Inl ValueError_no_edge
           | Inr (Some w) \<Rightarrow> Inr w)))"
  by (auto simp: DynamicGraph_get_edge_weight_def d_getitem_def get_vertex_int_def method_defs
        split: option.splits sum.splits)

lemma StaticGraph_get_edge_weight_fst:
  "fst (StaticGraph_get_edge_weight v1 v2 s) =
    (case list_index (vertices s) v1 of None \<Rightarrow> Inl ValueError_vertex_not_in_graph
     | Some u \<Rightarrow> (case list_index (vertices s) v2 of None \<Rightarrow> Inl ValueError_vertex_not_in_graph
        | Some v \<Rightarrow> (case getitem2 (the_view s) u v of
             Inl e \<Rightarrow> Inl e
           | Inr w \<Rightarrow> if isnan w then Inl ValueError_no_edge else Inr w)))"
  by (auto simp: StaticGraph_get_edge_weight_def s_getitem_def get_vertex_int_def method_defs
        split: option.splits sum.splits)

lemma run_Has_edge:
  "fst (run (Has_edge v1 v2) (Static s)) = map_sum id Truth (fst (StaticGraph_has_edge v1 v2 s))"
  "fst (run (Has_edge v1 v2) (Dynamic d)) = map_sum id Truth (fst (DynamicGraph_has_edge v1 v2 d))"
  by (simp_all add: run_def answered_simps)

lemma run_Get_edge_weight:
  "fst (run (Get_edge_weight v1 v2) (Static s)) =
     map_sum id Weight (fst (StaticGraph_get_edge_weight v1 v2 s))"
  "fst (run (Get_edge_weight v1 v2) (Dynamic d)) =
     map_sum id Weight (fst (DynamicGraph_get_edge_weight v1 v2 d))"
  by (simp_all add: run_def answered_simps)

lemma symmetric_has_edge_static:
  assumes "symmetric (the_view s)"
  shows "fst (StaticGraph_has_edge u v s) = fst (StaticGraph_has_edge v u s)"
    and "fst (StaticGraph_get_edge_weight u v s) = Inr w
         \<longleftrightarrow> fst (StaticGraph_get_edge_weight v u s) = Inr w"
proof -
  have both: "fst (StaticGraph_has_edge u v s) = fst (StaticGraph_has_edge v u s)
      \<and> (fst (StaticGraph_get_edge_weight u v s) = Inr w
         \<longleftrightarrow> fst (StaticGraph_get_edge_weight v u s) = Inr w)"
  proof (cases "list_index (vertices s) u")
    case None
    then show ?thesis
      by (simp add: StaticGraph_has_edge_fst StaticGraph_get_edge_weight_fst split: option.splits)
  next
    case a: (Some a)
    show ?thesis
    proof (cases "list_index (vertices s) v")
      case None
      then show ?thesis using a
        by (simp add: StaticGraph_has_edge_fst StaticGraph_get_edge_weight_fst)
    next
      case b: (Some b)
      have "getitem2 (the_view s) a b = getitem2 (the_view s) b a"
        by (rule symmetricD [OF assms])
      then show ?thesis using a b
        by (simp add: StaticGraph_has_edge_fst StaticGraph_get_edge_weight_fst)
    qed
  qed
  show "fst (StaticGraph_has_edge u v s) = fst (StaticGraph_has_edge v u s)"
    using both by simp
  show "fst (StaticGraph_get_edge_weight u v s) = Inr w
         \<longleftrightarrow> fst (StaticGraph_get_edge_weight v u s) = Inr w"
    using both by simp
qed

lemma symmetric_has_edge_dynamic:
  assumes "symmetric (adjacency_list d)"
  shows "fst (DynamicGraph_has_edge u v d) = fst (DynamicGraph_has_edge v u d)"
    and "fst (DynamicGraph_get_edge_weight u v d) = Inr w
         \<longleftrightarrow> fst (DynamicGraph_get_edge_weight v u d) = Inr w"
proof -
  have both: "fst (DynamicGraph_has_edge u v d) = fst (DynamicGraph_has_edge v u d)
      \<and> (fst (DynamicGraph_get_edge_weight u v d) = Inr w
         \<longleftrightarrow> fst (DynamicGraph_get_edge_weight v u d) = Inr w)"
  proof (cases "list_index (vertices d) u")
    case None
    then show ?thesis
      by (simp add: DynamicGraph_has_edge_fst DynamicGraph_get_edge_weight_fst split: option.splits)
  next
    case a: (Some a)
    show ?thesis
    proof (cases "list_index (vertices d) v")
      case None
      then show ?thesis using a
        by (simp add: DynamicGraph_has_edge_fst DynamicGraph_get_edge_weight_fst)
    next
      case b: (Some b)
      have "getitem2 (adjacency_list d) a b = getitem2 (adjacency_list d) b a"
        by (rule symmetricD [OF assms])
      then show ?thesis using a b
        by (simp add: DynamicGraph_has_edge_fst DynamicGraph_get_edge_weight_fst)
    qed
  qed
  show "fst (DynamicGraph_has_edge u v d) = fst (DynamicGraph_has_edge v u d)"
    using both by simp
  show "fst (DynamicGraph_get_edge_weight u v d) = Inr w
         \<longleftrightarrow> fst (DynamicGraph_get_edge_weight v u d) = Inr w"
    using both by simp
qed

lemma map_sum_Inr_iff: "map_sum id f x = Inr y \<longleftrightarrow> (\<exists>a. x = Inr a \<and> y = f a)"
  by (cases x) auto

text \<open>
  In an undirected graph of either backend that a caller can have reached, the calls
  \<^verbatim>\<open>has_edge(u, v)\<close> and \<^verbatim>\<open>has_edge(v, u)\<close> end the same way, be it with an answer or with
  an exception, and \<^verbatim>\<open>get_edge_weight(u, v)\<close> returns a weight exactly when
  \<^verbatim>\<open>get_edge_weight(v, u)\<close> returns that same weight.
\<close>

lemma undirected_results_agree:
  assumes "reachable g" and "\<not> directed (base g)"
  shows "fst (run (Has_edge u v) g) = fst (run (Has_edge v u) g)
       \<and> (\<forall>w. fst (run (Get_edge_weight u v) g) = Inr (Weight w)
              \<longleftrightarrow> fst (run (Get_edge_weight v u) g) = Inr (Weight w))"
proof (cases g)
  case (Static s)
  then have "symmetric (the_view s)"
    using reachable_inv [OF assms(1)] assms(2) by (simp add: graph_inv_def static_inv_def base_simps)
  then show ?thesis
    using symmetric_has_edge_static [of s u v] Static
    by (simp add: run_Has_edge run_Get_edge_weight map_sum_Inr_iff)
next
  case (Dynamic d)
  then have "symmetric (adjacency_list d)"
    using reachable_inv [OF assms(1)] assms(2)
    by (simp add: graph_inv_def dynamic_inv_def base_simps)
  then show ?thesis
    using symmetric_has_edge_dynamic [of d u v] Dynamic
    by (simp add: run_Has_edge run_Get_edge_weight map_sum_Inr_iff)
qed

text \<open>On a DynamicGraph a caller can have reached, \<^verbatim>\<open>has_edge\<close> always returns an answer.\<close>

lemma DynamicGraph_has_edge_returns:
  assumes "dynamic_inv d"
  shows "\<exists>b. fst (DynamicGraph_has_edge u v d) = Inr b"
proof (cases "list_index (vertices d) u")
  case None
  then show ?thesis by (auto simp: DynamicGraph_has_edge_fst)
next
  case i: (Some i)
  show ?thesis
  proof (cases "list_index (vertices d) v")
    case None
    then show ?thesis using i by (auto simp: DynamicGraph_has_edge_fst)
  next
    case j: (Some j)
    have sq: "square (length (vertices d)) (adjacency_list d)"
      using assms by (simp add: dynamic_inv_def)
    have "i < length (vertices d)" "j < length (vertices d)"
      using list_index_Some [OF i] list_index_Some [OF j] by simp_all
    then show ?thesis using i j by (auto simp: DynamicGraph_has_edge_fst square_getitem2 [OF sq])
  qed
qed

lemma undirected_symmetry_dynamic:
  assumes "reachable (Dynamic d)" and "\<not> directed d"
  shows "\<exists>b. fst (run (Has_edge u v) (Dynamic d)) = Inr (Truth b)
           \<and> fst (run (Has_edge v u) (Dynamic d)) = Inr (Truth b)"
proof -
  have inv: "dynamic_inv d" using reachable_inv [OF assms(1)] by (simp add: graph_inv_def)
  then have sym: "symmetric (adjacency_list d)" using assms(2) by (simp add: dynamic_inv_def)
  obtain b where b: "fst (DynamicGraph_has_edge u v d) = Inr b"
    using DynamicGraph_has_edge_returns [OF inv] by blast
  then have "fst (DynamicGraph_has_edge v u d) = Inr b"
    using symmetric_has_edge_dynamic(1) [OF sym, of u v] by simp
  then show ?thesis using b by (simp add: run_Has_edge)
qed

text \<open>
  C4. The code does not do what the claim says on a StaticGraph. After \<^verbatim>\<open>add_vertex(4)\<close> on
  the undirected StaticGraph with the vertices 1, 2, 3, the vertices 4 and 1 are in the
  graph and \<^verbatim>\<open>has_edge(4, 1)\<close> and \<^verbatim>\<open>has_edge(1, 4)\<close> return no boolean: both raise
  \<^verbatim>\<open>IndexError\<close>, and so does \<^verbatim>\<open>get_edge_weight(4, 1)\<close>. On the DynamicGraph made the same
  way both calls return False.
\<close>

theorem has_edge_raises_after_add_vertex:
  "reachable stale_static \<and> \<not> directed (base stale_static)
   \<and> vertices (base stale_static) = [1, 2, 3, 4]
   \<and> fst (run (Has_edge 4 1) stale_static) = Inl IndexError
   \<and> fst (run (Has_edge 1 4) stale_static) = Inl IndexError
   \<and> fst (run (Get_edge_weight 4 1) stale_static) = Inl IndexError
   \<and> fst (run (Has_edge 4 1)
            (snd (run (Add_vertex 4) (Dynamic (DynamicGraph_init False [1::nat, 2, 3])))))
       = Inr (Truth False)
   \<and> fst (run (Has_edge 1 4)
            (snd (run (Add_vertex 4) (Dynamic (DynamicGraph_init False [1::nat, 2, 3])))))
       = Inr (Truth False)"
proof -
  have r: "reachable stale_static"
    unfolding stale_static_def by (intro reachable.step reachable.init_static)
  have e: "\<not> directed (base stale_static)"
    "vertices (base stale_static) = [1, 2, 3, 4]"
    "fst (run (Has_edge 4 1) stale_static) = Inl IndexError"
    "fst (run (Has_edge 1 4) stale_static) = Inl IndexError"
    "fst (run (Get_edge_weight 4 1) stale_static) = Inl IndexError"
    unfolding stale_static_def by code_simp+
  have d: "fst (run (Has_edge 4 1)
                 (snd (run (Add_vertex 4) (Dynamic (DynamicGraph_init False [1::nat, 2, 3])))))
       = Inr (Truth False)"
    "fst (run (Has_edge 1 4)
            (snd (run (Add_vertex 4) (Dynamic (DynamicGraph_init False [1::nat, 2, 3])))))
       = Inr (Truth False)"
    by code_simp+
  show ?thesis by (intro conjI r e d)
qed

subsection \<open>Weights after add-edge\<close>

lemma setitem2_Inr_getitem2: "setitem2 m u v x = Inr m1 \<Longrightarrow> getitem2 m1 u v = Inr x"
  by (simp add: getitem2_setitem2)

lemma DynamicGraph_add_edge_returns:
  assumes "fst (DynamicGraph_add_edge v1 v2 w d) = Inr x"
  shows "\<exists>u v. list_index (vertices d) v1 = Some u \<and> list_index (vertices d) v2 = Some v
     \<and> getitem2 (adjacency_list (snd (DynamicGraph_add_edge v1 v2 w d))) u v = Inr (Some w)
     \<and> (\<not> directed d \<longrightarrow>
          getitem2 (adjacency_list (snd (DynamicGraph_add_edge v1 v2 w d))) v u = Inr (Some w))"
proof -
  obtain u where u: "list_index (vertices d) v1 = Some u"
    using assms
    by (cases "list_index (vertices d) v1")
       (auto simp: DynamicGraph_add_edge_def get_vertex_int_def method_defs)
  obtain v where v: "list_index (vertices d) v2 = Some v"
    using assms u
    by (cases "list_index (vertices d) v2")
       (auto simp: DynamicGraph_add_edge_def get_vertex_int_def method_defs)
  obtain m1 where m1: "setitem2 (adjacency_list d) u v (Some w) = Inr m1"
    using assms u v
    by (cases "setitem2 (adjacency_list d) u v (Some w)")
       (auto simp: DynamicGraph_add_edge_def get_vertex_int_def d_setitem_def method_defs)
  show ?thesis
  proof (cases "directed d")
    case True
    then show ?thesis using u v m1 setitem2_Inr_getitem2 [OF m1]
      by (simp add: DynamicGraph_add_edge_def get_vertex_int_def d_setitem_def method_defs)
  next
    case False
    then obtain m2 where m2: "setitem2 m1 v u (Some w) = Inr m2"
      using assms u v m1
      by (cases "setitem2 m1 v u (Some w)")
         (auto simp: DynamicGraph_add_edge_def get_vertex_int_def d_setitem_def method_defs)
    have "getitem2 m2 u v = Inr (Some w)"
      using setitem2_Inr_getitem2 [OF m1] by (simp add: getitem2_setitem2 [OF m2])
    then show ?thesis using u v m1 m2 False setitem2_Inr_getitem2 [OF m2]
      by (simp add: DynamicGraph_add_edge_def get_vertex_int_def d_setitem_def method_defs)
  qed
qed

lemma StaticGraph_add_edge_returns:
  assumes "fst (StaticGraph_add_edge v1 v2 w s) = Inr x"
  shows "\<exists>u v. list_index (vertices s) v1 = Some u \<and> list_index (vertices s) v2 = Some v
     \<and> getitem2 (the_view (snd (StaticGraph_add_edge v1 v2 w s))) u v = Inr w
     \<and> (\<not> directed s \<longrightarrow>
          getitem2 (the_view (snd (StaticGraph_add_edge v1 v2 w s))) v u = Inr w)"
proof -
  obtain u where u: "list_index (vertices s) v1 = Some u"
    using assms
    by (cases "list_index (vertices s) v1")
       (auto simp: StaticGraph_add_edge_def get_vertex_int_def method_defs)
  obtain v where v: "list_index (vertices s) v2 = Some v"
    using assms u
    by (cases "list_index (vertices s) v2")
       (auto simp: StaticGraph_add_edge_def get_vertex_int_def method_defs)
  obtain m1 where m1: "setitem2 (the_view s) u v w = Inr m1"
    using assms u v
    by (cases "setitem2 (the_view s) u v w")
       (auto simp: StaticGraph_add_edge_def get_vertex_int_def s_setitem_def method_defs
          the_view_def)
  show ?thesis
  proof (cases "directed s")
    case True
    then show ?thesis using u v m1 setitem2_Inr_getitem2 [OF m1]
      by (simp add: StaticGraph_add_edge_def get_vertex_int_def s_setitem_def method_defs
            the_view_def)
  next
    case False
    then obtain m2 where m2: "setitem2 m1 v u w = Inr m2"
      using assms u v m1
      by (cases "setitem2 m1 v u w")
         (auto simp: StaticGraph_add_edge_def get_vertex_int_def s_setitem_def method_defs
            the_view_def)
    have "getitem2 m2 u v = Inr w"
      using setitem2_Inr_getitem2 [OF m1] by (simp add: getitem2_setitem2 [OF m2])
    then show ?thesis using u v m1 m2 False setitem2_Inr_getitem2 [OF m2]
      by (simp add: StaticGraph_add_edge_def get_vertex_int_def s_setitem_def method_defs
            the_view_def)
  qed
qed

lemma DynamicGraph_add_edge_total:
  assumes "dynamic_inv d" "v1 \<in> set (vertices d)" "v2 \<in> set (vertices d)"
  shows "fst (DynamicGraph_add_edge v1 v2 w d) = Inr ()"
proof -
  obtain u v where u: "list_index (vertices d) v1 = Some u"
    and v: "list_index (vertices d) v2 = Some v"
    using list_index_mem assms(2,3) by metis
  obtain m1 m2 where "setitem2 (adjacency_list d) u v (Some w) = Inr m1"
      "setitem2 m1 v u (Some w) = Inr m2"
    using d_write_pair [OF assms(1), of u v "Some w"] list_index_Some [OF u] list_index_Some [OF v]
    by blast
  then show ?thesis using u v
    by (simp add: DynamicGraph_add_edge_def get_vertex_int_def d_setitem_def method_defs)
qed

lemma run_Add_edge:
  "fst (run (Add_edge v1 v2 w) (Static s)) =
     map_sum id (\<lambda>_. No_value) (fst (StaticGraph_add_edge v1 v2 w s))"
  "snd (run (Add_edge v1 v2 w) (Static s)) = Static (snd (StaticGraph_add_edge v1 v2 w s))"
  "fst (run (Add_edge v1 v2 w) (Dynamic d)) =
     map_sum id (\<lambda>_. No_value) (fst (DynamicGraph_add_edge v1 v2 w d))"
  "snd (run (Add_edge v1 v2 w) (Dynamic d)) = Dynamic (snd (DynamicGraph_add_edge v1 v2 w d))"
  by (simp_all add: run_def answered_simps)

text \<open>
  C8, as amended. On a DynamicGraph for every weight, and on a StaticGraph for every
  weight that is not NaN: when \<^verbatim>\<open>add_edge(v1, v2, w)\<close> returns normally, then right after it
  \<^verbatim>\<open>get_edge_weight(v1, v2)\<close> returns \<open>w\<close>, and so does \<^verbatim>\<open>get_edge_weight(v2, v1)\<close> if the
  graph is undirected. On a DynamicGraph a caller can have reached, \<^verbatim>\<open>add_edge\<close> between
  two present vertices does return normally.
\<close>

theorem weight_fidelity:
  "(fst (run (Add_edge v1 v2 w) g) = Inr No_value \<and> ((\<exists>s. g = Static s) \<longrightarrow> \<not> isnan w)
      \<longrightarrow> fst (run (Get_edge_weight v1 v2) (snd (run (Add_edge v1 v2 w) g))) = Inr (Weight w)
        \<and> (\<not> directed (base g) \<longrightarrow>
             fst (run (Get_edge_weight v2 v1) (snd (run (Add_edge v1 v2 w) g))) = Inr (Weight w)))
   \<and> (reachable g \<and> (\<exists>d. g = Dynamic d)
        \<and> v1 \<in> set (vertices (base g)) \<and> v2 \<in> set (vertices (base g))
      \<longrightarrow> fst (run (Add_edge v1 v2 w) g) = Inr No_value)"
proof (cases g)
  case (Static s)
  have "fst (StaticGraph_get_edge_weight v1 v2 (snd (StaticGraph_add_edge v1 v2 w s))) = Inr w
      \<and> (\<not> directed s \<longrightarrow>
           fst (StaticGraph_get_edge_weight v2 v1 (snd (StaticGraph_add_edge v1 v2 w s))) = Inr w)"
    if "fst (StaticGraph_add_edge v1 v2 w s) = Inr x" "\<not> isnan w" for x
    using StaticGraph_add_edge_returns [OF that(1)] that(2)
    by (auto simp: StaticGraph_get_edge_weight_fst StaticGraph_add_edge_frame)
  then show ?thesis using Static
    by (auto simp: run_Add_edge run_Get_edge_weight base_simps map_sum_Inr_iff)
next
  case (Dynamic d)
  have "fst (DynamicGraph_get_edge_weight v1 v2 (snd (DynamicGraph_add_edge v1 v2 w d))) = Inr w
      \<and> (\<not> directed d \<longrightarrow>
           fst (DynamicGraph_get_edge_weight v2 v1 (snd (DynamicGraph_add_edge v1 v2 w d))) = Inr w)"
    if "fst (DynamicGraph_add_edge v1 v2 w d) = Inr x" for x
    using DynamicGraph_add_edge_returns [OF that(1)]
    by (auto simp: DynamicGraph_get_edge_weight_fst DynamicGraph_add_edge_frame)
  moreover have "fst (DynamicGraph_add_edge v1 v2 w d) = Inr ()"
    if "reachable g" "v1 \<in> set (vertices d)" "v2 \<in> set (vertices d)"
    using reachable_inv [OF that(1)] Dynamic DynamicGraph_add_edge_total [OF _ that(2,3)]
    by (simp add: graph_inv_def)
  ultimately show ?thesis using Dynamic
    by (auto simp: run_Add_edge run_Get_edge_weight base_simps map_sum_Inr_iff)
qed

theorem weight_fidelity_witness:
  "fst (run (Add_edge 1 2 (Num 3)) static_pair) = Inr No_value \<and> \<not> isnan (Num 3)
   \<and> fst (run (Get_edge_weight 1 2) (snd (run (Add_edge 1 2 (Num 3)) static_pair)))
       = Inr (Weight (Num 3))
   \<and> \<not> directed (base static_pair)
   \<and> fst (run (Get_edge_weight 2 1) (snd (run (Add_edge 1 2 (Num 3)) static_pair)))
       = Inr (Weight (Num 3))
   \<and> reachable dynamic_pair \<and> 1 \<in> set (vertices (base dynamic_pair))
   \<and> 2 \<in> set (vertices (base dynamic_pair))
   \<and> fst (run (Add_edge 1 2 NaN) dynamic_pair) = Inr No_value
   \<and> fst (run (Get_edge_weight 2 1) (snd (run (Add_edge 1 2 NaN) dynamic_pair)))
       = Inr (Weight NaN)"
proof -
  have a: "fst (run (Add_edge 1 2 (Num 3)) static_pair) = Inr No_value"
    unfolding static_pair_def by code_simp
  have b: "\<not> isnan (Num 3)" by (simp add: isnan_def)
  have c: "\<not> directed (base static_pair)" unfolding static_pair_def by code_simp
  have r: "reachable dynamic_pair" unfolding dynamic_pair_def by (rule reachable.init_dynamic)
  have v: "1 \<in> set (vertices (base dynamic_pair))" "2 \<in> set (vertices (base dynamic_pair))"
    "\<not> directed (base dynamic_pair)"
    unfolding dynamic_pair_def by code_simp+
  show ?thesis
    using weight_fidelity [of 1 2 "Num 3" static_pair] weight_fidelity [of 1 2 NaN dynamic_pair]
      a b c r v
    by (simp add: static_pair_def dynamic_pair_def)
qed

text \<open>
  The claim as it stands fails on a StaticGraph for the weight NaN: \<^verbatim>\<open>add_edge\<close> returns and
  \<^verbatim>\<open>get_edge_weight\<close> then raises.
\<close>

theorem weight_fidelity_counterexample:
  "fst (run (Add_edge 1 2 NaN) (Static (StaticGraph_init False [1::nat, 2]))) = Inr No_value
   \<and> fst (run (Get_edge_weight 1 2)
            (snd (run (Add_edge 1 2 NaN) (Static (StaticGraph_init False [1::nat, 2])))))
       = Inl ValueError_no_edge"
  by code_simp

subsection \<open>Removing an edge\<close>

lemma run_Remove_edge:
  "run (Remove_edge v1 v2) (Static s) = answered Warnings Static (StaticGraph_remove_edge v1 v2 s)"
  "run (Remove_edge v1 v2) (Dynamic d) =
     answered Warnings Dynamic (DynamicGraph_remove_edge v1 v2 d)"
  by (simp_all add: run_def)

lemma DynamicGraph_remove_edge_absent:
  assumes "fst (DynamicGraph_has_edge v1 v2 d) = Inr False"
    "v1 \<in> set (vertices d)" "v2 \<in> set (vertices d)"
  shows "DynamicGraph_remove_edge v1 v2 d
         = (Inr [''Attempting to remove edge that doesn't exist.''], d)"
proof -
  obtain u v where u: "list_index (vertices d) v1 = Some u"
    and v: "list_index (vertices d) v2 = Some v"
    using list_index_mem assms(2,3) by metis
  have "getitem2 (adjacency_list d) u v = Inr None"
    using assms(1) u v
    by (cases "getitem2 (adjacency_list d) u v") (auto simp: DynamicGraph_has_edge_fst)
  then show ?thesis using u v
    by (simp add: DynamicGraph_remove_edge_def get_vertex_int_def d_getitem_def method_defs)
qed

lemma StaticGraph_remove_edge_absent:
  assumes "fst (StaticGraph_has_edge v1 v2 s) = Inr False"
    "v1 \<in> set (vertices s)" "v2 \<in> set (vertices s)"
  shows "StaticGraph_remove_edge v1 v2 s
         = (Inr [''Attempting to remove edge that doesn't exist.''], s)"
proof -
  obtain u v where u: "list_index (vertices s) v1 = Some u"
    and v: "list_index (vertices s) v2 = Some v"
    using list_index_mem assms(2,3) by metis
  obtain x where "getitem2 (the_view s) u v = Inr x" "isnan x"
    using assms(1) u v
    by (cases "getitem2 (the_view s) u v") (auto simp: StaticGraph_has_edge_fst)
  then show ?thesis using u v
    by (simp add: StaticGraph_remove_edge_def get_vertex_int_def s_getitem_def method_defs)
qed

lemma DynamicGraph_remove_edge_present:
  assumes "fst (DynamicGraph_has_edge v1 v2 d) = Inr True"
    and "\<not> directed d \<longrightarrow> symmetric (adjacency_list d)"
  shows "fst (DynamicGraph_remove_edge v1 v2 d) = Inr []
    \<and> fst (DynamicGraph_has_edge v1 v2 (snd (DynamicGraph_remove_edge v1 v2 d))) = Inr False
    \<and> (\<not> directed d \<longrightarrow>
         fst (DynamicGraph_has_edge v2 v1 (snd (DynamicGraph_remove_edge v1 v2 d))) = Inr False)
    \<and> vertices (snd (DynamicGraph_remove_edge v1 v2 d)) = vertices d"
proof -
  obtain u where u: "list_index (vertices d) v1 = Some u"
    using assms(1) by (cases "list_index (vertices d) v1") (auto simp: DynamicGraph_has_edge_fst)
  obtain v where v: "list_index (vertices d) v2 = Some v"
    using assms(1) u
    by (cases "list_index (vertices d) v2") (auto simp: DynamicGraph_has_edge_fst)
  obtain x where x: "getitem2 (adjacency_list d) u v = Inr (Some x)"
    using assms(1) u v
    by (cases "getitem2 (adjacency_list d) u v") (auto simp: DynamicGraph_has_edge_fst)
  obtain m1 where m1: "setitem2 (adjacency_list d) u v None = Inr m1"
    using setitem2_getitem2_defined [OF x] by blast
  show ?thesis
  proof (cases "directed d")
    case True
    then show ?thesis using u v x m1 setitem2_Inr_getitem2 [OF m1]
      by (simp add: DynamicGraph_remove_edge_def get_vertex_int_def d_getitem_def d_setitem_def
            method_defs DynamicGraph_has_edge_fst)
  next
    case False
    then obtain m2 where m2: "setitem2 m1 v u None = Inr m2"
      using symmetric_setitem2_second [OF _ m1] assms(2) by blast
    have "getitem2 m2 u v = Inr None"
      using setitem2_Inr_getitem2 [OF m1] by (simp add: getitem2_setitem2 [OF m2])
    then show ?thesis using u v x m1 m2 False setitem2_Inr_getitem2 [OF m2]
      by (simp add: DynamicGraph_remove_edge_def get_vertex_int_def d_getitem_def d_setitem_def
            method_defs DynamicGraph_has_edge_fst)
  qed
qed

lemma StaticGraph_remove_edge_present:
  assumes "fst (StaticGraph_has_edge v1 v2 s) = Inr True"
    and "\<not> directed s \<longrightarrow> symmetric (the_view s)"
  shows "fst (StaticGraph_remove_edge v1 v2 s) = Inr []
    \<and> fst (StaticGraph_has_edge v1 v2 (snd (StaticGraph_remove_edge v1 v2 s))) = Inr False
    \<and> (\<not> directed s \<longrightarrow>
         fst (StaticGraph_has_edge v2 v1 (snd (StaticGraph_remove_edge v1 v2 s))) = Inr False)
    \<and> vertices (snd (StaticGraph_remove_edge v1 v2 s)) = vertices s"
proof -
  obtain u where u: "list_index (vertices s) v1 = Some u"
    using assms(1) by (cases "list_index (vertices s) v1") (auto simp: StaticGraph_has_edge_fst)
  obtain v where v: "list_index (vertices s) v2 = Some v"
    using assms(1) u
    by (cases "list_index (vertices s) v2") (auto simp: StaticGraph_has_edge_fst)
  obtain x where x: "getitem2 (the_view s) u v = Inr x" "\<not> isnan x"
    using assms(1) u v
    by (cases "getitem2 (the_view s) u v") (auto simp: StaticGraph_has_edge_fst)
  obtain m1 where m1: "setitem2 (the_view s) u v NaN = Inr m1"
    using setitem2_getitem2_defined [OF x(1)] by blast
  have nan: "isnan NaN" by (simp add: isnan_def)
  show ?thesis
  proof (cases "directed s")
    case True
    then show ?thesis using u v x m1 setitem2_Inr_getitem2 [OF m1] nan
      by (simp add: StaticGraph_remove_edge_def get_vertex_int_def s_getitem_def s_setitem_def
            method_defs StaticGraph_has_edge_fst the_view_def)
  next
    case False
    then obtain m2 where m2: "setitem2 m1 v u NaN = Inr m2"
      using symmetric_setitem2_second [OF _ m1] assms(2) by blast
    have "getitem2 m2 u v = Inr NaN"
      using setitem2_Inr_getitem2 [OF m1] by (simp add: getitem2_setitem2 [OF m2])
    then show ?thesis using u v x m1 m2 False setitem2_Inr_getitem2 [OF m2] nan
      by (simp add: StaticGraph_remove_edge_def get_vertex_int_def s_getitem_def s_setitem_def
            method_defs StaticGraph_has_edge_fst the_view_def)
  qed
qed

lemma base_remove_edge:
  "base (Static (snd (StaticGraph_remove_edge v1 v2 s))) = base (Static s)"
  "base (Dynamic (snd (DynamicGraph_remove_edge v1 v2 d))) = base (Dynamic d)"
  by (simp_all add: base_def StaticGraph_remove_edge_frame DynamicGraph_remove_edge_frame)

text \<open>
  C5, as amended. In a graph of either backend that a caller can have reached: for two
  present vertices for which \<^verbatim>\<open>has_edge(v1, v2)\<close> answers False, \<^verbatim>\<open>remove_edge(v1, v2)\<close>
  returns normally, emits one warning and leaves the whole graph as it was; when
  \<^verbatim>\<open>has_edge(v1, v2)\<close> answers True, \<^verbatim>\<open>remove_edge\<close> returns without a warning and clears the
  adjacency entry (that of \<open>(v2, v1)\<close> too if the graph is undirected), and it leaves
  \<^verbatim>\<open>edge_attributes\<close>, like every other field of the base class, as it was.
\<close>

theorem remove_edge_behaviour:
  assumes "reachable g"
  shows "(fst (run (Has_edge v1 v2) g) = Inr (Truth False)
          \<and> v1 \<in> set (vertices (base g)) \<and> v2 \<in> set (vertices (base g))
          \<longrightarrow> run (Remove_edge v1 v2) g
              = (Inr (Warnings [''Attempting to remove edge that doesn't exist.'']), g))
       \<and> (fst (run (Has_edge v1 v2) g) = Inr (Truth True)
          \<longrightarrow> fst (run (Remove_edge v1 v2) g) = Inr (Warnings [])
            \<and> fst (run (Has_edge v1 v2) (snd (run (Remove_edge v1 v2) g))) = Inr (Truth False)
            \<and> (\<not> directed (base g) \<longrightarrow>
                 fst (run (Has_edge v2 v1) (snd (run (Remove_edge v1 v2) g))) = Inr (Truth False))
            \<and> base (snd (run (Remove_edge v1 v2) g)) = base g)"
proof (cases g)
  case (Static s)
  have sym: "\<not> directed s \<longrightarrow> symmetric (the_view s)"
    using reachable_inv [OF assms] Static by (simp add: graph_inv_def static_inv_def)
  show ?thesis
    using Static StaticGraph_remove_edge_absent [of v1 v2 s]
      StaticGraph_remove_edge_present [OF _ sym, of v1 v2]
    by (auto simp: run_Remove_edge run_Has_edge answered_def base_simps map_sum_Inr_iff
          base_remove_edge)
next
  case (Dynamic d)
  have sym: "\<not> directed d \<longrightarrow> symmetric (adjacency_list d)"
    using reachable_inv [OF assms] Dynamic by (simp add: graph_inv_def dynamic_inv_def)
  show ?thesis
    using Dynamic DynamicGraph_remove_edge_absent [of v1 v2 d]
      DynamicGraph_remove_edge_present [OF _ sym, of v1 v2]
    by (auto simp: run_Remove_edge run_Has_edge answered_def base_simps map_sum_Inr_iff
          base_remove_edge)
qed

theorem remove_edge_behaviour_witness:
  "reachable undirected_pair
   \<and> fst (run (Has_edge 1 2) undirected_pair) = Inr (Truth True)
   \<and> fst (run (Remove_edge 1 2) undirected_pair) = Inr (Warnings [])
   \<and> \<not> directed (base undirected_pair)
   \<and> fst (run (Has_edge 2 1) (snd (run (Remove_edge 1 2) undirected_pair))) = Inr (Truth False)
   \<and> edge_attributes (base (snd (run (Remove_edge 1 2) undirected_pair))) (1, 2) = Some []
   \<and> reachable dynamic_pair
   \<and> fst (run (Has_edge 1 2) dynamic_pair) = Inr (Truth False)
   \<and> 1 \<in> set (vertices (base dynamic_pair)) \<and> 2 \<in> set (vertices (base dynamic_pair))
   \<and> run (Remove_edge 1 2) dynamic_pair
       = (Inr (Warnings [''Attempting to remove edge that doesn't exist.'']), dynamic_pair)"
proof -
  have r: "reachable undirected_pair"
    unfolding undirected_pair_def by (intro reachable.step reachable.init_dynamic)
  have h: "fst (run (Has_edge 1 2) undirected_pair) = Inr (Truth True)"
    "\<not> directed (base undirected_pair)"
    "edge_attributes (base undirected_pair) (1, 2) = Some []"
    unfolding undirected_pair_def by code_simp+
  have r': "reachable dynamic_pair" unfolding dynamic_pair_def by (rule reachable.init_dynamic)
  have h': "fst (run (Has_edge 1 2) dynamic_pair) = Inr (Truth False)"
    "1 \<in> set (vertices (base dynamic_pair))" "2 \<in> set (vertices (base dynamic_pair))"
    unfolding dynamic_pair_def by code_simp+
  show ?thesis
    using remove_edge_behaviour [OF r, of 1 2] remove_edge_behaviour [OF r', of 1 2] r r' h h'
    by simp
qed

text \<open>
  The claim as it stands fails: after \<^verbatim>\<open>remove_edge(1, 2)\<close> of an edge that exists, the pair
  \<open>(1, 2)\<close> is still a key of \<^verbatim>\<open>edge_attributes\<close>.
\<close>

theorem remove_edge_keeps_attributes_counterexample:
  "fst (run (Has_edge 1 2) undirected_pair) = Inr (Truth True)
   \<and> fst (run (Remove_edge 1 2) undirected_pair) = Inr (Warnings [])
   \<and> edge_attributes (base (snd (run (Remove_edge 1 2) undirected_pair))) (1, 2) = Some []"
  unfolding undirected_pair_def by code_simp

subsection \<open>Removing a vertex\<close>

lemma StaticGraph_remove_vertex_absent:
  "v \<notin> set (vertices s) \<Longrightarrow>
   StaticGraph_remove_vertex v s = (Inl ValueError_vertex_not_in_graph, s)"
  using list_index_None [of "vertices s" v]
  by (simp add: StaticGraph_remove_vertex_def get_vertex_int_def method_defs)

lemma DynamicGraph_remove_vertex_absent:
  "v \<notin> set (vertices d) \<Longrightarrow>
   DynamicGraph_remove_vertex v d = (Inl ValueError_vertex_not_in_graph, d)"
  using list_index_None [of "vertices d" v]
  by (simp add: DynamicGraph_remove_vertex_def get_vertex_int_def method_defs)

lemma StaticGraph_remove_vertex_returns:
  assumes "matrix_inv s" "v \<in> set (vertices s)"
  shows "fst (StaticGraph_remove_vertex v s) = Inr ()"
proof -
  obtain u where u: "list_index (vertices s) v = Some u"
    using list_index_mem [OF assms(2)] by blast
  obtain k where k: "square k (the_matrix s)" "length (vertices s) \<le> k"
    using assms(1) by (auto simp: matrix_inv_def)
  have "u < k" using list_index_Some [OF u] k(2) by simp
  then have "u < ncols (the_matrix s)" "u < length (the_matrix s)"
    using ncols_square [OF k(1)] k(1) by (simp_all add: square_def)
  then show ?thesis using u
    by (simp add: StaticGraph_remove_vertex_def get_vertex_int_def method_defs the_matrix_def
          np_delete_axis1_def np_delete_axis0_def)
qed

lemma list_index_remove1:
  assumes "list_index xs v = Some u" "a \<noteq> v"
  shows "list_index (remove1 v xs) a
         = map_option (\<lambda>i. if i < u then i else i - 1) (list_index xs a)"
  using assms(1)
proof (induction xs arbitrary: u)
  case Nil
  then show ?case by simp
next
  case (Cons y ys)
  show ?case
  proof (cases "y = v")
    case True
    then have "u = 0" using Cons.prems by simp
    then show ?thesis using True assms(2) by (simp add: option.map_comp comp_def option.map_ident)
  next
    case False
    then obtain u' where u': "list_index ys v = Some u'" "u = Suc u'"
      using Cons.prems by (cases "list_index ys v") auto
    show ?thesis
    proof (cases "y = a")
      case True
      then show ?thesis using False u' by simp
    next
      case ya: False
      show ?thesis
      proof (cases "list_index ys a")
        case None
        then show ?thesis using False ya Cons.IH [OF u'(1)] by simp
      next
        case (Some i)
        have "i \<noteq> u'" using list_index_inj [OF Some, of v] u'(1) assms(2) by auto
        then show ?thesis using False ya Some Cons.IH [OF u'(1)] u'(2) by auto
      qed
    qed
  qed
qed

lemma DynamicGraph_remove_vertex_cell:
  assumes sq: "square (length xs) m" and u: "list_index xs v = Some u"
    and "a \<noteq> v" "b \<noteq> v"
    and i: "list_index xs a = Some i" and j: "list_index xs b = Some j"
  shows "\<exists>i' j'. list_index (remove1 v xs) a = Some i' \<and> list_index (remove1 v xs) b = Some j'
           \<and> getitem2 (shrunk u m) i' j' = getitem2 m i j"
proof -
  let ?f = "\<lambda>i. if i < u then i else i - 1"
  have un: "u < length xs" using list_index_Some [OF u] by simp
  have iu: "i \<noteq> u" using list_index_inj [OF i, of v] u assms(3) by auto
  have ju: "j \<noteq> u" using list_index_inj [OF j, of v] u assms(4) by auto
  have il: "i < length xs" and jl: "j < length xs"
    using list_index_Some [OF i] list_index_Some [OF j] by simp_all
  have a: "list_index (remove1 v xs) a = Some (?f i)"
    by (simp add: list_index_remove1 [OF u assms(3)] i)
  have b: "list_index (remove1 v xs) b = Some (?f j)"
    by (simp add: list_index_remove1 [OF u assms(4)] j)
  have "getitem2 (shrunk u m) (?f i) (?f j) = getitem2 m i j"
    using iu ju il jl un by (auto simp: getitem2_shrunk [OF sq un])
  then show ?thesis using a b by blast
qed

lemma DynamicGraph_remove_vertex_others:
  assumes sq: "square (length (vertices d)) (adjacency_list d)"
    and u: "list_index (vertices d) v = Some u"
    and ne: "a \<noteq> v" "b \<noteq> v"
  shows "fst (DynamicGraph_has_edge a b (snd (DynamicGraph_remove_vertex v d)))
           = fst (DynamicGraph_has_edge a b d)
       \<and> fst (DynamicGraph_get_edge_weight a b (snd (DynamicGraph_remove_vertex v d)))
           = fst (DynamicGraph_get_edge_weight a b d)"
proof (cases "list_index (vertices d) a")
  case None
  then show ?thesis using u
    by (simp add: DynamicGraph_remove_vertex_unfold [OF sq] DynamicGraph_has_edge_fst
          DynamicGraph_get_edge_weight_fst list_index_remove1 [OF u ne(1)])
next
  case i: (Some i)
  show ?thesis
  proof (cases "list_index (vertices d) b")
    case None
    then show ?thesis using u i
      by (simp add: DynamicGraph_remove_vertex_unfold [OF sq] DynamicGraph_has_edge_fst
            DynamicGraph_get_edge_weight_fst list_index_remove1 [OF u ne(1)]
            list_index_remove1 [OF u ne(2)])
  next
    case j: (Some j)
    obtain i' j' where "list_index (remove1 v (vertices d)) a = Some i'"
        "list_index (remove1 v (vertices d)) b = Some j'"
        "getitem2 (shrunk u (adjacency_list d)) i' j' = getitem2 (adjacency_list d) i j"
      using DynamicGraph_remove_vertex_cell [OF sq u ne i j] by blast
    then show ?thesis using u i j
      by (simp add: DynamicGraph_remove_vertex_unfold [OF sq] DynamicGraph_has_edge_fst
            DynamicGraph_get_edge_weight_fst)
  qed
qed

lemma run_Remove_vertex:
  "run (Remove_vertex v) (Static s) =
     answered (\<lambda>_. No_value) Static (StaticGraph_remove_vertex v s)"
  "run (Remove_vertex v) (Dynamic d) =
     answered (\<lambda>_. No_value) Dynamic (DynamicGraph_remove_vertex v d)"
  by (simp_all add: run_def)

text \<open>
  C1, as amended. \<^verbatim>\<open>remove_vertex(v)\<close> raises the "not in graph" \<^verbatim>\<open>ValueError\<close> and changes
  nothing if \<open>v\<close> is absent. If \<open>v\<close> is present, in a graph of either backend that a caller
  can have reached, it returns normally, removes the first occurrence of \<open>v\<close> from the vertex
  sequence, and leaves \<^verbatim>\<open>vertex_attributes\<close> and \<^verbatim>\<open>edge_attributes\<close> as they were. On a
  DynamicGraph it deletes the row and the column of \<open>v\<close> from the adjacency rows, and
  \<^verbatim>\<open>has_edge\<close> and \<^verbatim>\<open>get_edge_weight\<close> between any two other vertices answer as before.
\<close>

theorem remove_vertex_effects:
  "(v \<notin> set (vertices (base g))
      \<longrightarrow> run (Remove_vertex v) g = (Inl ValueError_vertex_not_in_graph, g))
   \<and> (reachable g \<and> v \<in> set (vertices (base g))
      \<longrightarrow> fst (run (Remove_vertex v) g) = Inr No_value
        \<and> vertices (base (snd (run (Remove_vertex v) g))) = remove1 v (vertices (base g))
        \<and> vertex_attributes (base (snd (run (Remove_vertex v) g))) = vertex_attributes (base g)
        \<and> edge_attributes (base (snd (run (Remove_vertex v) g))) = edge_attributes (base g)
        \<and> (\<forall>d. g = Dynamic d \<longrightarrow>
              snd (run (Remove_vertex v) g)
                = Dynamic (d\<lparr>vertices := remove1 v (vertices d),
                             adjacency_list :=
                               map (delete_at (the (list_index (vertices d) v)))
                                 (delete_at (the (list_index (vertices d) v)) (adjacency_list d))\<rparr>)
              \<and> (\<forall>a b. a \<noteq> v \<and> b \<noteq> v \<longrightarrow>
                     fst (run (Has_edge a b) (snd (run (Remove_vertex v) g)))
                       = fst (run (Has_edge a b) g)
                   \<and> fst (run (Get_edge_weight a b) (snd (run (Remove_vertex v) g)))
                       = fst (run (Get_edge_weight a b) g))))"
proof (cases g)
  case (Static s)
  have "fst (StaticGraph_remove_vertex v s) = Inr ()"
    if "reachable g" "v \<in> set (vertices s)"
    using reachable_inv [OF that(1)] Static StaticGraph_remove_vertex_returns [OF _ that(2)]
    by (simp add: graph_inv_def)
  then show ?thesis using Static
    by (auto simp: run_Remove_vertex answered_def base_simps StaticGraph_remove_vertex_absent
          StaticGraph_remove_vertex_frame)
next
  case (Dynamic d)
  have part: "fst (DynamicGraph_remove_vertex v d) = Inr ()
      \<and> snd (DynamicGraph_remove_vertex v d)
          = d\<lparr>vertices := remove1 v (vertices d),
               adjacency_list := map (delete_at (the (list_index (vertices d) v)))
                   (delete_at (the (list_index (vertices d) v)) (adjacency_list d))\<rparr>
      \<and> (\<forall>a b. a \<noteq> v \<and> b \<noteq> v \<longrightarrow>
            fst (DynamicGraph_has_edge a b (snd (DynamicGraph_remove_vertex v d)))
              = fst (DynamicGraph_has_edge a b d)
          \<and> fst (DynamicGraph_get_edge_weight a b (snd (DynamicGraph_remove_vertex v d)))
              = fst (DynamicGraph_get_edge_weight a b d))"
    if r: "reachable g" and m: "v \<in> set (vertices d)"
  proof -
    have sq: "square (length (vertices d)) (adjacency_list d)"
      using reachable_inv [OF r] Dynamic by (simp add: graph_inv_def dynamic_inv_def)
    obtain u where u: "list_index (vertices d) v = Some u"
      using list_index_mem [OF m] by blast
    show ?thesis
      using DynamicGraph_remove_vertex_others [OF sq u] u
      by (simp add: DynamicGraph_remove_vertex_unfold [OF sq] shrunk_def)
  qed
  show ?thesis
  proof (intro conjI impI)
    assume "v \<notin> set (vertices (base g))"
    then show "run (Remove_vertex v) g = (Inl ValueError_vertex_not_in_graph, g)"
      using Dynamic
      by (simp add: run_Remove_vertex answered_def base_simps DynamicGraph_remove_vertex_absent)
  next
    assume "reachable g \<and> v \<in> set (vertices (base g))"
    then have p: "reachable g" "v \<in> set (vertices d)" using Dynamic by (simp_all add: base_simps)
    note q = part [OF p]
    show "fst (run (Remove_vertex v) g) = Inr No_value"
      using q Dynamic by (simp add: run_Remove_vertex answered_def)
    show "vertices (base (snd (run (Remove_vertex v) g))) = remove1 v (vertices (base g))"
      "vertex_attributes (base (snd (run (Remove_vertex v) g))) = vertex_attributes (base g)"
      "edge_attributes (base (snd (run (Remove_vertex v) g))) = edge_attributes (base g)"
      using Dynamic
      by (simp_all add: run_Remove_vertex answered_def base_simps DynamicGraph_remove_vertex_frame)
    show "\<forall>d. g = Dynamic d \<longrightarrow>
              snd (run (Remove_vertex v) g)
                = Dynamic (d\<lparr>vertices := remove1 v (vertices d),
                             adjacency_list :=
                               map (delete_at (the (list_index (vertices d) v)))
                                 (delete_at (the (list_index (vertices d) v)) (adjacency_list d))\<rparr>)
              \<and> (\<forall>a b. a \<noteq> v \<and> b \<noteq> v \<longrightarrow>
                     fst (run (Has_edge a b) (snd (run (Remove_vertex v) g)))
                       = fst (run (Has_edge a b) g)
                   \<and> fst (run (Get_edge_weight a b) (snd (run (Remove_vertex v) g)))
                       = fst (run (Get_edge_weight a b) g))"
    proof (intro allI impI conjI)
      fix d' assume "g = Dynamic d'"
      then show "snd (run (Remove_vertex v) g)
                = Dynamic (d'\<lparr>vertices := remove1 v (vertices d'),
                             adjacency_list :=
                               map (delete_at (the (list_index (vertices d') v)))
                                 (delete_at (the (list_index (vertices d') v)) (adjacency_list d'))\<rparr>)"
        using q Dynamic by (simp add: run_Remove_vertex answered_def)
    next
      fix d' a b assume "g = Dynamic d'" "a \<noteq> v \<and> b \<noteq> v"
      then have "fst (DynamicGraph_has_edge a b (snd (DynamicGraph_remove_vertex v d)))
              = fst (DynamicGraph_has_edge a b d)"
        and "fst (DynamicGraph_get_edge_weight a b (snd (DynamicGraph_remove_vertex v d)))
              = fst (DynamicGraph_get_edge_weight a b d)"
        using q by blast+
      then show "fst (run (Has_edge a b) (snd (run (Remove_vertex v) g)))
                       = fst (run (Has_edge a b) g)"
        and "fst (run (Get_edge_weight a b) (snd (run (Remove_vertex v) g)))
                       = fst (run (Get_edge_weight a b) g)"
        using Dynamic
        by (simp_all add: run_Remove_vertex answered_simps run_Has_edge run_Get_edge_weight)
    qed
  qed
qed

lemma reachable_run_all: "reachable g \<Longrightarrow> reachable (snd (run_all ops g))"
proof (induction ops arbitrary: g)
  case Nil
  then show ?case by simp
next
  case (Cons op ops)
  have "reachable (snd (run op g))" by (rule reachable.step [OF Cons.prems])
  from Cons.IH [OF this] show ?case by (simp add: split_beta)
qed

theorem remove_vertex_effects_witness:
  "5 \<notin> set (vertices (base triangle_dynamic))
   \<and> run (Remove_vertex 5) triangle_dynamic = (Inl ValueError_vertex_not_in_graph, triangle_dynamic)
   \<and> reachable triangle_dynamic \<and> 2 \<in> set (vertices (base triangle_dynamic))
   \<and> fst (run (Remove_vertex 2) triangle_dynamic) = Inr No_value
   \<and> vertices (base (snd (run (Remove_vertex 2) triangle_dynamic))) = [1, 3, 4]
   \<and> vertex_attributes (base (snd (run (Remove_vertex 2) triangle_dynamic))) 2 = Some []
   \<and> edge_attributes (base (snd (run (Remove_vertex 2) triangle_dynamic))) (1, 2) = Some []
   \<and> fst (run (Get_edge_weight 3 1) (snd (run (Remove_vertex 2) triangle_dynamic)))
       = Inr (Weight (Num 1))
   \<and> reachable triangle_static \<and> 2 \<in> set (vertices (base triangle_static))
   \<and> fst (run (Remove_vertex 2) triangle_static) = Inr No_value
   \<and> vertices (base (snd (run (Remove_vertex 2) triangle_static))) = [1, 3, 4]"
proof -
  have r: "reachable triangle_dynamic"
    unfolding triangle_dynamic_def by (intro reachable_run_all reachable.init_dynamic)
  have r': "reachable triangle_static"
    unfolding triangle_static_def by (intro reachable_run_all reachable.init_static)
  have e: "5 \<notin> set (vertices (base triangle_dynamic))"
    "2 \<in> set (vertices (base triangle_dynamic))"
    "remove1 2 (vertices (base triangle_dynamic)) = [1, 3, 4]"
    "vertex_attributes (base triangle_dynamic) 2 = Some []"
    "edge_attributes (base triangle_dynamic) (1, 2) = Some []"
    "fst (run (Get_edge_weight 3 1) triangle_dynamic) = Inr (Weight (Num 1))"
    unfolding triangle_dynamic_def by code_simp+
  have e': "2 \<in> set (vertices (base triangle_static))"
    "remove1 2 (vertices (base triangle_static)) = [1, 3, 4]"
    unfolding triangle_static_def by code_simp+
  obtain d where d: "triangle_dynamic = Dynamic d"
    by (simp add: triangle_dynamic_def run_def answered_def split_beta)
  have "(3::nat) \<noteq> 2 \<and> (1::nat) \<noteq> 2" by simp
  then have "fst (run (Get_edge_weight 3 1) (snd (run (Remove_vertex 2) triangle_dynamic)))
       = fst (run (Get_edge_weight 3 1) triangle_dynamic)"
    using remove_vertex_effects [of 2 triangle_dynamic] r e(2) d by blast
  then show ?thesis
    using remove_vertex_effects [of 5 triangle_dynamic] remove_vertex_effects [of 2 triangle_dynamic]
      remove_vertex_effects [of 2 triangle_static] r r' e e'
    by simp
qed

text \<open>
  The claim as it stands fails: after \<^verbatim>\<open>remove_vertex(2)\<close> the vertex 2 is still a key of
  \<^verbatim>\<open>vertex_attributes\<close> and its edge \<open>(1, 2)\<close> still a key of \<^verbatim>\<open>edge_attributes\<close>.
\<close>

theorem remove_vertex_keeps_attributes_counterexample:
  "2 \<in> set (vertices (base triangle_dynamic))
   \<and> fst (run (Remove_vertex 2) triangle_dynamic) = Inr No_value
   \<and> vertex_attributes (base (snd (run (Remove_vertex 2) triangle_dynamic))) 2 = Some []
   \<and> edge_attributes (base (snd (run (Remove_vertex 2) triangle_dynamic))) (1, 2) = Some []"
  unfolding triangle_dynamic_def by code_simp

subsection \<open>Adding a vertex and removing it again\<close>

lemma delete_at_last: "length xs = n \<Longrightarrow> delete_at n (xs @ [x]) = xs"
  by (simp add: delete_at_def)

lemma shrunk_grown: "square n m \<Longrightarrow> shrunk n (grown m) = m"
  by (auto simp: square_def shrunk_def grown_def delete_at_last intro: map_idI)

lemma remove1_appended: "v \<notin> set xs \<Longrightarrow> remove1 v (xs @ [v]) = xs"
  by (simp add: remove1_append)

lemma run_Add_vertex:
  "run (Add_vertex v) (Static s) = answered (\<lambda>_. No_value) Static (StaticGraph_add_vertex v s)"
  "run (Add_vertex v) (Dynamic d) = answered (\<lambda>_. No_value) Dynamic (DynamicGraph_add_vertex v d)"
  by (simp_all add: run_def)

lemma DynamicGraph_add_remove_vertex:
  assumes sq: "square (length (vertices d)) (adjacency_list d)" and new: "v \<notin> set (vertices d)"
  shows "fst (DynamicGraph_add_vertex v d) = Inr ()"
    and "DynamicGraph_remove_vertex v (snd (DynamicGraph_add_vertex v d))
         = (Inr (), d\<lparr>vertex_attributes := (vertex_attributes d)(v \<mapsto> [])\<rparr>)"
proof -
  have len: "length (adjacency_list d) = length (vertices d)" using sq by (simp add: square_def)
  let ?d1 = "d\<lparr>vertex_attributes := (vertex_attributes d)(v \<mapsto> []),
                vertices := vertices d @ [v],
                adjacency_list := grown (adjacency_list d)\<rparr>"
  have d1: "DynamicGraph_add_vertex v d = (Inr (), ?d1)"
    using new by (simp add: DynamicGraph_add_vertex_unfold [OF len])
  show "fst (DynamicGraph_add_vertex v d) = Inr ()" by (simp add: d1)
  have sq1: "square (length (vertices ?d1)) (adjacency_list ?d1)"
    using square_grown [OF sq] by simp
  have "list_index (vertices ?d1) v = Some (length (vertices d))"
    using new by (simp add: list_index_append_new)
  then show "DynamicGraph_remove_vertex v (snd (DynamicGraph_add_vertex v d))
         = (Inr (), d\<lparr>vertex_attributes := (vertex_attributes d)(v \<mapsto> [])\<rparr>)"
    using new shrunk_grown [OF sq]
    by (simp add: d1 DynamicGraph_remove_vertex_unfold [OF sq1] remove1_appended)
qed

text \<open>
  C7, as amended. For a graph of either backend that a caller can have reached and a vertex
  \<open>v\<close> not in it, \<^verbatim>\<open>add_vertex(v)\<close> followed by \<^verbatim>\<open>remove_vertex(v)\<close> restores the vertex
  sequence and \<^verbatim>\<open>edge_attributes\<close>, while \<^verbatim>\<open>vertex_attributes\<close> is what it was plus an empty
  entry for \<open>v\<close>. On a DynamicGraph both calls return normally and the adjacency rows are
  restored too: the whole object is as before but for that entry.
\<close>

theorem add_then_remove_vertex:
  assumes "reachable g" and "v \<notin> set (vertices (base g))"
  shows "vertices (base (snd (run (Remove_vertex v) (snd (run (Add_vertex v) g)))))
           = vertices (base g)
       \<and> edge_attributes (base (snd (run (Remove_vertex v) (snd (run (Add_vertex v) g)))))
           = edge_attributes (base g)
       \<and> vertex_attributes (base (snd (run (Remove_vertex v) (snd (run (Add_vertex v) g)))))
           = (vertex_attributes (base g))(v \<mapsto> [])
       \<and> (\<forall>d. g = Dynamic d \<longrightarrow>
             fst (run (Add_vertex v) g) = Inr No_value
           \<and> run (Remove_vertex v) (snd (run (Add_vertex v) g))
               = (Inr No_value, Dynamic (d\<lparr>vertex_attributes := (vertex_attributes d)(v \<mapsto> [])\<rparr>)))"
proof (cases g)
  case (Static s)
  then show ?thesis using assms(2)
    by (simp add: run_Add_vertex run_Remove_vertex answered_def base_simps
          StaticGraph_add_vertex_frame StaticGraph_remove_vertex_frame remove1_appended)
next
  case (Dynamic d)
  have sq: "square (length (vertices d)) (adjacency_list d)"
    using reachable_inv [OF assms(1)] Dynamic by (simp add: graph_inv_def dynamic_inv_def)
  have new: "v \<notin> set (vertices d)" using assms(2) Dynamic by (simp add: base_simps)
  show ?thesis
    using Dynamic DynamicGraph_add_remove_vertex [OF sq new]
    by (simp add: run_Add_vertex run_Remove_vertex answered_def base_simps)
qed

theorem add_then_remove_vertex_witness:
  "reachable triangle_dynamic \<and> 7 \<notin> set (vertices (base triangle_dynamic))
   \<and> vertices (base (snd (run (Remove_vertex 7) (snd (run (Add_vertex 7) triangle_dynamic)))))
       = [1, 2, 3, 4]
   \<and> vertex_attributes
        (base (snd (run (Remove_vertex 7) (snd (run (Add_vertex 7) triangle_dynamic))))) 7
       = Some []
   \<and> fst (run (Add_vertex 7) triangle_dynamic) = Inr No_value
   \<and> fst (run (Remove_vertex 7) (snd (run (Add_vertex 7) triangle_dynamic))) = Inr No_value"
proof -
  have r: "reachable triangle_dynamic"
    unfolding triangle_dynamic_def by (intro reachable_run_all reachable.init_dynamic)
  have e: "7 \<notin> set (vertices (base triangle_dynamic))"
    "vertices (base triangle_dynamic) = [1, 2, 3, 4]"
    unfolding triangle_dynamic_def by code_simp+
  obtain d where d: "triangle_dynamic = Dynamic d"
    by (simp add: triangle_dynamic_def run_def answered_def split_beta)
  have "fst (run (Add_vertex 7) triangle_dynamic) = Inr No_value
      \<and> run (Remove_vertex 7) (snd (run (Add_vertex 7) triangle_dynamic))
          = (Inr No_value, Dynamic (d\<lparr>vertex_attributes := (vertex_attributes d)(7 \<mapsto> [])\<rparr>))"
    using add_then_remove_vertex [OF r e(1)] d by blast
  then have dyn: "fst (run (Add_vertex 7) triangle_dynamic) = Inr No_value"
    "fst (run (Remove_vertex 7) (snd (run (Add_vertex 7) triangle_dynamic))) = Inr No_value"
    by simp_all
  show ?thesis
    using add_then_remove_vertex [OF r e(1)] r e dyn by simp
qed

text \<open>
  The claim as it stands fails: vertex 7 has no entry in \<^verbatim>\<open>vertex_attributes\<close> before the
  two calls and an empty one after them.
\<close>

theorem add_then_remove_vertex_counterexample:
  "7 \<notin> set (vertices (base triangle_dynamic))
   \<and> vertex_attributes (base triangle_dynamic) 7 = None
   \<and> vertex_attributes
        (base (snd (run (Remove_vertex 7) (snd (run (Add_vertex 7) triangle_dynamic))))) 7
       = Some []"
  unfolding triangle_dynamic_def by code_simp

subsection \<open>Keys of the vertex attributes\<close>

lemma run_keeps_keys:
  assumes "\<And>v. op \<noteq> Remove_vertex v"
    and "dom (vertex_attributes (base g)) = set (vertices (base g))"
  shows "dom (vertex_attributes (base (snd (run op g))))
         = set (vertices (base (snd (run op g))))"
proof (cases g)
  case (Static s)
  have eq: "dom (vertex_attributes s) = set (vertices s)"
    using assms(2) Static by (simp add: base_simps)
  show ?thesis
  proof (cases op)
    case (Remove_vertex v)
    then show ?thesis using assms(1) by simp
  next
    case (Remove_edge v1 v2)
    then show ?thesis using Static assms(2) base_remove_edge(1) [of v1 v2 s]
      by (simp add: run_def answered_simps)
  qed (use Static eq in \<open>auto simp: run_def answered_simps base_simps query_state
        StaticGraph_query_state StaticGraph_add_vertex_frame StaticGraph_add_edge_frame
        set_vertex_attribute_frame set_edge_attribute_frame\<close>)
next
  case (Dynamic d)
  have eq: "dom (vertex_attributes d) = set (vertices d)"
    using assms(2) Dynamic by (simp add: base_simps)
  show ?thesis
  proof (cases op)
    case (Remove_vertex v)
    then show ?thesis using assms(1) by simp
  next
    case (Remove_edge v1 v2)
    then show ?thesis using Dynamic assms(2) base_remove_edge(2) [of v1 v2 d]
      by (simp add: run_def answered_simps)
  qed (use Dynamic eq in \<open>auto simp: run_def answered_simps base_simps query_state
        DynamicGraph_query_state DynamicGraph_add_vertex_frame DynamicGraph_add_edge_frame
        set_vertex_attribute_frame set_edge_attribute_frame\<close>)
qed

lemma run_Remove_vertex_attributes:
  "vertex_attributes (base (snd (run (Remove_vertex v) g))) = vertex_attributes (base g)"
  by (cases g)
     (simp_all add: run_Remove_vertex answered_simps base_simps StaticGraph_remove_vertex_frame
        DynamicGraph_remove_vertex_frame)

lemma StaticGraph_from_base:
  assumes "StaticGraph_from src = Inr s"
  shows "vertices s = vertices (base src) \<and> vertex_attributes s = vertex_attributes (base src)"
proof -
  let ?P = "\<lambda>self :: 'a StaticGraph. vertices self = vertices (base src)
                 \<and> vertex_attributes self = vertex_attributes (base src)"
  obtain es :: "('a \<times> 'a \<times> weight) list" and self0 where loop: "for_each es
        (\<lambda>edge self. case StaticGraph_add_edge (fst edge) (fst (snd edge)) (Num 1) self of
                        (Inl e, _) \<Rightarrow> Inl e | (Inr _, self') \<Rightarrow> Inr self') self0 = Inr s"
    and start: "?P self0"
  proof (cases "edges src")
    case (Inl e)
    then show ?thesis using assms by (simp add: StaticGraph_from_def)
  next
    case (Inr es)
    show ?thesis
      by (rule that [of es])
         (use assms Inr in \<open>simp add: StaticGraph_from_def Let_def\<close>, simp)
  qed
  show ?thesis
  proof (rule for_each_inv [OF loop, where P = ?P])
    show "?P self0" by (rule start)
  next
    fix x a a'
    assume a: "?P a"
      and b: "(case StaticGraph_add_edge (fst x) (fst (snd x)) (Num 1) a of
                 (Inl e, _) \<Rightarrow> Inl e | (Inr _, self') \<Rightarrow> Inr self') = Inr a'"
    have "a' = snd (StaticGraph_add_edge (fst x) (fst (snd x)) (Num 1) a)"
      using b by (auto split: prod.splits sum.splits)
    then show "?P a'" using a by (simp add: StaticGraph_add_edge_frame)
  qed
qed

lemma DynamicGraph_from_base:
  assumes "DynamicGraph_from src = Inr d"
  shows "vertices d = vertices (base src) \<and> vertex_attributes d = vertex_attributes (base src)"
proof -
  let ?P = "\<lambda>self :: 'a DynamicGraph. vertices self = vertices (base src)
                 \<and> vertex_attributes self = vertex_attributes (base src)"
  obtain es :: "('a \<times> 'a \<times> weight) list" and self0 where loop: "for_each es
        (\<lambda>edge self. case DynamicGraph_add_edge (fst edge) (fst (snd edge)) (Num 1) self of
                        (Inl e, _) \<Rightarrow> Inl e | (Inr _, self') \<Rightarrow> Inr self') self0 = Inr d"
    and start: "?P self0"
  proof (cases "edges src")
    case (Inl e)
    then show ?thesis using assms by (simp add: DynamicGraph_from_def)
  next
    case (Inr es)
    show ?thesis
      by (rule that [of es])
         (use assms Inr in \<open>simp add: DynamicGraph_from_def Let_def\<close>, simp)
  qed
  show ?thesis
  proof (rule for_each_inv [OF loop, where P = ?P])
    show "?P self0" by (rule start)
  next
    fix x a a'
    assume a: "?P a"
      and b: "(case DynamicGraph_add_edge (fst x) (fst (snd x)) (Num 1) a of
                 (Inl e, _) \<Rightarrow> Inl e | (Inr _, self') \<Rightarrow> Inr self') = Inr a'"
    have "a' = snd (DynamicGraph_add_edge (fst x) (fst (snd x)) (Num 1) a)"
      using b by (auto split: prod.splits sum.splits)
    then show "?P a'" using a by (simp add: DynamicGraph_add_edge_frame)
  qed
qed

lemma init_keys:
  "dom (vertex_attributes (StaticGraph_init dir vs)) = set (vertices (StaticGraph_init dir vs))"
  "dom (vertex_attributes (DynamicGraph_init dir vs)) = set (vertices (DynamicGraph_init dir vs))"
  by (simp_all add: StaticGraph_init_def DynamicGraph_init_def dom_fold_empty_attrs)

lemma graph_keys:
  assumes "graph static source dir vs = Inr g"
    and "\<And>src. source = Some src \<Longrightarrow>
           dom (vertex_attributes (base src)) = set (vertices (base src))"
  shows "dom (vertex_attributes (base g)) = set (vertices (base g))"
proof (cases source)
  case None
  then have "g = Static (StaticGraph_init dir vs) \<or> g = Dynamic (DynamicGraph_init dir vs)"
    using assms(1) by (cases static) (auto simp: graph_def)
  then show ?thesis by (elim disjE) (simp_all add: base_simps init_keys)
next
  case (Some src)
  show ?thesis
  proof (cases static)
    case True
    then obtain s where "StaticGraph_from src = Inr s" "g = Static s"
      using assms(1) Some by (cases "StaticGraph_from src") (auto simp: graph_def)
    then show ?thesis using StaticGraph_from_base [of src s] assms(2) [OF Some]
      by (simp add: base_simps)
  next
    case False
    then obtain d where "DynamicGraph_from src = Inr d" "g = Dynamic d"
      using assms(1) Some by (cases "DynamicGraph_from src") (auto simp: graph_def)
    then show ?thesis using DynamicGraph_from_base [of src d] assms(2) [OF Some]
      by (simp add: base_simps)
  qed
qed

lemma copy_keys:
  assumes "copy g = Inr g'"
  shows "dom (vertex_attributes (base g')) = set (vertices (base g'))"
proof (cases g)
  case (Static s)
  then obtain s' where "StaticGraph_copy s = Inr s'" "g' = Static s'"
    using assms by (cases "StaticGraph_copy s") (auto simp: copy_def)
  then show ?thesis using StaticGraph_copy_result [of s s'] by (simp add: base_simps init_keys)
next
  case (Dynamic d)
  then obtain d' where "DynamicGraph_copy d = Inr d'" "g' = Dynamic d'"
    using assms by (cases "DynamicGraph_copy d") (auto simp: copy_def)
  then show ?thesis using DynamicGraph_copy_result [of d d'] by (simp add: base_simps init_keys)
qed

text \<open>
  C3, as amended. For either backend: a graph made by the factory has the key set of
  \<^verbatim>\<open>vertex_attributes\<close> equal to the set of its vertices (when it is made from a source
  graph: if the source has); a graph returned by \<^verbatim>\<open>__copy__\<close> has; every public operation
  other than \<^verbatim>\<open>remove_vertex\<close>, whether it returns or raises, leaves the two equal if they
  were; \<^verbatim>\<open>remove_vertex\<close> leaves \<^verbatim>\<open>vertex_attributes\<close> as it was; and in every graph a caller
  can have reached, every vertex of the vertex sequence is a key of \<^verbatim>\<open>vertex_attributes\<close>.
\<close>

theorem vertex_attributes_keys:
  "(graph static source dir vs = Inr g1
      \<and> (\<forall>src. source = Some src \<longrightarrow>
             dom (vertex_attributes (base src)) = set (vertices (base src)))
      \<longrightarrow> dom (vertex_attributes (base g1)) = set (vertices (base g1)))
   \<and> (copy g = Inr g2 \<longrightarrow> dom (vertex_attributes (base g2)) = set (vertices (base g2)))
   \<and> ((\<forall>v. op \<noteq> Remove_vertex v)
        \<and> dom (vertex_attributes (base g)) = set (vertices (base g))
      \<longrightarrow> dom (vertex_attributes (base (snd (run op g))))
          = set (vertices (base (snd (run op g)))))
   \<and> vertex_attributes (base (snd (run (Remove_vertex v) g))) = vertex_attributes (base g)
   \<and> (reachable g \<longrightarrow> set (vertices (base g)) \<subseteq> dom (vertex_attributes (base g)))"
proof (intro conjI impI)
  assume "graph static source dir vs = Inr g1
      \<and> (\<forall>src. source = Some src \<longrightarrow>
             dom (vertex_attributes (base src)) = set (vertices (base src)))"
  then show "dom (vertex_attributes (base g1)) = set (vertices (base g1))"
    using graph_keys [of static source dir vs g1] by blast
next
  assume "copy g = Inr g2"
  then show "dom (vertex_attributes (base g2)) = set (vertices (base g2))"
    by (rule copy_keys)
next
  assume "(\<forall>v. op \<noteq> Remove_vertex v)
        \<and> dom (vertex_attributes (base g)) = set (vertices (base g))"
  then show "dom (vertex_attributes (base (snd (run op g))))
          = set (vertices (base (snd (run op g))))"
    using run_keeps_keys [of op g] by blast
next
  show "vertex_attributes (base (snd (run (Remove_vertex v) g))) = vertex_attributes (base g)"
    by (rule run_Remove_vertex_attributes)
next
  assume "reachable g"
  then show "set (vertices (base g)) \<subseteq> dom (vertex_attributes (base g))"
    using reachable_inv [of g] by (simp add: graph_inv_def)
qed

theorem vertex_attributes_keys_witness:
  "graph True None False [1::nat, 2] = Inr static_pair
   \<and> dom (vertex_attributes (base static_pair)) = set (vertices (base static_pair))
   \<and> dom (vertex_attributes (base (snd (run (Add_vertex 1) static_pair))))
       = set (vertices (base (snd (run (Add_vertex 1) static_pair))))
   \<and> dom (vertex_attributes (base (snd (run (Add_vertex 9) static_pair))))
       = set (vertices (base (snd (run (Add_vertex 9) static_pair))))
   \<and> reachable (snd (run (Remove_vertex 2) triangle_dynamic))
   \<and> set (vertices (base (snd (run (Remove_vertex 2) triangle_dynamic))))
       \<subseteq> dom (vertex_attributes (base (snd (run (Remove_vertex 2) triangle_dynamic))))"
proof -
  have f: "graph True None False [1::nat, 2] = Inr static_pair"
    by (simp add: graph_def static_pair_def)
  have k: "dom (vertex_attributes (base static_pair)) = set (vertices (base static_pair))"
    by (rule vertex_attributes_keys [where static = True and source = None and dir = False
          and vs = "[1, 2]" and ?g1.0 = static_pair, THEN conjunct1, rule_format])
       (use f in auto)
  have r: "reachable (snd (run (Remove_vertex 2) triangle_dynamic))"
    unfolding triangle_dynamic_def
    by (intro reachable.step reachable_run_all reachable.init_dynamic)
  have a1: "dom (vertex_attributes (base (snd (run (Add_vertex 1) static_pair))))
       = set (vertices (base (snd (run (Add_vertex 1) static_pair))))"
    by (rule vertex_attributes_keys [where op = "Add_vertex 1" and g = static_pair,
          THEN conjunct2, THEN conjunct2, THEN conjunct1, rule_format])
       (use k in auto)
  have a9: "dom (vertex_attributes (base (snd (run (Add_vertex 9) static_pair))))
       = set (vertices (base (snd (run (Add_vertex 9) static_pair))))"
    by (rule vertex_attributes_keys [where op = "Add_vertex 9" and g = static_pair,
          THEN conjunct2, THEN conjunct2, THEN conjunct1, rule_format])
       (use k in auto)
  have s: "set (vertices (base (snd (run (Remove_vertex 2) triangle_dynamic))))
       \<subseteq> dom (vertex_attributes (base (snd (run (Remove_vertex 2) triangle_dynamic))))"
    by (rule vertex_attributes_keys [where g = "snd (run (Remove_vertex 2) triangle_dynamic)",
          THEN conjunct2, THEN conjunct2, THEN conjunct2, THEN conjunct2, rule_format])
       (rule r)
  show ?thesis by (intro conjI f k a1 a9 r s)
qed

text \<open>
  The claim as it stands fails: after \<^verbatim>\<open>remove_vertex(1)\<close> on the graph with the one vertex
  1 the vertex sequence is empty and 1 is still a key of \<^verbatim>\<open>vertex_attributes\<close>.
\<close>

theorem vertex_attributes_keys_counterexample:
  "fst (run (Remove_vertex 1) (Dynamic (DynamicGraph_init False [1::nat]))) = Inr No_value
   \<and> vertices (base (snd (run (Remove_vertex 1) (Dynamic (DynamicGraph_init False [1::nat])))))
       = []
   \<and> vertex_attributes
        (base (snd (run (Remove_vertex 1) (Dynamic (DynamicGraph_init False [1::nat]))))) 1
       = Some []"
  by code_simp

subsection \<open>Where the code goes wrong\<close>

text \<open>
  C6. The code does not do what the claim says when \<open>v\<close> is already present:
  \<^verbatim>\<open>add_vertex('a')\<close> on a graph in which \<open>'a'\<close> has the attribute \<open>color = red\<close> raises the
  "already in graph" \<^verbatim>\<open>ValueError\<close>, and has emptied the attributes of \<open>'a'\<close> by then, on
  both backends.
\<close>

theorem add_vertex_duplicate_resets_attributes:
  "fst (run (Get_vertex_attribute ''a'' ''color'')
         (snd (run (Set_vertex_attribute ''a'' ''color'' ''red'')
                (Dynamic (DynamicGraph_init False [''a''])))))
     = Inr (Attribute ''red'')
   \<and> fst (run (Add_vertex ''a'')
         (snd (run (Set_vertex_attribute ''a'' ''color'' ''red'')
                (Dynamic (DynamicGraph_init False [''a''])))))
     = Inl ValueError_already_in_graph
   \<and> fst (run (Get_vertex_attribute ''a'' ''color'')
         (snd (run (Add_vertex ''a'')
           (snd (run (Set_vertex_attribute ''a'' ''color'' ''red'')
                  (Dynamic (DynamicGraph_init False [''a''])))))))
     = Inl KeyError
   \<and> fst (run (Add_vertex ''a'')
         (snd (run (Set_vertex_attribute ''a'' ''color'' ''red'')
                (Static (StaticGraph_init False [''a''])))))
     = Inl ValueError_already_in_graph
   \<and> fst (run (Get_vertex_attribute ''a'' ''color'')
         (snd (run (Add_vertex ''a'')
           (snd (run (Set_vertex_attribute ''a'' ''color'' ''red'')
                  (Static (StaticGraph_init False [''a''])))))))
     = Inl KeyError"
  by code_simp

text \<open>
  C2. The code does not do what the claim says. For the directed StaticGraph with the one
  edge \<open>(1, 2)\<close> of weight 2.5: \<^verbatim>\<open>__copy__\<close> raises \<^verbatim>\<open>KeyError\<close>, and the constructor with
  this graph as its source makes a graph in which the edge has weight 1.0. The same holds
  for a DynamicGraph.
\<close>

theorem copy_loses_weights:
  "fst (run (Get_edge_weight 1 2)
         (snd (run (Add_edge 1 2 (Num 2.5)) (Static (StaticGraph_init True [1::nat, 2])))))
     = Inr (Weight (Num 2.5))
   \<and> map_sum id (\<lambda>_. ())
        (copy (snd (run (Add_edge 1 2 (Num 2.5)) (Static (StaticGraph_init True [1::nat, 2])))))
     = Inl KeyError
   \<and> map_sum id (\<lambda>s. fst (StaticGraph_get_edge_weight 1 2 s))
        (StaticGraph_from
          (snd (run (Add_edge 1 2 (Num 2.5)) (Static (StaticGraph_init True [1::nat, 2])))))
     = Inr (Inr (Num 1))
   \<and> map_sum id (\<lambda>_. ())
        (copy (snd (run (Add_edge 1 2 (Num 2.5)) (Dynamic (DynamicGraph_init True [1::nat, 2])))))
     = Inl KeyError
   \<and> map_sum id (\<lambda>d. fst (DynamicGraph_get_edge_weight 1 2 d))
        (DynamicGraph_from
          (snd (run (Add_edge 1 2 (Num 2.5)) (Dynamic (DynamicGraph_init True [1::nat, 2])))))
     = Inr (Inr (Num 1))"
  by code_simp

text \<open>
  C10. The code does not do what the claim says. The same three calls on an undirected graph
  with the vertices 1, 2, 3 (\<^verbatim>\<open>add_edge(1, 2)\<close>, \<^verbatim>\<open>remove_vertex(1)\<close>, \<^verbatim>\<open>has_edge(2, 3)\<close>) end
  with the answer True on a StaticGraph and False on a DynamicGraph; and after
  \<^verbatim>\<open>add_vertex(4)\<close>, \<^verbatim>\<open>add_edge(4, 1)\<close> raises \<^verbatim>\<open>IndexError\<close> on a StaticGraph and returns on
  a DynamicGraph.
\<close>

theorem backends_disagree:
  "fst (run_all [Add_edge 1 2 (Num 1), Remove_vertex 1, Has_edge 2 3]
         (Static (StaticGraph_init False [1::nat, 2, 3])))
     = [Inr No_value, Inr No_value, Inr (Truth True)]
   \<and> fst (run_all [Add_edge 1 2 (Num 1), Remove_vertex 1, Has_edge 2 3]
         (Dynamic (DynamicGraph_init False [1::nat, 2, 3])))
     = [Inr No_value, Inr No_value, Inr (Truth False)]
   \<and> fst (run_all [Add_vertex 4, Add_edge 4 1 (Num 1)]
         (Static (StaticGraph_init False [1::nat, 2, 3])))
     = [Inr No_value, Inl IndexError]
   \<and> fst (run_all [Add_vertex 4, Add_edge 4 1 (Num 1)]
         (Dynamic (DynamicGraph_init False [1::nat, 2, 3])))
     = [Inr No_value, Inr No_value]"
  by code_simp

subsection \<open>The enumeration of undirected edges keeps the cells on or above the diagonal\<close>

lemma labelled_inj:
  "labelled vs rd \<Longrightarrow> rd i j \<noteq> None \<Longrightarrow> rd i' j' \<noteq> None \<Longrightarrow>
   vs ! i = vs ! i' \<Longrightarrow> i = i'"
  unfolding labelled_def by (metis option.inject)

lemma labelled_inj2:
  "labelled vs rd \<Longrightarrow> rd i j \<noteq> None \<Longrightarrow> rd i' j' \<noteq> None \<Longrightarrow>
   vs ! j = vs ! j' \<Longrightarrow> j = j'"
  unfolding labelled_def by (metis option.inject)

lemma labelled_inj12:
  "labelled vs rd \<Longrightarrow> rd i j \<noteq> None \<Longrightarrow> rd i' j' \<noteq> None \<Longrightarrow>
   vs ! i = vs ! j' \<Longrightarrow> i = j'"
  unfolding labelled_def by (metis option.inject)

lemma edge_found_iff:
  "edge_found acc (x, y, w) \<longleftrightarrow> (\<exists>w'. (y, x, w') \<in> set acc)"
  by (force simp: edge_found_def list_ex_iff)

lemma upperI:
  "(i < u \<or> (i = u \<and> j < v)) \<Longrightarrow> i \<le> j \<Longrightarrow> j < length vs \<Longrightarrow> rd i j = Some w
   \<Longrightarrow> (vs ! i, vs ! j, w) \<in> upper vs rd u v"
  unfolding upper_def by blast

lemma upper_next_row: "upper vs rd u (length vs) = upper vs rd (Suc u) 0"
  unfolding upper_def by (auto simp: less_Suc_eq)

lemma scan_step_upper:
  assumes lab: "labelled vs rd" and acc: "set acc = upper vs rd u v"
  shows "set (scan_step vs rd u v acc) = upper vs rd u (Suc v)"
proof (cases "rd u v")
  case None
  have "upper vs rd u (Suc v) = upper vs rd u v"
    unfolding upper_def using None by (auto simp: less_Suc_eq)
  then show ?thesis using None acc by (simp add: scan_step_def)
next
  case (Some w)
  have d: "rd u v \<noteq> None" using Some by simp
  have ul: "u < length vs" and vl: "v < length vs" and sym: "rd v u = Some w"
    using lab d Some unfolding labelled_def by metis+
  show ?thesis
  proof (cases "u \<le> v")
    case True
    have "\<not> edge_found acc (vs ! u, vs ! v, w)"
    proof
      assume "edge_found acc (vs ! u, vs ! v, w)"
      then obtain w' where "(vs ! v, vs ! u, w') \<in> upper vs rd u v"
        using acc by (auto simp: edge_found_iff)
      then obtain i j where ij: "vs ! v = vs ! i" "vs ! u = vs ! j"
          "i < u \<or> (i = u \<and> j < v)" "i \<le> j" "rd i j = Some w'"
        unfolding upper_def by auto
      have d': "rd i j \<noteq> None" using ij(5) by simp
      have dvu: "rd v u \<noteq> None" using sym by simp
      have "v = i" using labelled_inj [OF lab dvu d' ij(1)] .
      moreover have "u = j" using labelled_inj2 [OF lab dvu d' ij(2)] .
      ultimately show False using ij(3,4) True by auto
    qed
    moreover have "upper vs rd u (Suc v) = insert (vs ! u, vs ! v, w) (upper vs rd u v)"
      unfolding upper_def using Some True vl by (auto simp: less_Suc_eq)
    ultimately show ?thesis using Some acc by (simp add: scan_step_def)
  next
    case False
    then have vu: "v < u" by simp
    have "(vs ! v, vs ! u, w) \<in> upper vs rd u v"
      using vu sym ul by (intro upperI) auto
    then have "edge_found acc (vs ! u, vs ! v, w)"
      using acc by (auto simp: edge_found_iff)
    moreover have "upper vs rd u (Suc v) = upper vs rd u v"
      unfolding upper_def using False by (auto simp: less_Suc_eq)
    ultimately show ?thesis using Some acc by (simp add: scan_step_def)
  qed
qed

lemma scan_row_upper:
  assumes lab: "labelled vs rd" and acc: "set acc = upper vs rd u 0"
  shows "set (fold (\<lambda>v. scan_step vs rd u v) [0..<k] acc) = upper vs rd u k"
proof (induction k)
  case 0
  then show ?case using acc by simp
next
  case (Suc k)
  show ?case using scan_step_upper [OF lab Suc.IH] by simp
qed

lemma scan_rows_upper:
  assumes lab: "labelled vs rd"
  shows "set (fold (\<lambda>u. fold (\<lambda>v. scan_step vs rd u v) [0..<length vs]) [0..<k] [])
         = upper vs rd k 0"
proof (induction k)
  case 0
  show ?case by (simp add: upper_def)
next
  case (Suc k)
  show ?case using scan_row_upper [OF lab Suc.IH, of "length vs"] by (simp add: upper_next_row)
qed

lemma set_scan:
  assumes "labelled vs rd"
  shows "set (scan vs rd)
         = {(vs ! i, vs ! j, w) | i j w. i \<le> j \<and> rd i j = Some w}"
proof -
  have "upper vs rd (length vs) 0 = {(vs ! i, vs ! j, w) | i j w. i \<le> j \<and> rd i j = Some w}"
    unfolding upper_def using assms unfolding labelled_def by (auto; metis option.distinct(1))
  then show ?thesis using scan_rows_upper [OF assms, of "length vs"] by (simp add: scan_def)
qed

subsection \<open>Both backends enumerate their edges that way\<close>

lemma for_each_fold:
  assumes "\<And>x a. x \<in> set xs \<Longrightarrow> body x a = Inr (f x a)"
  shows "for_each xs body acc = Inr (fold f xs acc)"
  using assms by (induction xs arbitrary: acc) auto

lemma DynamicGraph_edges_scan:
  assumes sq: "square (length (vertices d)) (adjacency_list d)" and und: "\<not> directed d"
  shows "DynamicGraph_edges d = Inr (scan (vertices d) (dynamic_cell (adjacency_list d)))"
proof -
  let ?n = "length (vertices d)"
  have inner: "(case getitem2 (adjacency_list d) u v of
              Inl e \<Rightarrow> Inl e
            | Inr None \<Rightarrow> Inr acc
            | Inr (Some edge_weight) \<Rightarrow>
                if edge_found acc (vertices d ! u, vertices d ! v, edge_weight) then Inr acc
                else Inr (List.insert (vertices d ! u, vertices d ! v, edge_weight) acc))
         = Inr (scan_step (vertices d) (dynamic_cell (adjacency_list d)) u v acc)"
    if "u \<in> set [0..<?n]" "v \<in> set [0..<?n]" for u v acc
    using that square_getitem2 [OF sq, of u v]
    by (cases "adjacency_list d ! u ! v") (simp_all add: scan_step_def dynamic_cell_def)
  have row: "for_each [0..<?n] (\<lambda>v edges.
            case getitem2 (adjacency_list d) u v of
              Inl e \<Rightarrow> Inl e
            | Inr None \<Rightarrow> Inr edges
            | Inr (Some edge_weight) \<Rightarrow>
                if edge_found edges (vertices d ! u, vertices d ! v, edge_weight) then Inr edges
                else Inr (List.insert (vertices d ! u, vertices d ! v, edge_weight) edges)) acc
        = Inr (fold (\<lambda>v. scan_step (vertices d) (dynamic_cell (adjacency_list d)) u v) [0..<?n] acc)"
    if "u \<in> set [0..<?n]" for u acc
    by (rule for_each_fold) (rule inner [OF that])
  have "for_each [0..<?n] (\<lambda>u. for_each [0..<?n] (\<lambda>v edges.
            case getitem2 (adjacency_list d) u v of
              Inl e \<Rightarrow> Inl e
            | Inr None \<Rightarrow> Inr edges
            | Inr (Some edge_weight) \<Rightarrow>
                if edge_found edges (vertices d ! u, vertices d ! v, edge_weight) then Inr edges
                else Inr (List.insert (vertices d ! u, vertices d ! v, edge_weight) edges))) []
        = Inr (scan (vertices d) (dynamic_cell (adjacency_list d)))"
    unfolding scan_def by (rule for_each_fold) (rule row)
  then show ?thesis using und unfolding DynamicGraph_edges_def Let_def by simp
qed

lemma StaticGraph_edges_scan:
  assumes sq: "square (length (vertices s)) (the_view s)" and und: "\<not> directed s"
  shows "StaticGraph_edges s = Inr (scan (vertices s) (static_cell (the_view s)))"
proof -
  let ?n = "length (vertices s)"
  have inner: "(case getitem2 (the_view s) u v of
              Inl e \<Rightarrow> Inl e
            | Inr edge_weight \<Rightarrow>
                if \<not> isnan edge_weight
                then (if edge_found acc (vertices s ! u, vertices s ! v, edge_weight) then Inr acc
                      else Inr (List.insert (vertices s ! u, vertices s ! v, edge_weight) acc))
                else Inr acc)
         = Inr (scan_step (vertices s) (static_cell (the_view s)) u v acc)"
    if "u \<in> set [0..<?n]" "v \<in> set [0..<?n]" for u v acc
    using that square_getitem2 [OF sq, of u v]
    by (simp add: scan_step_def static_cell_def)
  have row: "for_each [0..<?n] (\<lambda>v edges.
            case getitem2 (the_view s) u v of
              Inl e \<Rightarrow> Inl e
            | Inr edge_weight \<Rightarrow>
                if \<not> isnan edge_weight
                then (if edge_found edges (vertices s ! u, vertices s ! v, edge_weight)
                      then Inr edges
                      else Inr (List.insert (vertices s ! u, vertices s ! v, edge_weight) edges))
                else Inr edges) acc
        = Inr (fold (\<lambda>v. scan_step (vertices s) (static_cell (the_view s)) u v) [0..<?n] acc)"
    if "u \<in> set [0..<?n]" for u acc
    by (rule for_each_fold) (rule inner [OF that])
  have "for_each [0..<?n] (\<lambda>u. for_each [0..<?n] (\<lambda>v edges.
            case getitem2 (the_view s) u v of
              Inl e \<Rightarrow> Inl e
            | Inr edge_weight \<Rightarrow>
                if \<not> isnan edge_weight
                then (if edge_found edges (vertices s ! u, vertices s ! v, edge_weight)
                      then Inr edges
                      else Inr (List.insert (vertices s ! u, vertices s ! v, edge_weight) edges))
                else Inr edges)) []
        = Inr (scan (vertices s) (static_cell (the_view s)))"
    unfolding scan_def by (rule for_each_fold) (rule row)
  then show ?thesis using und unfolding StaticGraph_edges_def Let_def by simp
qed

subsection \<open>The cells after a list of add-edge calls\<close>

lemma DynamicGraph_add_edge_cells:
  assumes inv: "dynamic_inv d" and und: "\<not> directed d"
    and i: "list_index (vertices d) a = Some i" and j: "list_index (vertices d) b = Some j"
  shows "fst (DynamicGraph_add_edge a b w d) = Inr ()"
    and "dynamic_cell (adjacency_list (snd (DynamicGraph_add_edge a b w d)))
         = put_edge i j w (dynamic_cell (adjacency_list d))"
proof -
  obtain m1 m2 where m1: "setitem2 (adjacency_list d) i j (Some w) = Inr m1"
    and m2: "setitem2 m1 j i (Some w) = Inr m2"
    using d_write_pair [OF inv, of i j "Some w"] list_index_Some [OF i] list_index_Some [OF j]
    by blast
  have r: "DynamicGraph_add_edge a b w d
        = (Inr (), d\<lparr>edge_attributes := (edge_attributes d)((a, b) \<mapsto> []),
                      adjacency_list := m2\<rparr>)"
    using i j m1 m2 und
    by (simp add: DynamicGraph_add_edge_def get_vertex_int_def d_setitem_def method_defs)
  show "fst (DynamicGraph_add_edge a b w d) = Inr ()" by (simp add: r)
  have g: "getitem2 m2 x y =
      (if x = j \<and> y = i then Inr (Some w)
       else if x = i \<and> y = j then Inr (Some w) else getitem2 (adjacency_list d) x y)" for x y
    by (subst getitem2_setitem2 [OF m2], subst getitem2_setitem2 [OF m1]) (rule refl)
  have "dynamic_cell m2 x y = put_edge i j w (dynamic_cell (adjacency_list d)) x y" for x y
    unfolding dynamic_cell_def put_edge_def g
    by (cases "x = i"; cases "y = j"; cases "x = j"; cases "y = i"; simp)
  then show "dynamic_cell (adjacency_list (snd (DynamicGraph_add_edge a b w d)))
         = put_edge i j w (dynamic_cell (adjacency_list d))"
    by (simp add: r fun_eq_iff)
qed

lemma StaticGraph_add_edge_cells:
  assumes sq: "square (length (vertices s)) (the_view s)" and und: "\<not> directed s"
    and i: "list_index (vertices s) a = Some i" and j: "list_index (vertices s) b = Some j"
    and w: "\<not> isnan w"
  shows "fst (StaticGraph_add_edge a b w s) = Inr ()"
    and "static_cell (the_view (snd (StaticGraph_add_edge a b w s)))
         = put_edge i j w (static_cell (the_view s))"
    and "square (length (vertices s)) (the_view (snd (StaticGraph_add_edge a b w s)))"
proof -
  let ?n = "length (vertices s)"
  obtain m1 where m1: "setitem2 (the_view s) i j w = Inr m1"
    using setitem2_in_range [OF sq] list_index_Some [OF i] list_index_Some [OF j] by blast
  have sq1: "square ?n m1" by (rule setitem2_square [OF m1 sq])
  obtain m2 where m2: "setitem2 m1 j i w = Inr m2"
    using setitem2_in_range [OF sq1] list_index_Some [OF i] list_index_Some [OF j] by blast
  have sq2: "square ?n m2" by (rule setitem2_square [OF m2 sq1])
  have r: "StaticGraph_add_edge a b w s
        = (Inr (), s\<lparr>edge_attributes := (edge_attributes s)((a, b) \<mapsto> []),
                      ndarrays := (ndarrays s)(adjacency_matrix_view s := m2)\<rparr>)"
    using i j m1 m2 und
    by (simp add: StaticGraph_add_edge_def get_vertex_int_def s_setitem_def method_defs
          the_view_def)
  show "fst (StaticGraph_add_edge a b w s) = Inr ()" by (simp add: r)
  show "square ?n (the_view (snd (StaticGraph_add_edge a b w s)))"
    using sq2 by (simp add: r the_view_def)
  have g: "getitem2 m2 x y =
      (if x = j \<and> y = i then Inr w
       else if x = i \<and> y = j then Inr w else getitem2 (the_view s) x y)" for x y
    by (subst getitem2_setitem2 [OF m2], subst getitem2_setitem2 [OF m1]) (rule refl)
  have "static_cell m2 x y = put_edge i j w (static_cell (the_view s)) x y" for x y
    unfolding static_cell_def put_edge_def g using w
    by (cases "x = i"; cases "y = j"; cases "x = j"; cases "y = i"; simp)
  then show "static_cell (the_view (snd (StaticGraph_add_edge a b w s)))
         = put_edge i j w (static_cell (the_view s))"
    by (simp add: r fun_eq_iff the_view_def)
qed

lemma dynamic_calls:
  assumes "dynamic_inv d" "\<not> directed d"
    and "\<forall>(a, b, w) \<in> set es. a \<in> set (vertices d) \<and> b \<in> set (vertices d)"
  shows "\<exists>d'. run_all (add_edge_calls es) (Dynamic d)
              = (replicate (length es) (Inr No_value), Dynamic d')
          \<and> vertices d' = vertices d \<and> \<not> directed d' \<and> dynamic_inv d'
          \<and> dynamic_cell (adjacency_list d')
              = cells_after (vertices d) es (dynamic_cell (adjacency_list d))"
  using assms
proof (induction es arbitrary: d)
  case Nil
  then show ?case by (simp add: add_edge_calls_def)
next
  case (Cons e es)
  obtain a b w where e: "e = (a, b, w)" by (cases e)
  obtain i j where i: "list_index (vertices d) a = Some i"
    and j: "list_index (vertices d) b = Some j"
    using Cons.prems(3) e list_index_mem [of a "vertices d"] list_index_mem [of b "vertices d"]
    by auto
  let ?d1 = "snd (DynamicGraph_add_edge a b w d)"
  note c = DynamicGraph_add_edge_cells [OF Cons.prems(1,2) i j, of w]
  have v1: "vertices ?d1 = vertices d" and u1: "\<not> directed ?d1"
    using Cons.prems(2) by (simp_all add: DynamicGraph_add_edge_frame)
  have i1: "dynamic_inv ?d1" by (rule DynamicGraph_add_edge_inv [OF Cons.prems(1)])
  have "\<forall>(a, b, w) \<in> set es. a \<in> set (vertices ?d1) \<and> b \<in> set (vertices ?d1)"
    using Cons.prems(3) v1 by simp
  from Cons.IH [OF i1 u1 this] obtain d' where d':
    "run_all (add_edge_calls es) (Dynamic ?d1) = (replicate (length es) (Inr No_value), Dynamic d')"
    "vertices d' = vertices ?d1" "\<not> directed d'" "dynamic_inv d'"
    "dynamic_cell (adjacency_list d')
       = cells_after (vertices ?d1) es (dynamic_cell (adjacency_list ?d1))"
    by blast
  have "run (Add_edge a b w) (Dynamic d) = (Inr No_value, Dynamic ?d1)"
    using c(1) by (simp add: run_def answered_def)
  then have "run_all (add_edge_calls (e # es)) (Dynamic d)
      = (replicate (length (e # es)) (Inr No_value), Dynamic d')"
    using d'(1) e by (simp add: add_edge_calls_def)
  moreover have "dynamic_cell (adjacency_list d')
       = cells_after (vertices d) (e # es) (dynamic_cell (adjacency_list d))"
    using d'(5) c(2) v1 e i j by simp
  ultimately show ?case using d'(2,3,4) v1 by (intro exI [of _ d']) simp
qed

lemma static_calls:
  assumes "square (length (vertices s)) (the_view s)" "\<not> directed s"
    and "\<forall>(a, b, w) \<in> set es. a \<in> set (vertices s) \<and> b \<in> set (vertices s) \<and> \<not> isnan w"
  shows "\<exists>s'. run_all (add_edge_calls es) (Static s)
              = (replicate (length es) (Inr No_value), Static s')
          \<and> vertices s' = vertices s \<and> \<not> directed s'
          \<and> square (length (vertices s')) (the_view s')
          \<and> static_cell (the_view s')
              = cells_after (vertices s) es (static_cell (the_view s))"
  using assms
proof (induction es arbitrary: s)
  case Nil
  then show ?case by (simp add: add_edge_calls_def)
next
  case (Cons e es)
  obtain a b w where e: "e = (a, b, w)" by (cases e)
  have w: "\<not> isnan w" using Cons.prems(3) e by simp
  obtain i j where i: "list_index (vertices s) a = Some i"
    and j: "list_index (vertices s) b = Some j"
    using Cons.prems(3) e list_index_mem [of a "vertices s"] list_index_mem [of b "vertices s"]
    by auto
  let ?s1 = "snd (StaticGraph_add_edge a b w s)"
  note c = StaticGraph_add_edge_cells [OF Cons.prems(1,2) i j w]
  have v1: "vertices ?s1 = vertices s" and u1: "\<not> directed ?s1"
    using Cons.prems(2) by (simp_all add: StaticGraph_add_edge_frame)
  have sq1: "square (length (vertices ?s1)) (the_view ?s1)" using c(3) v1 by simp
  have "\<forall>(a, b, w) \<in> set es. a \<in> set (vertices ?s1) \<and> b \<in> set (vertices ?s1) \<and> \<not> isnan w"
    using Cons.prems(3) v1 by simp
  from Cons.IH [OF sq1 u1 this] obtain s' where s':
    "run_all (add_edge_calls es) (Static ?s1) = (replicate (length es) (Inr No_value), Static s')"
    "vertices s' = vertices ?s1" "\<not> directed s'" "square (length (vertices s')) (the_view s')"
    "static_cell (the_view s')
       = cells_after (vertices ?s1) es (static_cell (the_view ?s1))"
    by blast
  have "run (Add_edge a b w) (Static s) = (Inr No_value, Static ?s1)"
    using c(1) by (simp add: run_def answered_def)
  then have "run_all (add_edge_calls (e # es)) (Static s)
      = (replicate (length (e # es)) (Inr No_value), Static s')"
    using s'(1) e by (simp add: add_edge_calls_def)
  moreover have "static_cell (the_view s')
       = cells_after (vertices s) (e # es) (static_cell (the_view s))"
    using s'(5) c(2) v1 e i j by simp
  ultimately show ?case using s'(2,3,4) v1 by (intro exI [of _ s']) simp
qed

lemma labelled_empty: "labelled vs (\<lambda>_ _. None)"
  by (simp add: labelled_def)

lemma labelled_put_edge:
  assumes lab: "labelled vs rd"
    and i: "list_index vs a = Some i" and j: "list_index vs b = Some j"
  shows "labelled vs (put_edge i j w rd)"
  unfolding labelled_def
proof (intro allI impI)
  fix x y
  assume d: "put_edge i j w rd x y \<noteq> None"
  have fi: "i < length vs" "list_index vs (vs ! i) = Some i"
    using list_index_Some [OF i] i by auto
  have fj: "j < length vs" "list_index vs (vs ! j) = Some j"
    using list_index_Some [OF j] j by auto
  show "put_edge i j w rd y x = put_edge i j w rd x y \<and> x < length vs \<and> y < length vs
        \<and> list_index vs (vs ! x) = Some x \<and> list_index vs (vs ! y) = Some y"
  proof (cases "(x = i \<and> y = j) \<or> (x = j \<and> y = i)")
    case True
    then have "put_edge i j w rd y x = Some w" "put_edge i j w rd x y = Some w"
      unfolding put_edge_def by auto
    then show ?thesis using True fi fj by auto
  next
    case False
    then have e: "put_edge i j w rd x y = rd x y" unfolding put_edge_def by auto
    have "\<not> ((y = i \<and> x = j) \<or> (y = j \<and> x = i))" using False by blast
    then have e': "put_edge i j w rd y x = rd y x" unfolding put_edge_def by auto
    have "rd x y \<noteq> None" using d e by simp
    then show ?thesis using lab e e' unfolding labelled_def by metis
  qed
qed

lemma labelled_cells_after:
  assumes "labelled vs rd" "\<forall>(a, b, w) \<in> set es. a \<in> set vs \<and> b \<in> set vs"
  shows "labelled vs (cells_after vs es rd)"
  using assms
proof (induction es arbitrary: rd)
  case Nil
  then show ?case by simp
next
  case (Cons e es)
  obtain a b w where e: "e = (a, b, w)" by (cases e)
  obtain i j where i: "list_index vs a = Some i" and j: "list_index vs b = Some j"
    using Cons.prems(2) e list_index_mem [of a vs] list_index_mem [of b vs] by auto
  have "labelled vs (put_edge i j w rd)" by (rule labelled_put_edge [OF Cons.prems(1) i j])
  moreover have "\<forall>(a, b, w) \<in> set es. a \<in> set vs \<and> b \<in> set vs" using Cons.prems(2) by simp
  ultimately show ?case using Cons.IH e i j by simp
qed

lemma cells_after_origin:
  assumes "cells_after vs es rd x y = Some v"
  shows "rd x y = Some v
       \<or> (\<exists>(a, b, w) \<in> set es. w = v
            \<and> ((x = the (list_index vs a) \<and> y = the (list_index vs b))
               \<or> (x = the (list_index vs b) \<and> y = the (list_index vs a))))"
  using assms
proof (induction es arbitrary: rd)
  case Nil
  then show ?case by simp
next
  case (Cons e es)
  obtain a b w where e: "e = (a, b, w)" by (cases e)
  let ?i = "the (list_index vs a)" and ?j = "the (list_index vs b)"
  have "cells_after vs es (put_edge ?i ?j w rd) x y = Some v" using Cons.prems e by simp
  from Cons.IH [OF this] consider
    (here) "put_edge ?i ?j w rd x y = Some v"
    | (later) "\<exists>(a, b, w) \<in> set es. w = v
            \<and> ((x = the (list_index vs a) \<and> y = the (list_index vs b))
               \<or> (x = the (list_index vs b) \<and> y = the (list_index vs a)))"
    by blast
  then show ?case
  proof cases
    case here
    show ?thesis
    proof (cases "(x = ?i \<and> y = ?j) \<or> (x = ?j \<and> y = ?i)")
      case True
      then have "put_edge ?i ?j w rd x y = Some w" unfolding put_edge_def by simp
      then have "w = v" using here by simp
      then show ?thesis using True e by auto
    next
      case False
      then have "put_edge ?i ?j w rd x y = rd x y" unfolding put_edge_def by auto
      then show ?thesis using here by simp
    qed
  next
    case later
    then show ?thesis by auto
  qed
qed

lemma cells_after_untouched:
  assumes "\<forall>(a, b, w) \<in> set es.
             \<not> ((x = the (list_index vs a) \<and> y = the (list_index vs b))
                \<or> (x = the (list_index vs b) \<and> y = the (list_index vs a)))"
  shows "cells_after vs es rd x y = rd x y"
  using assms
proof (induction es arbitrary: rd)
  case Nil
  then show ?case by simp
next
  case (Cons e es)
  obtain a b w where e: "e = (a, b, w)" by (cases e)
  let ?i = "the (list_index vs a)" and ?j = "the (list_index vs b)"
  have "\<not> ((x = ?i \<and> y = ?j) \<or> (x = ?j \<and> y = ?i))" using Cons.prems e by simp
  then have "put_edge ?i ?j w rd x y = rd x y" unfolding put_edge_def by auto
  moreover have "cells_after vs es (put_edge ?i ?j w rd) x y = put_edge ?i ?j w rd x y"
    using Cons.IH Cons.prems by simp
  ultimately show ?case using e by simp
qed

lemma list_index_differ:
  "a \<in> set vs \<Longrightarrow> b \<in> set vs \<Longrightarrow> a \<noteq> b \<Longrightarrow> the (list_index vs a) \<noteq> the (list_index vs b)"
  using list_index_mem [of a vs] list_index_mem [of b vs] list_index_inj [of vs a _ b]
  by fastforce

lemma cells_after_value:
  assumes "disjoint_pairs es" "(a, b, w) \<in> set es"
    and "\<forall>(a, b, w) \<in> set es. a \<in> set vs \<and> b \<in> set vs"
  shows "cells_after vs es rd (the (list_index vs a)) (the (list_index vs b)) = Some w"
  using assms
proof (induction es arbitrary: rd)
  case Nil
  then show ?case by simp
next
  case (Cons e es)
  obtain a' b' w' where e: "e = (a', b', w')" by (cases e)
  let ?i = "the (list_index vs a)" and ?j = "the (list_index vs b)"
  show ?case
  proof (cases "(a, b, w) = e")
    case True
    have apart: "\<forall>(c, d, w) \<in> set es. c \<noteq> a \<and> c \<noteq> b \<and> d \<noteq> a \<and> d \<noteq> b"
      using Cons.prems(1) True e by (auto simp: list_all_iff)
    have mem: "a \<in> set vs" "b \<in> set vs" using Cons.prems(3) True e by auto
    have "\<forall>(c, d, w) \<in> set es.
             \<not> ((?i = the (list_index vs c) \<and> ?j = the (list_index vs d))
                \<or> (?i = the (list_index vs d) \<and> ?j = the (list_index vs c)))"
    proof (intro ballI, clarify)
      fix c d u
      assume m: "(c, d, u) \<in> set es"
        and h: "?i = the (list_index vs c) \<and> ?j = the (list_index vs d)
              \<or> ?i = the (list_index vs d) \<and> ?j = the (list_index vs c)"
      have cd: "c \<in> set vs" "d \<in> set vs" using Cons.prems(3) m by auto
      have ne: "c \<noteq> a" "d \<noteq> a" using apart m by auto
      show False
        using h list_index_differ [OF cd(1) mem(1) ne(1)] list_index_differ [OF cd(2) mem(1) ne(2)]
        by auto
    qed
    then have "cells_after vs es (put_edge ?i ?j w rd) ?i ?j = put_edge ?i ?j w rd ?i ?j"
      by (rule cells_after_untouched)
    moreover have "put_edge ?i ?j w rd ?i ?j = Some w" unfolding put_edge_def by simp
    ultimately show ?thesis using True e by auto
  next
    case False
    then have "(a, b, w) \<in> set es" using Cons.prems(2) by simp
    moreover have "disjoint_pairs es" using Cons.prems(1) e by simp
    moreover have "\<forall>(a, b, w) \<in> set es. a \<in> set vs \<and> b \<in> set vs" using Cons.prems(3) by simp
    ultimately show ?thesis using Cons.IH e by simp
  qed
qed

lemma disjoint_pairs_distinct: "disjoint_pairs es \<Longrightarrow> distinct es"
proof (induction es)
  case Nil
  then show ?case by simp
next
  case (Cons e es)
  obtain a b w where e: "e = (a, b, w)" by (cases e)
  have "e \<notin> set es" using Cons.prems e by (auto simp: list_all_iff)
  then show ?case using Cons e by simp
qed

lemma disjoint_pairs_apart:
  assumes "disjoint_pairs es" "(a, b, w) \<in> set es" "(a', b', w') \<in> set es"
    and "(a, b, w) \<noteq> (a', b', w')"
  shows "a' \<noteq> a \<and> a' \<noteq> b \<and> b' \<noteq> a \<and> b' \<noteq> b"
  using assms(1,2,3)
proof (induction es)
  case Nil
  then show ?case by simp
next
  case (Cons e es)
  obtain c d u where e: "e = (c, d, u)" by (cases e)
  have apart: "\<forall>(x, y, z) \<in> set es. x \<noteq> c \<and> x \<noteq> d \<and> y \<noteq> c \<and> y \<noteq> d"
    and rest: "disjoint_pairs es"
    using Cons.prems(1) e by (auto simp: list_all_iff)
  consider (both) "(a, b, w) \<in> set es" "(a', b', w') \<in> set es"
    | (first) "(a, b, w) = e" "(a', b', w') \<in> set es"
    | (second) "(a', b', w') = e" "(a, b, w) \<in> set es"
    using Cons.prems(2,3) assms(4) by auto
  then show ?case
  proof cases
    case both
    then show ?thesis using Cons.IH [OF rest] by blast
  next
    case first
    then show ?thesis using apart e by auto
  next
    case second
    then show ?thesis using apart e by auto
  qed
qed

subsection \<open>Counting the edges\<close>

lemma scan_after_calls:
  assumes ends: "\<forall>(a, b, w) \<in> set es. a \<in> set vs \<and> b \<in> set vs"
    and dis: "disjoint_pairs es"
  shows "set (scan vs (cells_after vs es (\<lambda>_ _. None))) = emitted vs ` set es"
    and "card (set (scan vs (cells_after vs es (\<lambda>_ _. None)))) = length es"
proof -
  let ?rd = "cells_after vs es (\<lambda>_ _. None)"
  let ?ix = "\<lambda>a. the (list_index vs a)"
  have lab: "labelled vs ?rd" by (rule labelled_cells_after [OF labelled_empty ends])
  have E: "set (scan vs ?rd) = {(vs ! i, vs ! j, w) | i j w. i \<le> j \<and> ?rd i j = Some w}"
    by (rule set_scan [OF lab])
  have at: "vs ! ?ix a = a" if "a \<in> set vs" for a
    using list_index_mem [OF that] list_index_Some [of vs a] by auto
  have val: "?rd (?ix a) (?ix b) = Some w \<and> ?rd (?ix b) (?ix a) = Some w"
    if "(a, b, w) \<in> set es" for a b w
  proof -
    have v: "?rd (?ix a) (?ix b) = Some w" by (rule cells_after_value [OF dis that ends])
    then have "?rd (?ix a) (?ix b) \<noteq> None" by simp
    then have "?rd (?ix b) (?ix a) = ?rd (?ix a) (?ix b)" using lab unfolding labelled_def by blast
    then show ?thesis using v by simp
  qed
  have sub1: "emitted vs e \<in> set (scan vs ?rd)" if "e \<in> set es" for e
  proof -
    obtain a b w where e: "e = (a, b, w)" by (cases e)
    have m: "a \<in> set vs" "b \<in> set vs" using ends that e by auto
    show ?thesis
    proof (cases "?ix a \<le> ?ix b")
      case True
      have "(vs ! ?ix a, vs ! ?ix b, w) \<in> set (scan vs ?rd)"
        unfolding E using True val that e by blast
      then show ?thesis using True e at [OF m(1)] at [OF m(2)] by (simp add: emitted_def)
    next
      case False
      then have le: "?ix b \<le> ?ix a" by simp
      have "(vs ! ?ix b, vs ! ?ix a, w) \<in> set (scan vs ?rd)"
        unfolding E using le val that e by blast
      then show ?thesis using False e at [OF m(1)] at [OF m(2)] by (simp add: emitted_def)
    qed
  qed
  have sub2: "t \<in> emitted vs ` set es" if tin: "t \<in> set (scan vs ?rd)" for t
  proof -
    have "t \<in> {(vs ! i, vs ! j, w) | i j w. i \<le> j \<and> ?rd i j = Some w}"
      using tin E by simp
    then obtain x y v where t: "t = (vs ! x, vs ! y, v)" and xy: "x \<le> y"
      and c: "?rd x y = Some v"
      by blast
    obtain a b w where m: "(a, b, w) \<in> set es" and wv: "w = v"
      and pos: "(x = ?ix a \<and> y = ?ix b) \<or> (x = ?ix b \<and> y = ?ix a)"
      using cells_after_origin [OF c] by auto
    have mem: "a \<in> set vs" "b \<in> set vs" using ends m by auto
    have "emitted vs (a, b, w) = t"
    proof (cases "?ix a \<le> ?ix b")
      case True
      then have "x = ?ix a \<and> y = ?ix b" using pos xy by auto
      then show ?thesis using True t wv at [OF mem(1)] at [OF mem(2)] by (simp add: emitted_def)
    next
      case False
      then have "x = ?ix b \<and> y = ?ix a" using pos xy by auto
      then show ?thesis using False t wv at [OF mem(1)] at [OF mem(2)] by (simp add: emitted_def)
    qed
    then show ?thesis using m by force
  qed
  show eq: "set (scan vs ?rd) = emitted vs ` set es" using sub1 sub2 by blast
  have inj: "inj_on (emitted vs) (set es)"
  proof (rule inj_onI)
    fix e e' assume e: "e \<in> set es" and e': "e' \<in> set es" and same: "emitted vs e = emitted vs e'"
    obtain a b w where ee: "e = (a, b, w)" by (cases e)
    obtain a' b' w' where ee': "e' = (a', b', w')" by (cases e')
    show "e = e'"
    proof (rule ccontr)
      assume "e \<noteq> e'"
      then have "a' \<noteq> a \<and> a' \<noteq> b \<and> b' \<noteq> a \<and> b' \<noteq> b"
        using disjoint_pairs_apart [OF dis] e e' ee ee' by blast
      then show False using same ee ee' by (auto simp: emitted_def split: if_splits)
    qed
  qed
  show "card (set (scan vs ?rd)) = length es"
    using card_image [OF inj] distinct_card [OF disjoint_pairs_distinct [OF dis]] eq by simp
qed

lemma emitted_cases: "emitted vs (a, b, w) = (a, b, w) \<or> emitted vs (a, b, w) = (b, a, w)"
  by (simp add: emitted_def)

lemma dynamic_cell_init: "dynamic_cell (replicate n (replicate n None)) = (\<lambda>_ _. None)"
  by (auto simp: dynamic_cell_def getitem2_replicate fun_eq_iff)

lemma static_cell_init: "static_cell (np_full n n) = (\<lambda>_ _. None)"
  by (auto simp: static_cell_def getitem2_replicate np_full_def isnan_def fun_eq_iff)

lemma run_Get_edges:
  "fst (run Get_edges (Static s)) = map_sum id (\<lambda>es. Edge_set (set es)) (StaticGraph_edges s)"
  "fst (run Get_edges (Dynamic d)) = map_sum id (\<lambda>es. Edge_set (set es)) (DynamicGraph_edges d)"
  by (simp_all add: run_def answered_simps)

text \<open>
  C9, as amended. Take an undirected graph made by the constructor from a vertex list, on
  either backend, and then \<open>k\<close> calls \<^verbatim>\<open>add_edge(a, b, w)\<close> between vertices of the list, the
  pairs pairwise disjoint, and on a StaticGraph no weight NaN. Then every call returns
  normally, and \<^verbatim>\<open>edges\<close> is a set of exactly \<open>k\<close> triples that holds, for each call, the
  triple \<open>(a, b, w)\<close> or the triple \<open>(b, a, w)\<close>.
\<close>

theorem edges_count:
  assumes "g0 = Dynamic (DynamicGraph_init False vs)
           \<or> (g0 = Static (StaticGraph_init False vs) \<and> (\<forall>(a, b, w) \<in> set es. \<not> isnan w))"
    and "\<forall>(a, b, w) \<in> set es. a \<in> set vs \<and> b \<in> set vs"
    and "disjoint_pairs es"
  shows "fst (run_all (add_edge_calls es) g0) = replicate (length es) (Inr No_value)
       \<and> (\<exists>E. fst (run Get_edges (snd (run_all (add_edge_calls es) g0))) = Inr (Edge_set E)
              \<and> card E = length es
              \<and> (\<forall>(a, b, w) \<in> set es. (a, b, w) \<in> E \<or> (b, a, w) \<in> E))"
proof -
  let ?E = "set (scan vs (cells_after vs es (\<lambda>_ _. None)))"
  have holds: "\<forall>(a, b, w) \<in> set es. (a, b, w) \<in> ?E \<or> (b, a, w) \<in> ?E"
  proof (intro ballI, clarify)
    fix a b w assume m: "(a, b, w) \<in> set es" and n: "(b, a, w) \<notin> ?E"
    have "emitted vs (a, b, w) \<in> ?E" using scan_after_calls(1) [OF assms(2,3)] m by blast
    then show "(a, b, w) \<in> ?E" using emitted_cases [of vs a b w] n by auto
  qed
  have card: "card ?E = length es" by (rule scan_after_calls(2) [OF assms(2,3)])
  from assms(1) show ?thesis
  proof
    assume g0: "g0 = Dynamic (DynamicGraph_init False vs)"
    let ?d = "DynamicGraph_init False vs :: 'a DynamicGraph"
    have inv: "dynamic_inv ?d" using DynamicGraph_init_inv [of False vs] by (simp add: graph_inv_def)
    have und: "\<not> directed ?d" and vs: "vertices ?d = vs"
      and cell: "dynamic_cell (adjacency_list ?d) = (\<lambda>_ _. None)"
      by (simp_all add: DynamicGraph_init_def dynamic_cell_init)
    have ends: "\<forall>(a, b, w) \<in> set es. a \<in> set (vertices ?d) \<and> b \<in> set (vertices ?d)"
      using assms(2) vs by simp
    obtain d' where d': "run_all (add_edge_calls es) (Dynamic ?d)
              = (replicate (length es) (Inr No_value), Dynamic d')"
        "vertices d' = vertices ?d" "\<not> directed d'" "dynamic_inv d'"
        "dynamic_cell (adjacency_list d')
              = cells_after (vertices ?d) es (dynamic_cell (adjacency_list ?d))"
      using dynamic_calls [OF inv und ends] by blast
    have sq: "square (length (vertices d')) (adjacency_list d')"
      using d'(4) by (simp add: dynamic_inv_def)
    have "DynamicGraph_edges d' = Inr (scan vs (cells_after vs es (\<lambda>_ _. None)))"
      using DynamicGraph_edges_scan [OF sq d'(3)] d'(2,5) vs cell by simp
    then have "fst (run Get_edges (snd (run_all (add_edge_calls es) g0))) = Inr (Edge_set ?E)"
      using d'(1) g0 by (simp add: run_Get_edges)
    then show ?thesis using d'(1) g0 card holds by auto
  next
    assume a: "g0 = Static (StaticGraph_init False vs) \<and> (\<forall>(a, b, w) \<in> set es. \<not> isnan w)"
    then have g0: "g0 = Static (StaticGraph_init False vs)" by simp
    let ?s = "StaticGraph_init False vs :: 'a StaticGraph"
    have und: "\<not> directed ?s" and vs: "vertices ?s = vs"
      and cell: "static_cell (the_view ?s) = (\<lambda>_ _. None)"
      and sq0: "square (length (vertices ?s)) (the_view ?s)"
      by (simp_all add: StaticGraph_init_def the_view_def static_cell_init np_full_def
            square_replicate)
         (simp add: static_cell_init [unfolded np_full_def])
    have ends: "\<forall>(a, b, w) \<in> set es.
        a \<in> set (vertices ?s) \<and> b \<in> set (vertices ?s) \<and> \<not> isnan w"
      using assms(2) a vs by auto
    obtain s' where s': "run_all (add_edge_calls es) (Static ?s)
              = (replicate (length es) (Inr No_value), Static s')"
        "vertices s' = vertices ?s" "\<not> directed s'"
        "square (length (vertices s')) (the_view s')"
        "static_cell (the_view s')
              = cells_after (vertices ?s) es (static_cell (the_view ?s))"
      using static_calls [OF sq0 und ends] by blast
    have "StaticGraph_edges s' = Inr (scan vs (cells_after vs es (\<lambda>_ _. None)))"
      using StaticGraph_edges_scan [OF s'(4,3)] s'(2,5) vs cell by simp
    then have "fst (run Get_edges (snd (run_all (add_edge_calls es) g0))) = Inr (Edge_set ?E)"
      using s'(1) g0 by (simp add: run_Get_edges)
    then show ?thesis using s'(1) g0 card holds by auto
  qed
qed

theorem edges_count_witness:
  "disjoint_pairs two_calls
   \<and> list_all (\<lambda>(a, b, w). a \<in> set [1, 2, 3, 4] \<and> b \<in> set [1, 2, 3, 4] \<and> \<not> isnan w) two_calls
   \<and> fst (run_all (add_edge_calls two_calls) (Static (StaticGraph_init False [1, 2, 3, 4])))
       = [Inr No_value, Inr No_value]
   \<and> (\<exists>E. fst (run Get_edges
                (snd (run_all (add_edge_calls two_calls)
                       (Static (StaticGraph_init False [1, 2, 3, 4])))))
            = Inr (Edge_set E) \<and> card E = 2)
   \<and> (\<exists>E. fst (run Get_edges
                (snd (run_all (add_edge_calls two_calls)
                       (Dynamic (DynamicGraph_init False [1, 2, 3, 4])))))
            = Inr (Edge_set E) \<and> card E = 2)
   \<and> fst (run Get_edges
            (snd (run_all (add_edge_calls two_calls)
                   (Dynamic (DynamicGraph_init False [1, 2, 3, 4])))))
       = Inr (Edge_set {(1, 2, Num 1), (3, 4, Num 2)})"
proof -
  have d: "disjoint_pairs two_calls" by (simp add: two_calls_def)
  have m: "\<forall>(a, b, w) \<in> set two_calls. a \<in> set [1, 2, 3, 4] \<and> b \<in> set [1, 2, 3, 4]"
    by (simp add: two_calls_def)
  have n: "\<forall>(a, b, w) \<in> set two_calls. \<not> isnan w" by (simp add: two_calls_def isnan_def)
  have l: "length two_calls = 2" by (simp add: two_calls_def)
  have e: "fst (run Get_edges
            (snd (run_all (add_edge_calls two_calls)
                   (Dynamic (DynamicGraph_init False [1, 2, 3, 4])))))
       = Inr (Edge_set {(1, 2, Num 1), (3, 4, Num 2)})"
    unfolding two_calls_def by code_simp
  let ?s = "Static (StaticGraph_init False [1, 2, 3, 4]) :: nat graph"
  let ?d = "Dynamic (DynamicGraph_init False [1, 2, 3, 4]) :: nat graph"
  have hs: "?s = Dynamic (DynamicGraph_init False [1, 2, 3, 4])
      \<or> (?s = Static (StaticGraph_init False [1, 2, 3, 4])
          \<and> (\<forall>(a, b, w) \<in> set two_calls. \<not> isnan w))"
    using n by blast
  have hd: "?d = Dynamic (DynamicGraph_init False [1, 2, 3, 4])
      \<or> (?d = Static (StaticGraph_init False [1, 2, 3, 4])
          \<and> (\<forall>(a, b, w) \<in> set two_calls. \<not> isnan w))"
    by blast
  have rs: "fst (run_all (add_edge_calls two_calls) ?s) = [Inr No_value, Inr No_value]"
    using edges_count [OF hs m d] l by (simp add: numeral_2_eq_2)
  obtain E where E: "fst (run Get_edges (snd (run_all (add_edge_calls two_calls) ?s)))
      = Inr (Edge_set E)" "card E = length two_calls"
    using edges_count [OF hs m d] by blast
  obtain E' where E': "fst (run Get_edges (snd (run_all (add_edge_calls two_calls) ?d)))
      = Inr (Edge_set E')" "card E' = length two_calls"
    using edges_count [OF hd m d] by blast
  have "\<exists>E. fst (run Get_edges (snd (run_all (add_edge_calls two_calls) ?s)))
      = Inr (Edge_set E) \<and> card E = 2"
    using E l by auto
  moreover have "\<exists>E. fst (run Get_edges (snd (run_all (add_edge_calls two_calls) ?d)))
      = Inr (Edge_set E) \<and> card E = 2"
    using E' l by auto
  moreover have "list_all (\<lambda>(a, b, w). a \<in> set [1, 2, 3, 4] \<and> b \<in> set [1, 2, 3, 4] \<and> \<not> isnan w)
      two_calls"
    by (simp add: two_calls_def isnan_def)
  ultimately show ?thesis using d rs e by blast
qed

text \<open>
  The claim as it stands fails on a StaticGraph for the weight NaN: after the one call
  \<^verbatim>\<open>add_edge(1, 2, nan)\<close>, which returns normally, \<^verbatim>\<open>edges\<close> is empty.
\<close>

theorem edges_count_counterexample:
  "disjoint_pairs [(1::nat, 2::nat, NaN)]
   \<and> fst (run_all (add_edge_calls [(1, 2, NaN)]) (Static (StaticGraph_init False [1::nat, 2])))
       = [Inr No_value]
   \<and> fst (run Get_edges
            (snd (run_all (add_edge_calls [(1, 2, NaN)])
                   (Static (StaticGraph_init False [1::nat, 2])))))
       = Inr (Edge_set {})"
  by code_simp

end
